(* ===== verification/FileSystem.thy ===== *)
theory FileSystem
  imports Prelude
begin

text \<open>
  The part of Rust's \<open>std::path\<close> and \<open>std::fs\<close> that the sources use, on Unix.  A host holds the
  files by path, the identity of the running process, and a history of the states the file
  system went through, so that theorems can speak about every moment and not only about the end.
  An operation may fail for reasons outside the model (permissions, a full disk): the host says
  which operations do, by the order they are made in.  A symbolic link is a file of its own, as
  \<open>symlink_metadata\<close>, \<open>remove_file\<close> and \<open>bind\<close> take it; \<open>exists\<close> follows it.  The other operations are
  modelled for paths that lead through no links: one to a directory is refused where a directory is
  expected, and what is written to a link or made its mode is not passed on to its target.
\<close>

section \<open>Paths\<close>

text \<open>Trailing separators and \<open>/.\<close> components are no part of the last component; read backwards.\<close>

fun trim_rev :: "string \<Rightarrow> string" where
  "trim_rev [] = []"
| "trim_rev (c # r) =
     (if c = CHR ''/'' then (if r = [] then ''/'' else trim_rev r)
      else if c = CHR ''.'' \<and> r \<noteq> [] \<and> hd r = CHR ''/'' then trim_rev r
      else c # r)"

definition path_parent :: "string \<Rightarrow> string option" where
  "path_parent p =
     (let r = trim_rev (rev p)
      in if r = [] \<or> r = ''/'' then None
         else let up = dropWhile (\<lambda>c. c \<noteq> CHR ''/'') r
              in Some (rev (if up = [] then [] else trim_rev up)))"

lemma length_trim_rev: "length (trim_rev r) \<le> length r"
  by (induction r rule: trim_rev.induct) auto

lemma trim_rev_head: "trim_rev r = CHR ''/'' # t \<Longrightarrow> t = []"
  by (induction r rule: trim_rev.induct) (auto split: if_splits)

lemma path_parent_shorter: "path_parent p = Some q \<Longrightarrow> length q < length p"
proof -
  assume q: "path_parent p = Some q"
  define r where "r = trim_rev (rev p)"
  define up where "up = dropWhile (\<lambda>c. c \<noteq> CHR ''/'') r"
  have r: "r \<noteq> []" "r \<noteq> ''/''" and q: "q = rev (if up = [] then [] else trim_rev up)"
    using q unfolding path_parent_def Let_def r_def [symmetric] up_def [symmetric]
    by (auto split: if_splits)
  have "length up < length r"
  proof (cases r)
    case (Cons c t)
    then have "c \<noteq> CHR ''/''" using trim_rev_head [of "rev p" t] r unfolding r_def by auto
    then show ?thesis using Cons length_dropWhile_le [of _ t] by (simp add: up_def le_imp_less_Suc)
  qed (use r in simp)
  moreover have "length r \<le> length p" unfolding r_def using length_trim_rev [of "rev p"] by simp
  ultimately show ?thesis using q length_trim_rev [of up] by auto
qed

text \<open>The proper ancestors of a path, the nearest first.\<close>

function ancestors :: "string \<Rightarrow> string list" where
  "ancestors p = (case path_parent p of None \<Rightarrow> [] | Some q \<Rightarrow> q # ancestors q)"
  by pat_completeness auto
termination by (relation "measure length") (auto dest: path_parent_shorter)

declare ancestors.simps [simp del]

section \<open>The host\<close>

datatype node_kind = Directory | RegularFile | Socket | Symlink

record node =
  kind :: node_kind
  node_uid :: u32
  node_gid :: u32
  node_mode :: u32
  content :: string

type_synonym files = "string \<Rightarrow> node option"

datatype io_error = NotFound | AlreadyExists | OtherIo nat

record host =
  files :: files
  euid :: u32
  egid :: u32
  umask :: u32
  fault :: "nat \<Rightarrow> io_error option"
  moment :: nat
  history :: "files list"

type_synonym 'a io = "host \<Rightarrow> (io_error + 'a) \<times> host"

definition io_bind :: "(host \<Rightarrow> ('e + 'a) \<times> host) \<Rightarrow> ('a \<Rightarrow> host \<Rightarrow> ('e + 'b) \<times> host) \<Rightarrow>
    host \<Rightarrow> ('e + 'b) \<times> host" where
  "io_bind m f h = (case m h of (Inl e, h') \<Rightarrow> (Inl e, h') | (Inr x, h') \<Rightarrow> f x h')"

definition io_return :: "'a \<Rightarrow> host \<Rightarrow> ('e + 'a) \<times> host" where
  "io_return x h = (Ok x, h)"

text \<open>
  One operation: unless the host makes it fail, \<open>f\<close> says what it does to the files.
\<close>

definition fs_op :: "(host \<Rightarrow> io_error + ('a \<times> files)) \<Rightarrow> 'a io" where
  "fs_op f h =
     (let h' = h\<lparr>moment := moment h + 1\<rparr>
      in case fault h (moment h) of
           Some e \<Rightarrow> (Err e, h')
         | None \<Rightarrow> (case f h of
             Inl e \<Rightarrow> (Err e, h')
           | Inr (x, fs) \<Rightarrow> (Ok x, h'\<lparr>files := fs, history := history h @ [fs]\<rparr>)))"

definition new_node :: "host \<Rightarrow> node_kind \<Rightarrow> u32 \<Rightarrow> string \<Rightarrow> node" where
  "new_node h k m text =
     \<lparr>kind = k, node_uid = euid h, node_gid = egid h, node_mode = m AND NOT (umask h), content = text\<rparr>"

definition is_dir_at :: "files \<Rightarrow> string \<Rightarrow> bool" where
  "is_dir_at fs p = (case fs p of None \<Rightarrow> False | Some n \<Rightarrow> kind n = Directory)"

text \<open>
  Modes are written in hexadecimal: \<open>0x1FF\<close> is octal 777, \<open>0x1ED\<close> 755, \<open>0x1C0\<close> 700,
  \<open>0x1B6\<close> 666, \<open>0x1A4\<close> 644, \<open>0x180\<close> 600 and \<open>0x12\<close> 022.
\<close>

text \<open>\<open>create_dir_all\<close> on the empty path succeeds and makes nothing.\<close>

definition create_dir_all :: "string \<Rightarrow> unit io" where
  "create_dir_all p = fs_op (\<lambda>h.
     let missing = filter (\<lambda>d. d \<noteq> [] \<and> files h d = None) (p # ancestors p);
         blocked = filter (\<lambda>d. files h d \<noteq> None \<and> \<not> is_dir_at (files h) d) (p # ancestors p)
     in if blocked = []
        then Ok ((), foldr (\<lambda>d fs. fs(d \<mapsto> new_node h Directory 0x1FF [])) missing (files h))
        else Err AlreadyExists)"

definition set_permissions :: "string \<Rightarrow> u32 \<Rightarrow> unit io" where
  "set_permissions p m = fs_op (\<lambda>h. case files h p of
     None \<Rightarrow> Err NotFound
   | Some n \<Rightarrow> Ok ((), (files h)(p \<mapsto> n\<lparr>node_mode := m\<rparr>)))"

definition remove_file :: "string \<Rightarrow> unit io" where
  "remove_file p = fs_op (\<lambda>h. case files h p of
     None \<Rightarrow> Err NotFound
   | Some n \<Rightarrow> if kind n = Directory then Err (OtherIo 21) else Ok ((), (files h)(p := None)))"

text \<open>
  What stands at the end of the links that a path leads to, a link holding its target as its
  content; the system follows forty of them at most.
\<close>

definition link_target :: "string \<Rightarrow> node \<Rightarrow> string" where
  "link_target p n =
     (if starts_with ''/'' (content n) then content n
      else (case path_parent p of None \<Rightarrow> content n | Some d \<Rightarrow> d @ ''/'' @ content n))"

fun link_end :: "nat \<Rightarrow> files \<Rightarrow> string \<Rightarrow> node option" where
  "link_end 0 fs p = (case fs p of None \<Rightarrow> None | Some n \<Rightarrow> if kind n = Symlink then None else Some n)"
| "link_end (Suc m) fs p =
     (case fs p of
        None \<Rightarrow> None
      | Some n \<Rightarrow> if kind n = Symlink then link_end m fs (link_target p n) else Some n)"

definition MAXSYMLINKS :: nat where "MAXSYMLINKS = 40"

lemma link_end_None [simp]: "fs p = None \<Longrightarrow> link_end m fs p = None"
  by (cases m) simp_all

lemma link_end_plain [simp]: "fs p = Some n \<Longrightarrow> kind n \<noteq> Symlink \<Longrightarrow> link_end m fs p = Some n"
  by (cases m) simp_all

text \<open>
  \<open>Path::exists\<close> follows links, and answers \<open>false\<close> when the file cannot be looked at, at the
  end of a link that leads nowhere as well.
\<close>

definition path_exists :: "string \<Rightarrow> host \<Rightarrow> bool \<times> host" where
  "path_exists p h =
     (case fs_op (\<lambda>h. Ok (link_end MAXSYMLINKS (files h) p \<noteq> None, files h)) h of
        (Inl _, h') \<Rightarrow> (False, h')
      | (Inr b, h') \<Rightarrow> (b, h'))"

definition write_file :: "string \<Rightarrow> string \<Rightarrow> unit io" where
  "write_file p text = fs_op (\<lambda>h. case files h p of
     None \<Rightarrow> Ok ((), (files h)(p \<mapsto> new_node h RegularFile 0x1B6 text))
   | Some n \<Rightarrow> if kind n = Directory then Err (OtherIo 21)
              else Ok ((), (files h)(p \<mapsto> n\<lparr>content := text\<rparr>)))"

text \<open>\<open>bind(2)\<close> on a path that exists fails with \<open>EADDRINUSE\<close>.\<close>

definition bind_socket :: "string \<Rightarrow> unit io" where
  "bind_socket p = fs_op (\<lambda>h.
     if files h p = None then Ok ((), (files h)(p \<mapsto> new_node h Socket 0x1FF []))
     else Err (OtherIo 98))"

definition symlink_metadata :: "string \<Rightarrow> node io" where
  "symlink_metadata p = fs_op (\<lambda>h. case files h p of None \<Rightarrow> Err NotFound | Some n \<Rightarrow> Ok (n, files h))"

section \<open>Reading runs\<close>

lemma io_bind_ok [simp]:
  "io_bind m f h = (Ok y, h2) \<longleftrightarrow> (\<exists>x h1. m h = (Ok x, h1) \<and> f x h1 = (Ok y, h2))"
  by (auto simp: io_bind_def split: prod.splits sum.splits)

lemma io_bind_err [simp]:
  "io_bind m f h = (Err e, h2) \<longleftrightarrow>
     m h = (Err e, h2) \<or> (\<exists>x h1. m h = (Ok x, h1) \<and> f x h1 = (Err e, h2))"
  by (auto simp: io_bind_def split: prod.splits sum.splits)

lemma io_return_iff [simp]: "io_return x h = (r, h') \<longleftrightarrow> r = Ok x \<and> h' = h"
  by (auto simp: io_return_def)

lemma fs_op_ok:
  "fs_op f h = (Ok x, h') \<longleftrightarrow>
     fault h (moment h) = None \<and>
     (\<exists>fs. f h = Ok (x, fs) \<and>
        h' = h\<lparr>moment := moment h + 1, files := fs, history := history h @ [fs]\<rparr>)"
  by (auto simp: fs_op_def Let_def split: option.splits sum.splits)

lemma fs_op_err:
  "fs_op f h = (Err e, h') \<longleftrightarrow>
     h' = h\<lparr>moment := moment h + 1\<rparr> \<and>
     (fault h (moment h) = Some e \<or> fault h (moment h) = None \<and> f h = Err e)"
  by (auto simp: fs_op_def Let_def split: option.splits sum.splits)

text \<open>
  A run keeps a predicate on the files when every state it added to the history has it.
\<close>

definition holds_throughout :: "(files \<Rightarrow> bool) \<Rightarrow> host \<Rightarrow> bool" where
  "holds_throughout P h \<longleftrightarrow> P (files h) \<and> (\<forall>fs\<in>set (history h). P fs)"

definition preserves :: "(files \<Rightarrow> bool) \<Rightarrow> (host \<Rightarrow> ('e + 'a) \<times> host) \<Rightarrow> bool" where
  "preserves P m \<longleftrightarrow> (\<forall>h. holds_throughout P h \<longrightarrow> holds_throughout P (snd (m h)))"

lemma preserves_bind:
  "preserves P m \<Longrightarrow> (\<And>x. preserves P (f x)) \<Longrightarrow> preserves P (io_bind m f)"
  by (fastforce simp: preserves_def io_bind_def split: prod.splits sum.splits)

lemma preserves_fs_op:
  "(\<And>h x fs. P (files h) \<Longrightarrow> f h = Ok (x, fs) \<Longrightarrow> P fs) \<Longrightarrow> preserves P (fs_op f)"
  by (fastforce simp: preserves_def holds_throughout_def fs_op_def Let_def
      split: option.splits sum.splits)

lemma preserves_return: "preserves P (io_return x)"
  by (simp add: preserves_def io_return_def)

lemma ancestors_shorter: "q \<in> set (ancestors p) \<Longrightarrow> length q < length p"
proof (induction p rule: ancestors.induct)
  case (1 p)
  show ?case
  proof (cases "path_parent p")
    case None
    with "1.prems" show ?thesis by (simp add: ancestors.simps [of p])
  next
    case (Some d)
    with "1.prems" have "q = d \<or> q \<in> set (ancestors d)" by (simp add: ancestors.simps [of p])
    then show ?thesis using "1.IH" [OF Some] path_parent_shorter [OF Some] by auto
  qed
qed

lemma foldr_update_other: "p \<notin> set ds \<Longrightarrow> foldr (\<lambda>d fs. fs(d \<mapsto> n)) ds fs p = fs p"
  by (induction ds) auto

lemma create_dir_all_files:
  "create_dir_all d h = (Ok u, h') \<Longrightarrow>
     \<exists>ds. set ds \<subseteq> set (d # ancestors d) \<and>
       files h' = foldr (\<lambda>d fs. fs(d \<mapsto> new_node h Directory 0x1FF [])) ds (files h)"
  by (rule exI [of _ "filter (\<lambda>d. d \<noteq> [] \<and> files h d = None) (d # ancestors d)"])
    (auto simp: create_dir_all_def fs_op_ok Let_def simp del: filter.simps split: if_splits)

lemma create_dir_all_other:
  assumes "create_dir_all d h = (Ok u, h')" and "length d < length p"
  shows "files h' p = files h p"
proof -
  obtain ds where ds: "set ds \<subseteq> set (d # ancestors d)"
    "files h' = foldr (\<lambda>d fs. fs(d \<mapsto> new_node h Directory 0x1FF [])) ds (files h)"
    using create_dir_all_files [OF assms(1)] by blast
  have "p \<notin> set ds" using ds(1) assms(2) ancestors_shorter [of p d] by auto
  then show ?thesis by (simp add: ds(2) foldr_update_other)
qed

text \<open>A host on which nothing fails, for examples.\<close>

definition example_host :: "files \<Rightarrow> u32 \<Rightarrow> host" where
  "example_host fs uid =
     \<lparr>files = fs, euid = uid, egid = uid, umask = 0x12, fault = (\<lambda>n. None), moment = 0, history = []\<rparr>"

end
