(* ===== verification/PeerPolicy.thy ===== *)
theory PeerPolicy
  imports FileSystem
begin

text \<open>
  Who may talk to the daemon: \<open>peer_policy.rs\<close>, \<open>endpoint.rs\<close> and the record \<open>PeerCheck\<close> of
  \<open>handshake.rs\<close>, all under \<open>toolkit/dovetail_privileged_channel/rust/src\<close>.
\<close>

section \<open>The policy\<close>

record PeerCheck =
  check_method :: string
  check_subject :: string

record PeerPolicy =
  policy_uids :: "u32 list"
  policy_gids :: "u32 list"
  policy_code :: "string option"

definition default_policy :: PeerPolicy where
  "default_policy = \<lparr>policy_uids = [], policy_gids = [], policy_code = None\<rparr>"

definition allow_uid :: "u32 \<Rightarrow> PeerPolicy \<Rightarrow> PeerPolicy" where
  "allow_uid uid p = p\<lparr>policy_uids := policy_uids p @ [uid]\<rparr>"

definition allow_gid :: "u32 \<Rightarrow> PeerPolicy \<Rightarrow> PeerPolicy" where
  "allow_gid gid p = p\<lparr>policy_gids := policy_gids p @ [gid]\<rparr>"

definition require_code :: "string \<Rightarrow> PeerPolicy \<Rightarrow> PeerPolicy" where
  "require_code requirement p = p\<lparr>policy_code := Some requirement\<rparr>"

definition code_requirement :: "PeerPolicy \<Rightarrow> string option" where
  "code_requirement p = policy_code p"

definition admits :: "PeerPolicy \<Rightarrow> u32 \<Rightarrow> u32 \<Rightarrow> bool" where
  "admits p uid gid \<longleftrightarrow> uid \<in> set (policy_uids p) \<or> gid \<in> set (policy_gids p)"

record PeerCred =
  cred_pid :: int
  cred_uid :: u32
  cred_gid :: u32

text \<open>Why a peer is refused; the strings are the subjects the messages name.\<close>

datatype peer_error =
    NoPolicy string
  | OutsidePolicy string
  | NoRequirement u32 u32
  | OutsideHelperDirectory string string
  | NoClientDirectory string
  | NoHelperDirectory
  | BadUtf16
  | PeerCall string nat
  | CodeCall string
  | CodeStatus string int
  | CodeRejected u32 int

definition subject_of :: "PeerCred \<Rightarrow> string" where
  "subject_of peer =
     ''pid='' @ show_int (cred_pid peer) @ '' uid='' @ show_nat (unat (cred_uid peer)) @
     '' gid='' @ show_nat (unat (cred_gid peer))"

definition judge :: "PeerPolicy option \<Rightarrow> PeerCred \<Rightarrow> peer_error + PeerCheck" where
  "judge policy peer =
     (let subject = subject_of peer
      in case policy of
           None \<Rightarrow> Err (NoPolicy subject)
         | Some policy \<Rightarrow>
             and_then (ensure (admits policy (cred_uid peer) (cred_gid peer)) (OutsidePolicy subject))
               (\<lambda>_. Ok \<lparr>check_method = ''peercred+policy'', check_subject = subject\<rparr>))"

record SocketModes =
  directory_mode :: u32
  socket_mode :: u32

definition socket_modes :: "PeerPolicy option \<Rightarrow> SocketModes" where
  "socket_modes policy =
     (case policy of
        Some _ \<Rightarrow> \<lparr>directory_mode = 0x1ED, socket_mode = 0x1B6\<rparr>
      | None \<Rightarrow> \<lparr>directory_mode = 0x1C0, socket_mode = 0x180\<rparr>)"

section \<open>The endpoint\<close>

record Endpoint =
  address :: string
  peer_policy :: "PeerPolicy option"

definition new_endpoint :: "string \<Rightarrow> Endpoint" where
  "new_endpoint a = \<lparr>address = a, peer_policy = None\<rparr>"

definition with_peer_policy :: "PeerPolicy \<Rightarrow> Endpoint \<Rightarrow> Endpoint" where
  "with_peer_policy policy e = e\<lparr>peer_policy := Some policy\<rparr>"

definition directory :: "Endpoint \<Rightarrow> string option" where
  "directory e = path_parent (address e)"

definition is_abstract :: "Endpoint \<Rightarrow> bool" where
  "is_abstract e \<longleftrightarrow> starts_with ''@'' (address e)"

section \<open>Lemmas\<close>

text \<open>A policy is built by a sequence of the three declarations, from the empty one.\<close>

datatype policy_step = AllowUid u32 | AllowGid u32 | RequireCode string

fun apply_declaration :: "policy_step \<Rightarrow> PeerPolicy \<Rightarrow> PeerPolicy" where
  "apply_declaration (AllowUid u) = allow_uid u"
| "apply_declaration (AllowGid g) = allow_gid g"
| "apply_declaration (RequireCode r) = require_code r"

definition policy_of :: "policy_step list \<Rightarrow> PeerPolicy" where
  "policy_of ds = fold apply_declaration ds default_policy"

lemma admits_apply [simp]:
  "admits (apply_declaration d p) uid gid \<longleftrightarrow> d = AllowUid uid \<or> d = AllowGid gid \<or> admits p uid gid"
  by (cases d) (auto simp: admits_def allow_uid_def allow_gid_def require_code_def)

lemma admits_fold:
  "admits (fold apply_declaration ds p) uid gid \<longleftrightarrow>
     admits p uid gid \<or> AllowUid uid \<in> set ds \<or> AllowGid gid \<in> set ds"
  by (induction ds arbitrary: p) auto

lemma admits_policy_of:
  "admits (policy_of ds) uid gid \<longleftrightarrow> AllowUid uid \<in> set ds \<or> AllowGid gid \<in> set ds"
  by (simp add: policy_of_def admits_fold) (simp add: admits_def default_policy_def)

lemma code_policy_of_snoc:
  "code_requirement (policy_of (ds @ [RequireCode r])) = Some r"
  by (simp add: policy_of_def code_requirement_def require_code_def)

lemma judge_ok:
  "judge policy peer = Ok check \<longleftrightarrow>
     (\<exists>p. policy = Some p \<and> admits p (cred_uid peer) (cred_gid peer)) \<and>
     check = \<lparr>check_method = ''peercred+policy'', check_subject = subject_of peer\<rparr>"
  by (auto simp: judge_def Let_def split: option.splits)

text \<open>
  A peer is admitted precisely when some declaration of the policy names its user or its
  group, whatever else was declared and in whatever order; without a policy everyone is refused,
  root included, and an admitted peer is recorded under its own credentials.
\<close>

theorem judge_exact:
  "judge (Some (policy_of ds)) peer =
     (if AllowUid (cred_uid peer) \<in> set ds \<or> AllowGid (cred_gid peer) \<in> set ds
      then Ok \<lparr>check_method = ''peercred+policy'', check_subject = subject_of peer\<rparr>
      else Err (OutsidePolicy (subject_of peer))) \<and>
   judge None peer = Err (NoPolicy (subject_of peer))"
  by (simp add: judge_def Let_def admits_policy_of ensure_def)

end
