(* ===== verification/Framing.thy ===== *)
theory Framing
  imports PeerPolicy
begin

text \<open>
  The messages of the channel and the frames they travel in: \<open>envelope.rs\<close>, \<open>handshake.rs\<close>,
  \<open>handshake_error.rs\<close>, \<open>limits.rs\<close>, \<open>framing.rs\<close> and \<open>nonce.rs\<close> under
  \<open>toolkit/dovetail_privileged_channel/rust/src\<close>.  JSON is \<open>serde_json\<close>'s and the length
  prefix is \<open>tokio_util\<close>'s: the first is a parameter, of the second the model keeps what
  \<open>Framed\<close> yields and takes.
\<close>

section \<open>Limits\<close>

definition PROTOCOL_MAJOR :: u16 where "PROTOCOL_MAJOR = 1"
definition PROTOCOL_MINOR :: u16 where "PROTOCOL_MINOR = 1"
definition MAX_FRAME_BYTES :: nat where "MAX_FRAME_BYTES = 64 * 1024"
definition HANDSHAKE_TIMEOUT_MS :: nat where "HANDSHAKE_TIMEOUT_MS = 3000"
definition IDLE_TIMEOUT_MS :: nat where "IDLE_TIMEOUT_MS = 120000"

section \<open>The envelope\<close>

datatype ErrorCode = ErrorCode (as_str: string)

definition version_unsupported :: ErrorCode where
  "version_unsupported = ErrorCode ''VERSION_UNSUPPORTED''"
definition handshake_required :: ErrorCode where
  "handshake_required = ErrorCode ''HANDSHAKE_REQUIRED''"
definition peer_rejected :: ErrorCode where "peer_rejected = ErrorCode ''PEER_REJECTED''"
definition frame_too_large :: ErrorCode where "frame_too_large = ErrorCode ''FRAME_TOO_LARGE''"
definition malformed_frame :: ErrorCode where "malformed_frame = ErrorCode ''MALFORMED_FRAME''"
definition invalid_params :: ErrorCode where "invalid_params = ErrorCode ''INVALID_PARAMS''"
definition busy :: ErrorCode where "busy = ErrorCode ''BUSY''"
definition timeout_code :: ErrorCode where "timeout_code = ErrorCode ''TIMEOUT''"
definition internal :: ErrorCode where "internal = ErrorCode ''INTERNAL''"

record ErrorBody =
  code :: ErrorCode
  message :: string
  retryable :: bool

definition new_error_body :: "ErrorCode \<Rightarrow> string \<Rightarrow> ErrorBody" where
  "new_error_body c m = \<lparr>code = c, message = m, retryable = False\<rparr>"

definition as_retryable :: "ErrorBody \<Rightarrow> ErrorBody" where
  "as_retryable e = e\<lparr>retryable := True\<rparr>"

datatype 'p RespPayload = RespOk 'p | RespErr ErrorBody

definition erro :: "ErrorCode \<Rightarrow> string \<Rightarrow> bool \<Rightarrow> 'p RespPayload" where
  "erro c m r = RespErr \<lparr>code = c, message = m, retryable = r\<rparr>"

record 'p Request =
  req_id :: u64
  req_cmd :: 'p

record 'p Response =
  resp_id :: u64
  resp_payload :: "'p RespPayload"

section \<open>Frames\<close>

type_synonym nonce = bytes

record Hello =
  proto_major :: u16
  proto_minor :: u16
  client_version :: string
  hello_nonce :: nonce

record ServerHello =
  accepted :: bool
  server_proto_major :: u16
  server_proto_minor :: u16
  helper_version :: string
  server_nonce :: nonce
  server_peer_check :: PeerCheck
  reject :: "ErrorBody option"

datatype ('req, 'resp) Frame =
    FHello Hello
  | FServerHello ServerHello
  | FRequest "'req Request"
  | FResponse "'resp Response"

fun frame_name :: "('req, 'resp) Frame \<Rightarrow> string" where
  "frame_name (FHello _) = ''Hello''"
| "frame_name (FServerHello _) = ''ServerHello''"
| "frame_name (FRequest _) = ''Request''"
| "frame_name (FResponse _) = ''Response''"

datatype HandshakeError =
    UnexpectedFrame string string
  | StreamEnded
  | Rejected "ErrorBody option"
  | VersionMismatch u16 u16
  | TimedOut

fun display_handshake_error :: "HandshakeError \<Rightarrow> string" where
  "display_handshake_error (UnexpectedFrame expected got) =
     ''frame inesperado no handshake: esperava '' @ expected @ '', veio '' @ got"
| "display_handshake_error StreamEnded = ''conexao fechada antes do fim do handshake''"
| "display_handshake_error (Rejected rejected) =
     ''handshake recusado pelo servidor: '' @
     (case rejected of None \<Rightarrow> ''sem motivo informado'' | Some r \<Rightarrow> message r)"
| "display_handshake_error (VersionMismatch client server) =
     ''protocolo incompativel: cliente '' @ show_nat (unat client) @ '', servidor '' @ show_nat (unat server)"
| "display_handshake_error TimedOut = ''handshake nao concluido dentro do prazo''"

section \<open>The framer\<close>

text \<open>
  What \<open>framed.next()\<close> yields while a deadline runs: a frame's bytes, an error of the codec, an
  error of the stream, the end of the stream, or nothing before the deadline.  The framer keeps
  what is still to arrive (nothing more is the end of the stream), the frames written so far, and
  which write fails.
\<close>

datatype arrival = Arrives bytes | OverLimit | Breaks io_error | Ends | Silent

record framer =
  inbound :: "arrival list"
  sent :: "bytes list"
  send_fault :: "nat \<Rightarrow> io_error option"

text \<open>JSON of frames, and the \<open>Debug\<close> form of a frame that the client puts in an error.\<close>

record ('req, 'resp) serde =
  to_vec :: "('req, 'resp) Frame \<Rightarrow> bytes option"
  from_slice :: "bytes \<Rightarrow> ('req, 'resp) Frame option"
  debug :: "('req, 'resp) Frame \<Rightarrow> string"

datatype RecvError = TooLarge | Malformed | RecvIo io_error

text \<open>What \<open>anyhow::Error\<close> carries through the channel.\<close>

datatype channel_error =
    Serialize
  | SendError nat nat
  | SendIo io_error
  | Recv RecvError
  | Handshake HandshakeError
  | Generator io_error

definition send_error_display :: "nat \<Rightarrow> nat \<Rightarrow> string" where
  "send_error_display actual limit =
     ''frame de '' @ show_nat actual @ '' bytes excede o teto de '' @ show_nat limit @ '' bytes''"

fun recv_error_display :: "RecvError \<Rightarrow> string" where
  "recv_error_display TooLarge = ''frame acima do teto de '' @ show_nat MAX_FRAME_BYTES @ '' bytes''"
| "recv_error_display Malformed = ''json malformado dentro do frame''"
| "recv_error_display (RecvIo _) = ''erro de io no canal''"

text \<open>
  \<open>send_frame\<close> as it comes to its end: the frame is in the stream as a whole, or nothing of it is and
  the send has failed.  How long the peer may keep the write waiting, \<open>Daemon\<close> says, whose tasks wait
  at each of their writes; a part of a frame that is written is not seen.
\<close>

definition send_frame :: "('req, 'resp) serde \<Rightarrow> ('req, 'resp) Frame \<Rightarrow> framer \<Rightarrow>
    (channel_error + unit) \<times> framer" where
  "send_frame js frame fr =
     (case to_vec js frame of
        None \<Rightarrow> (Err Serialize, fr)
      | Some bytes \<Rightarrow>
          if length bytes > MAX_FRAME_BYTES then (Err (SendError (length bytes) MAX_FRAME_BYTES), fr)
          else (case send_fault fr (length (sent fr)) of
                  Some e \<Rightarrow> (Err (SendIo e), fr)
                | None \<Rightarrow> (Ok (), fr\<lparr>sent := sent fr @ [bytes]\<rparr>)))"

text \<open>
  \<open>recv_frame\<close> under a \<open>timeout\<close>: \<open>None\<close> is the deadline passing first.
\<close>

definition recv_frame :: "('req, 'resp) serde \<Rightarrow> framer \<Rightarrow>
    (RecvError + ('req, 'resp) Frame option) option \<times> framer" where
  "recv_frame js fr =
     (case inbound fr of
        [] \<Rightarrow> (Some (Ok None), fr)
      | a # rest \<Rightarrow>
          ((case a of
              Arrives bytes \<Rightarrow> Some (case from_slice js bytes of
                                  Some frame \<Rightarrow> Ok (Some frame)
                                | None \<Rightarrow> Err Malformed)
            | OverLimit \<Rightarrow> Some (Err TooLarge)
            | Breaks e \<Rightarrow> Some (Err (RecvIo e))
            | Ends \<Rightarrow> Some (Ok None)
            | Silent \<Rightarrow> None),
           fr\<lparr>inbound := rest\<rparr>))"

section \<open>The nonce\<close>

text \<open>
  \<open>File::open\<close> gives the bytes the generator holds or an error; \<open>read_exact\<close> fails on a generator
  that runs dry.
\<close>

definition unexpected_eof :: io_error where "unexpected_eof = OtherIo 37"

definition read_nonce :: "(string \<Rightarrow> io_error + bytes) \<Rightarrow> string \<Rightarrow> io_error + nonce" where
  "read_nonce open_file generator =
     and_then (open_file generator) (\<lambda>bytes.
       if length bytes < 16 then Err unexpected_eof else Ok (take 16 bytes))"

definition random_nonce :: "(string \<Rightarrow> io_error + bytes) \<Rightarrow> io_error + nonce" where
  "random_nonce open_file = read_nonce open_file ''/dev/urandom''"

text \<open>On Windows the system fills the buffer of sixteen bytes, unless the status is negative.\<close>

definition random_nonce_windows :: "int \<times> bytes \<Rightarrow> io_error + nonce" where
  "random_nonce_windows answer =
     (case answer of (status, filled) \<Rightarrow>
        if status < 0 then Err (OtherIo (nat (- status)))
        else Ok (map (\<lambda>i. if i < length filled then filled ! i else 0) [0..<16]))"

section \<open>Lemmas\<close>

lemma length_random_nonce:
  "random_nonce open_file = Ok n \<Longrightarrow> length n = 16"
  "random_nonce_windows answer = Ok n \<Longrightarrow> length n = 16"
  by (auto simp: random_nonce_def read_nonce_def random_nonce_windows_def
      split: if_splits prod.splits)

text \<open>A frame that goes through: it serializes within the limit, and reads back.\<close>

definition fits :: "('req, 'resp) serde \<Rightarrow> ('req, 'resp) Frame \<Rightarrow> bool" where
  "fits js f \<longleftrightarrow>
     (case to_vec js f of None \<Rightarrow> False
      | Some b \<Rightarrow> length b \<le> MAX_FRAME_BYTES \<and> from_slice js b = Some f)"

definition reliable :: "framer \<Rightarrow> bool" where
  "reliable fr \<longleftrightarrow> (\<forall>n. send_fault fr n = None)"

lemma send_frame_fits:
  "fits js f \<Longrightarrow> reliable fr \<Longrightarrow>
     send_frame js f fr = (Ok (), fr\<lparr>sent := sent fr @ [the (to_vec js f)]\<rparr>)"
  by (auto simp: fits_def reliable_def send_frame_def split: option.splits)

lemma send_frame_cases:
  "send_frame js f fr = (r, fr') \<Longrightarrow>
     (\<exists>e. r = Err e \<and> fr' = fr) \<or>
     (\<exists>b. r = Ok () \<and> to_vec js f = Some b \<and> length b \<le> MAX_FRAME_BYTES \<and>
        fr' = fr\<lparr>sent := sent fr @ [b]\<rparr>)"
  by (auto simp: send_frame_def split: option.splits if_splits)

lemma send_frame_sent:
  "sent (snd (send_frame js f fr)) = sent fr \<or>
     (\<exists>b. to_vec js f = Some b \<and> length b \<le> MAX_FRAME_BYTES \<and>
        sent (snd (send_frame js f fr)) = sent fr @ [b])"
  by (auto simp: send_frame_def split: option.splits)

lemma recv_frame_sent [simp]: "recv_frame js fr = (r, fr') \<Longrightarrow> sent fr' = sent fr"
  by (auto simp: recv_frame_def split: list.splits)

lemma recv_frame_fault [simp]: "recv_frame js fr = (r, fr') \<Longrightarrow> send_fault fr' = send_fault fr"
  by (auto simp: recv_frame_def split: list.splits)

lemma recv_frame_shorter:
  "recv_frame js fr = (r, fr') \<Longrightarrow> inbound fr \<noteq> [] \<Longrightarrow> length (inbound fr') < length (inbound fr)"
  by (auto simp: recv_frame_def split: list.splits)

lemma recv_frame_some:
  "recv_frame js fr = (Some (Ok (Some f)), fr') \<longleftrightarrow>
     (\<exists>b rest. inbound fr = Arrives b # rest \<and> from_slice js b = Some f \<and> fr' = fr\<lparr>inbound := rest\<rparr>)"
  by (auto simp: recv_frame_def split: list.splits arrival.splits option.splits)

end
