(* ===== verification/HandshakeProtocol.thy ===== *)
theory HandshakeProtocol
  imports Framing
begin

text \<open>
  The two sides of the handshake, \<open>handshake_client.rs\<close> and \<open>handshake_server.rs\<close> under
  \<open>toolkit/dovetail_privileged_channel/rust/src\<close>: the client says hello with its version, the
  server answers with the version both will speak or with a refusal, and every opening but a
  hello is answered with a refusal that names what was wrong.
\<close>

section \<open>The client\<close>

record ClientConfig =
  client_major :: u16
  client_minor :: u16
  config_client_version :: string

record ClientHandshakeResult =
  server_hello :: ServerHello
  client_negotiated_minor :: u16

definition client_hello_frame :: "ClientConfig \<Rightarrow> nonce \<Rightarrow> Hello" where
  "client_hello_frame config nonce =
     \<lparr>proto_major = client_major config, proto_minor = client_minor config,
      client_version = config_client_version config, hello_nonce = nonce\<rparr>"

definition client_judge :: "ClientConfig \<Rightarrow> ServerHello \<Rightarrow> channel_error + ClientHandshakeResult" where
  "client_judge config sh =
     (if \<not> accepted sh then Err (Handshake (Rejected (reject sh)))
      else if server_proto_major sh \<noteq> client_major config then
        Err (Handshake (VersionMismatch (client_major config) (server_proto_major sh)))
      else Ok \<lparr>server_hello = sh, client_negotiated_minor = server_proto_minor sh\<rparr>)"

definition client_handshake :: "('req, 'resp) serde \<Rightarrow> ClientConfig \<Rightarrow> nonce \<Rightarrow> framer \<Rightarrow>
    (channel_error + ClientHandshakeResult) \<times> framer" where
  "client_handshake js config nonce fr =
     (case send_frame js (FHello (client_hello_frame config nonce)) fr of
        (Err e, fr) \<Rightarrow> (Err e, fr)
      | (Ok _, fr) \<Rightarrow>
          (case recv_frame js fr of
             (None, fr) \<Rightarrow> (Err (Handshake TimedOut), fr)
           | (Some (Err e), fr) \<Rightarrow> (Err (Recv e), fr)
           | (Some (Ok None), fr) \<Rightarrow> (Err (Handshake StreamEnded), fr)
           | (Some (Ok (Some (FServerHello sh))), fr) \<Rightarrow> (client_judge config sh, fr)
           | (Some (Ok (Some other)), fr) \<Rightarrow>
               (Err (Handshake (UnexpectedFrame ''ServerHello'' (debug js other))), fr)))"

section \<open>The server\<close>

record ServerConfig =
  server_major :: u16
  server_minor :: u16
  config_helper_version :: string
  peer_check :: PeerCheck

record ServerHandshakeResult =
  result_accepted :: bool
  negotiated_minor :: u16
  client_hello :: Hello

definition unexpected :: "('req, 'resp) Frame \<Rightarrow> channel_error" where
  "unexpected frame = Handshake (UnexpectedFrame ''Hello'' (frame_name frame))"

definition hello_failure :: "channel_error \<Rightarrow> ErrorCode \<Rightarrow> string \<Rightarrow>
    (channel_error \<times> ErrorBody) + Hello" where
  "hello_failure e c m = Err (e, new_error_body c m)"

definition read_hello :: "('req, 'resp) serde \<Rightarrow> framer \<Rightarrow>
    ((channel_error \<times> ErrorBody) + Hello) \<times> framer" where
  "read_hello js fr =
     (let (next, fr) = recv_frame js fr
      in ((case next of
             None \<Rightarrow> hello_failure (Handshake TimedOut) handshake_required
                       ''handshake nao recebido dentro do prazo''
           | Some (Ok None) \<Rightarrow> hello_failure (Handshake StreamEnded) handshake_required
                       ''conexao fechada antes do handshake''
           | Some (Err (RecvIo e)) \<Rightarrow> hello_failure (Recv (RecvIo e)) handshake_required
                       ''conexao interrompida antes do handshake''
           | Some (Err TooLarge) \<Rightarrow> hello_failure (Recv TooLarge) frame_too_large
                       ''frame de handshake acima do teto''
           | Some (Err Malformed) \<Rightarrow> hello_failure (Recv Malformed) malformed_frame
                       ''frame de handshake malformado''
           | Some (Ok (Some (FHello hello))) \<Rightarrow> Ok hello
           | Some (Ok (Some (FRequest r))) \<Rightarrow> hello_failure (unexpected (FRequest r :: ('req, 'resp) Frame))
                       handshake_required ''Request recebido antes do Hello''
           | Some (Ok (Some other)) \<Rightarrow> hello_failure (unexpected other) malformed_frame
                       ''primeiro frame deve ser Hello''), fr))"

definition refusal_hello :: "ServerConfig \<Rightarrow> nonce \<Rightarrow> ErrorBody \<Rightarrow> ServerHello" where
  "refusal_hello config nonce why =
     \<lparr>accepted = False, server_proto_major = server_major config,
      server_proto_minor = server_minor config, helper_version = config_helper_version config,
      server_nonce = nonce, server_peer_check = peer_check config, reject = Some why\<rparr>"

definition version_refusal :: "ServerConfig \<Rightarrow> Hello \<Rightarrow> ErrorBody" where
  "version_refusal config hello =
     new_error_body version_unsupported
       (''protocolo major '' @ show_nat (unat (proto_major hello)) @ '' nao suportado (helper fala '' @
        show_nat (unat (server_major config)) @ '')'')"

definition answer_hello :: "ServerConfig \<Rightarrow> nonce \<Rightarrow> Hello \<Rightarrow> ServerHello" where
  "answer_hello config nonce hello =
     (let ok = proto_major hello = server_major config;
          negotiated = min (proto_minor hello) (server_minor config)
      in \<lparr>accepted = ok, server_proto_major = server_major config,
          server_proto_minor = (if ok then negotiated else server_minor config),
          helper_version = config_helper_version config, server_nonce = nonce,
          server_peer_check = peer_check config,
          reject = (if \<not> ok then Some (version_refusal config hello) else None)\<rparr>)"

definition server_handshake :: "('req, 'resp) serde \<Rightarrow> ServerConfig \<Rightarrow> nonce \<Rightarrow> framer \<Rightarrow>
    (channel_error + ServerHandshakeResult) \<times> framer" where
  "server_handshake js config nonce fr =
     (case read_hello js fr of
        (Err (e, why), fr) \<Rightarrow>
          (Err e, snd (send_frame js (FServerHello (refusal_hello config nonce why)) fr))
      | (Ok hello, fr) \<Rightarrow>
          (case send_frame js (FServerHello (answer_hello config nonce hello)) fr of
             (Err e, fr) \<Rightarrow> (Err e, fr)
           | (Ok _, fr) \<Rightarrow>
               (Ok \<lparr>result_accepted = (proto_major hello = server_major config),
                    negotiated_minor = min (proto_minor hello) (server_minor config),
                    client_hello = hello\<rparr>, fr)))"

section \<open>Lemmas\<close>

lemma read_hello_ok:
  "read_hello js fr = (Ok hello, fr') \<longleftrightarrow>
     (\<exists>b rest. inbound fr = Arrives b # rest \<and> from_slice js b = Some (FHello hello) \<and>
        fr' = fr\<lparr>inbound := rest\<rparr>)"
proof -
  have "read_hello js fr = (Ok hello, fr') \<longleftrightarrow> recv_frame js fr = (Some (Ok (Some (FHello hello))), fr')"
    by (auto simp: read_hello_def hello_failure_def Let_def
        split: prod.splits option.splits sum.splits RecvError.splits Frame.splits)
  then show ?thesis by (simp only: recv_frame_some)
qed

lemma read_hello_sent:
  "read_hello js fr = (r, fr') \<Longrightarrow> sent fr' = sent fr \<and> send_fault fr' = send_fault fr"
  by (auto simp: read_hello_def Let_def split: prod.splits)

lemma server_handshake_ok:
  "server_handshake js config nonce fr = (Ok shake, fr') \<longleftrightarrow>
     (\<exists>b rest hello. inbound fr = Arrives b # rest \<and> from_slice js b = Some (FHello hello) \<and>
        send_frame js (FServerHello (answer_hello config nonce hello)) (fr\<lparr>inbound := rest\<rparr>) = (Ok (), fr') \<and>
        shake = \<lparr>result_accepted = (proto_major hello = server_major config),
                 negotiated_minor = min (proto_minor hello) (server_minor config),
                 client_hello = hello\<rparr>)"
proof (cases "read_hello js fr")
  case (Pair r fr1)
  show ?thesis
  proof (cases r)
    case (Inl a)
    then have "\<nexists>b rest hello. inbound fr = Arrives b # rest \<and> from_slice js b = Some (FHello hello)"
      using Pair read_hello_ok [of js fr] by fastforce
    then show ?thesis using Pair Inl by (auto simp: server_handshake_def split: prod.splits)
  next
    case (Inr hello)
    then obtain b rest where "inbound fr = Arrives b # rest" "from_slice js b = Some (FHello hello)"
      "fr1 = fr\<lparr>inbound := rest\<rparr>"
      using Pair read_hello_ok by blast
    then show ?thesis
      using Pair Inr by (auto simp: server_handshake_def split: prod.splits sum.splits)
  qed
qed

lemma server_handshake_frames:
  assumes "server_handshake js config nonce fr = (r, fr')"
  shows "sent fr' = sent fr \<or>
     (\<exists>sh b. to_vec js (FServerHello sh) = Some b \<and> length b \<le> MAX_FRAME_BYTES \<and> sent fr' = sent fr @ [b])"
proof -
  obtain x fr1 where r: "read_hello js fr = (x, fr1)" by fastforce
  then have same: "sent fr1 = sent fr" using read_hello_sent by blast
  have "\<exists>sh. fr' = snd (send_frame js (FServerHello sh) fr1)"
    using assms r by (auto simp: server_handshake_def split: sum.splits prod.splits) (metis snd_conv)+
  then obtain sh where "fr' = snd (send_frame js (FServerHello sh) fr1)" by blast
  then show ?thesis using send_frame_sent [of js "FServerHello sh" fr1] same by auto
qed

section \<open>Properties\<close>

text \<open>
  C15: the two sides agree.  When the client's hello reaches the server and the server's answer
  reaches the client, both go through exactly when they speak the same major version; then both
  hold the smaller of the two minor versions, and the client knows the peer check the server
  made.  Otherwise the server knows it refused, and the client holds the refusal, which names the
  version.
\<close>

theorem handshake_agreement:
  assumes hello: "fits js (FHello (client_hello_frame c nc))"
    and reply: "fits js (FServerHello (answer_hello s ns (client_hello_frame c nc)))"
    and wires: "reliable srv" "reliable cli"
    and arrives: "inbound srv = map Arrives (drop (length (sent cli)) (sent (snd (send_frame js
      (FHello (client_hello_frame c nc)) cli)))) @ rest"
    and server: "server_handshake js s ns srv = (rs, srv')"
    and answered: "inbound cli = map Arrives (drop (length (sent srv)) (sent srv')) @ rest'"
    and client: "client_handshake js c nc cli = (rc, cli')"
  shows "if client_major c = server_major s
    then (\<exists>shake res. rs = Ok shake \<and> rc = Ok res \<and> result_accepted shake \<and>
      negotiated_minor shake = min (client_minor c) (server_minor s) \<and>
      client_negotiated_minor res = min (client_minor c) (server_minor s) \<and>
      client_hello shake = client_hello_frame c nc \<and>
      server_peer_check (server_hello res) = peer_check s \<and> server_nonce (server_hello res) = ns)
    else (\<exists>shake why. rs = Ok shake \<and> \<not> result_accepted shake \<and>
      rc = Err (Handshake (Rejected (Some why))) \<and> code why = version_unsupported)"
proof -
  define h where "h = client_hello_frame c nc"
  obtain hb where hb: "to_vec js (FHello h) = Some hb" "from_slice js hb = Some (FHello h)"
    using hello by (auto simp: fits_def h_def split: option.splits)
  obtain ab where ab: "to_vec js (FServerHello (answer_hello s ns h)) = Some ab"
    "from_slice js ab = Some (FServerHello (answer_hello s ns h))"
    using reply by (auto simp: fits_def h_def split: option.splits)
  have in_srv: "inbound srv = Arrives hb # rest"
    using arrives send_frame_fits [OF hello wires(2)] hb by (simp add: h_def)
  have rs: "rs = Ok \<lparr>result_accepted = (proto_major h = server_major s),
      negotiated_minor = min (proto_minor h) (server_minor s), client_hello = h\<rparr>"
    and srv': "sent srv' = sent srv @ [ab]"
  proof -
    have "reliable (srv\<lparr>inbound := rest\<rparr>)" using wires(1) by (simp add: reliable_def)
    note ok = send_frame_fits [OF reply this]
    have "read_hello js srv = (Ok h, srv\<lparr>inbound := rest\<rparr>)"
      using in_srv hb(2) by (simp add: read_hello_ok)
    then have "server_handshake js s ns srv =
        (Ok \<lparr>result_accepted = (proto_major h = server_major s),
             negotiated_minor = min (proto_minor h) (server_minor s), client_hello = h\<rparr>,
         srv\<lparr>inbound := rest, sent := sent srv @ [ab]\<rparr>)"
      using ok ab(1) by (simp add: server_handshake_def h_def)
    with server show "rs = Ok \<lparr>result_accepted = (proto_major h = server_major s),
        negotiated_minor = min (proto_minor h) (server_minor s), client_hello = h\<rparr>"
      and "sent srv' = sent srv @ [ab]" by auto
  qed
  have in_cli: "inbound cli = Arrives ab # rest'" using answered srv' by simp
  have "rc = client_judge c (answer_hello s ns h)"
    using client send_frame_fits [OF hello wires(2)] in_cli ab(2)
    by (auto simp: client_handshake_def recv_frame_def h_def)
  then show ?thesis
    using rs by (simp add: client_judge_def answer_hello_def h_def client_hello_frame_def Let_def
        version_refusal_def new_error_body_def)
qed

text \<open>Frames as one byte strings, for examples.\<close>

definition example_serde :: "('req, 'resp) Frame \<Rightarrow> ('req, 'resp) Frame \<Rightarrow> ('req, 'resp) serde" where
  "example_serde f g =
     \<lparr>to_vec = (\<lambda>x. if x = f then Some [1] else if x = g then Some [2] else Some [3]),
      from_slice = (\<lambda>b. if b = [1] then Some f else if b = [2] then Some g else None),
      debug = frame_name\<rparr>"

definition fresh_framer :: "arrival list \<Rightarrow> framer" where
  "fresh_framer as = \<lparr>inbound = as, sent = [], send_fault = (\<lambda>n. None)\<rparr>"

lemma reliable_fresh [simp]: "reliable (fresh_framer as)"
  by (simp add: reliable_def fresh_framer_def)

lemma fits_example [simp]:
  "fits (example_serde f g) f" "f \<noteq> g \<Longrightarrow> fits (example_serde f g) g"
  by (auto simp: fits_def example_serde_def MAX_FRAME_BYTES_def)

fun opening_refusal :: "('req, 'resp) serde \<Rightarrow> arrival \<Rightarrow> ErrorBody" where
  "opening_refusal js (Arrives b) =
     (case from_slice js b of
        None \<Rightarrow> new_error_body malformed_frame ''frame de handshake malformado''
      | Some (FRequest _) \<Rightarrow> new_error_body handshake_required ''Request recebido antes do Hello''
      | Some _ \<Rightarrow> new_error_body malformed_frame ''primeiro frame deve ser Hello'')"
| "opening_refusal js OverLimit = new_error_body frame_too_large ''frame de handshake acima do teto''"
| "opening_refusal js (Breaks _) =
     new_error_body handshake_required ''conexao interrompida antes do handshake''"
| "opening_refusal js Ends = new_error_body handshake_required ''conexao fechada antes do handshake''"
| "opening_refusal js Silent =
     new_error_body handshake_required ''handshake nao recebido dentro do prazo''"

lemma opening_refused:
  assumes "inbound fr = a # rest" and "\<nexists>b hello. a = Arrives b \<and> from_slice js b = Some (FHello hello)"
    and "reliable fr"
    and "fits js (FServerHello (refusal_hello config nonce (opening_refusal js a)))"
  shows "(\<exists>e. fst (server_handshake js config nonce fr) = Err e) \<and>
    sent (snd (server_handshake js config nonce fr)) =
      sent fr @ [the (to_vec js (FServerHello (refusal_hello config nonce (opening_refusal js a))))]"
proof -
  have "\<exists>e. read_hello js fr = (Err (e, opening_refusal js a), fr\<lparr>inbound := rest\<rparr>)"
    using assms(1,2)
    by (cases a) (auto simp: read_hello_def recv_frame_def hello_failure_def
        split: option.splits Frame.splits)
  then obtain e where r: "read_hello js fr = (Err (e, opening_refusal js a), fr\<lparr>inbound := rest\<rparr>)"
    by blast
  have "reliable (fr\<lparr>inbound := rest\<rparr>)" using assms(3) by (simp add: reliable_def)
  from send_frame_fits [OF assms(4) this] r show ?thesis
    by (auto simp: server_handshake_def)
qed


text \<open>A client and a server for examples.\<close>

definition example_client :: "u16 \<Rightarrow> u16 \<Rightarrow> ClientConfig" where
  "example_client a b = \<lparr>client_major = a, client_minor = b, config_client_version = ''0.1.0''\<rparr>"

definition example_server :: ServerConfig where
  "example_server = \<lparr>server_major = PROTOCOL_MAJOR, server_minor = PROTOCOL_MINOR,
     config_helper_version = ''9.9.9'',
     peer_check = \<lparr>check_method = ''peercred'', check_subject = ''uid=0''\<rparr>\<rparr>"

definition example_exchange :: "ClientConfig \<Rightarrow> (unit, unit) serde" where
  "example_exchange c = example_serde (FHello (client_hello_frame c []))
     (FServerHello (answer_hello example_server [] (client_hello_frame c [])))"


theorem handshake_agreement_witness:
  "let c = example_client 1 3; js = example_exchange c;
       srv = fresh_framer [Arrives [1]]; cli = fresh_framer [Arrives [2]];
       rs = fst (server_handshake js example_server [] srv);
       rc = fst (client_handshake js c [] cli)
   in if client_major c = server_major example_server
    then (\<exists>shake res. rs = Ok shake \<and> rc = Ok res \<and> result_accepted shake \<and>
      negotiated_minor shake = min (client_minor c) (server_minor example_server) \<and>
      client_negotiated_minor res = min (client_minor c) (server_minor example_server) \<and>
      client_hello shake = client_hello_frame c [] \<and>
      server_peer_check (server_hello res) = peer_check example_server \<and>
      server_nonce (server_hello res) = [])
    else (\<exists>shake why. rs = Ok shake \<and> \<not> result_accepted shake \<and>
      rc = Err (Handshake (Rejected (Some why))) \<and> code why = version_unsupported)"
proof -
  define c where "c = example_client 1 3"
  define js where "js = example_exchange c"
  have ne: "FHello x \<noteq> (FServerHello y :: (unit, unit) Frame)" for x y by simp
  have f: "fits js (FHello (client_hello_frame c []))"
    "fits js (FServerHello (answer_hello example_server [] (client_hello_frame c [])))"
    by (simp_all add: js_def example_exchange_def ne)
  have v: "to_vec js (FHello (client_hello_frame c [])) = Some [1]"
    "to_vec js (FServerHello (answer_hello example_server [] (client_hello_frame c []))) = Some [2]"
    "from_slice js [1] = Some (FHello (client_hello_frame c []))"
    by (simp_all add: js_def example_exchange_def example_serde_def)
  have one: "sent (snd (server_handshake js example_server [] (fresh_framer [Arrives [1]]))) = [[2]]"
    using v by (simp add: server_handshake_def read_hello_def recv_frame_def fresh_framer_def
        send_frame_def MAX_FRAME_BYTES_def)
  show ?thesis
    unfolding Let_def c_def [symmetric] js_def [symmetric]
    by (rule handshake_agreement [where rest = "[]" and rest' = "[]"
          and srv' = "snd (server_handshake js example_server [] (fresh_framer [Arrives [1]]))"
          and cli' = "snd (client_handshake js c [] (fresh_framer [Arrives [2]]))",
          OF f reliable_fresh reliable_fresh])
      (use v one in \<open>simp_all add: fresh_framer_def send_frame_def MAX_FRAME_BYTES_def\<close>)
qed

end
