(* ===== verification/Connection.thy ===== *)
theory Connection
  imports HandshakeProtocol
begin

text \<open>
  One connection of the daemon, \<open>toolkit/dovetail_privileged_daemon/rust/src/connection.rs\<close>: the
  handshake, then requests answered one by one until the client stops, breaks the protocol or
  falls silent.  This is the connection by itself, each of its writes at its end; \<open>Daemon\<close> has the
  same task among others, with the turns in which it waits, its writes included.
\<close>

section \<open>The application\<close>

text \<open>
  The daemon's application is the implementor's: what it makes of a command, with a state it may
  keep.  \<open>dispatch\<close> gets the time it is given and answers \<open>None\<close> when it takes longer; what it
  did to the state by then stays.
\<close>

record ('s, 'cmd, 'rep) app =
  validate :: "'cmd \<Rightarrow> string + unit"
  command_timeout :: "'cmd \<Rightarrow> nat"
  dispatch :: "'s \<Rightarrow> 'cmd \<Rightarrow> nat \<Rightarrow> 'rep RespPayload option \<times> 's"

definition timeout_payload :: "'rep RespPayload" where
  "timeout_payload = erro timeout_code ''comando excedeu o tempo limite'' True"

text \<open>
  One request: the payload of its response, the state afterwards, and whether the command was
  dispatched.
\<close>

definition answer_request :: "('s, 'cmd, 'rep) app \<Rightarrow> 's \<Rightarrow> 'cmd \<Rightarrow> 'rep RespPayload \<times> 's \<times> 'cmd list" where
  "answer_request app s cmd =
     (case validate app cmd of
        Inl msg \<Rightarrow> (erro invalid_params msg False, s, [])
      | Inr _ \<Rightarrow>
          (case dispatch app s cmd (command_timeout app cmd) of
             (Some payload, s') \<Rightarrow> (payload, s', [cmd])
           | (None, s') \<Rightarrow> (timeout_payload, s', [cmd])))"

section \<open>The loop\<close>

text \<open>
  What the loop leaves: its result, the framer, the application's state, and the commands it
  dispatched, in order.
\<close>

type_synonym ('s, 'cmd) served_conn = "(channel_error + unit) \<times> framer \<times> 's \<times> 'cmd list"

lemma recv_request_shorter:
  "(Some (Ok (Some f)), fr') = recv_frame js fr \<Longrightarrow> length (inbound fr') < length (inbound fr)"
  using recv_frame_some [of js fr f fr'] by auto

lemma send_frame_inbound: "(r, fr') = send_frame js f fr \<Longrightarrow> inbound fr' = inbound fr"
  using send_frame_cases [of js f fr r fr'] by auto

function serve_requests :: "('cmd, 'rep) serde \<Rightarrow> ('s, 'cmd, 'rep) app \<Rightarrow> 's \<Rightarrow> framer \<Rightarrow>
    ('s, 'cmd) served_conn" where
  "serve_requests js app s fr =
     (case recv_frame js fr of
        (Some (Ok (Some (FRequest req))), fr1) \<Rightarrow>
          (let (payload, s1, cmds) = answer_request app s (req_cmd req)
           in case send_frame js (FResponse \<lparr>resp_id = req_id req, resp_payload = payload\<rparr>) fr1 of
                (Err e, fr2) \<Rightarrow> (Err e, fr2, s1, cmds)
              | (Ok _, fr2) \<Rightarrow>
                  (let (r, fr3, s2, cmds') = serve_requests js app s1 fr2
                   in (r, fr3, s2, cmds @ cmds')))
      | (_, fr1) \<Rightarrow> (Ok (), fr1, s, []))"
  by pat_completeness auto
termination
  by (relation "measure (\<lambda>(js, app, s, fr). length (inbound fr))")
    (auto dest!: recv_request_shorter send_frame_inbound)

declare serve_requests.simps [simp del]

definition handle_conn_with_nonce :: "('cmd, 'rep) serde \<Rightarrow> ('s, 'cmd, 'rep) app \<Rightarrow> string \<Rightarrow>
    PeerCheck \<Rightarrow> nonce \<Rightarrow> 's \<Rightarrow> framer \<Rightarrow> ('s, 'cmd) served_conn" where
  "handle_conn_with_nonce js app version peer nonce s fr =
     (let config = \<lparr>server_major = PROTOCOL_MAJOR, server_minor = PROTOCOL_MINOR,
                    config_helper_version = version, peer_check = peer\<rparr>
      in case server_handshake js config nonce fr of
           (Err e, fr1) \<Rightarrow> (Err e, fr1, s, [])
         | (Ok shake, fr1) \<Rightarrow>
             if \<not> result_accepted shake then (Ok (), fr1, s, [])
             else serve_requests js app s fr1)"

definition handle_conn_with_generator :: "('cmd, 'rep) serde \<Rightarrow> ('s, 'cmd, 'rep) app \<Rightarrow> string \<Rightarrow>
    PeerCheck \<Rightarrow> io_error + nonce \<Rightarrow> 's \<Rightarrow> framer \<Rightarrow> ('s, 'cmd) served_conn" where
  "handle_conn_with_generator js app version peer generator s fr =
     (case generator of
        Inl e \<Rightarrow> (Err (Generator e), fr, s, [])
      | Inr nonce \<Rightarrow> handle_conn_with_nonce js app version peer nonce s fr)"

definition handle_conn :: "('cmd, 'rep) serde \<Rightarrow> ('s, 'cmd, 'rep) app \<Rightarrow> string \<Rightarrow> PeerCheck \<Rightarrow>
    (string \<Rightarrow> io_error + bytes) \<Rightarrow> 's \<Rightarrow> framer \<Rightarrow> ('s, 'cmd) served_conn" where
  "handle_conn js app version peer open_file s fr =
     handle_conn_with_generator js app version peer (random_nonce open_file) s fr"

section \<open>Lemmas\<close>

lemma serve_requests_request:
  assumes "inbound fr = Arrives b # rest" and "from_slice js b = Some (FRequest req)"
  shows "serve_requests js app s fr =
    (let (payload, s1, cmds) = answer_request app s (req_cmd req)
     in case send_frame js (FResponse \<lparr>resp_id = req_id req, resp_payload = payload\<rparr>)
               (fr\<lparr>inbound := rest\<rparr>) of
          (Err e, fr2) \<Rightarrow> (Err e, fr2, s1, cmds)
        | (Ok _, fr2) \<Rightarrow>
            (let (r, fr3, s2, cmds') = serve_requests js app s1 fr2 in (r, fr3, s2, cmds @ cmds')))"
  using assms by (subst serve_requests.simps) (simp add: recv_frame_def)

text \<open>What stops the loop: anything but a request.\<close>

fun is_request :: "('cmd, 'rep) serde \<Rightarrow> arrival \<Rightarrow> bool" where
  "is_request js (Arrives b) =
     (case from_slice js b of Some (FRequest _) \<Rightarrow> True | _ \<Rightarrow> False)"
| "is_request js _ = False"

fun request_of :: "('cmd, 'rep) serde \<Rightarrow> arrival \<Rightarrow> 'cmd Request" where
  "request_of js (Arrives b) =
     (case from_slice js b of Some (FRequest r) \<Rightarrow> r | _ \<Rightarrow> undefined)"
| "request_of js _ = undefined"

lemma is_request_iff:
  "is_request js a \<longleftrightarrow> (\<exists>b req. a = Arrives b \<and> from_slice js b = Some (FRequest req) \<and> request_of js a = req)"
  by (cases a) (auto split: option.splits Frame.splits)

lemma serve_requests_stop:
  "inbound fr = [] \<or> \<not> is_request js (hd (inbound fr)) \<Longrightarrow>
     serve_requests js app s fr = (Ok (), snd (recv_frame js fr), s, [])"
proof (subst serve_requests.simps, cases "inbound fr")
  case (Cons a rest)
  assume "inbound fr = [] \<or> \<not> is_request js (hd (inbound fr))"
  with Cons show "(case recv_frame js fr of
        (Some (Ok (Some (FRequest req))), fr1) \<Rightarrow>
          (let (payload, s1, cmds) = answer_request app s (req_cmd req)
           in case send_frame js (FResponse \<lparr>resp_id = req_id req, resp_payload = payload\<rparr>) fr1 of
                (Err e, fr2) \<Rightarrow> (Err e, fr2, s1, cmds)
              | (Ok _, fr2) \<Rightarrow>
                  (let (r, fr3, s2, cmds') = serve_requests js app s1 fr2
                   in (r, fr3, s2, cmds @ cmds')))
      | (_, fr1) \<Rightarrow> (Ok (), fr1, s, [])) = (Ok (), snd (recv_frame js fr), s, [])"
    by (cases a) (auto simp: recv_frame_def split: option.splits Frame.splits)
qed (simp add: recv_frame_def)

section \<open>The contract of a connection\<close>

text \<open>
  What a connection promises, without frames: each request in turn is answered under its own
  number.
\<close>

fun responses :: "('s, 'cmd, 'rep) app \<Rightarrow> 's \<Rightarrow> 'cmd Request list \<Rightarrow> 'rep Response list" where
  "responses app s [] = []"
| "responses app s (req # reqs) =
     (case answer_request app s (req_cmd req) of
        (payload, s', _) \<Rightarrow> \<lparr>resp_id = req_id req, resp_payload = payload\<rparr> # responses app s' reqs)"

fun state_after :: "('s, 'cmd, 'rep) app \<Rightarrow> 's \<Rightarrow> 'cmd Request list \<Rightarrow> 's" where
  "state_after app s [] = s"
| "state_after app s (req # reqs) = state_after app (fst (snd (answer_request app s (req_cmd req)))) reqs"

definition valid_cmds :: "('s, 'cmd, 'rep) app \<Rightarrow> 'cmd Request list \<Rightarrow> 'cmd list" where
  "valid_cmds app reqs = filter (\<lambda>c. is_ok (validate app c)) (map req_cmd reqs)"

lemma answer_request_ran:
  "snd (snd (answer_request app s cmd)) = (if is_ok (validate app cmd) then [cmd] else [])"
  by (auto simp: answer_request_def split: sum.splits prod.splits option.splits)

lemma serve_requests_contract:
  assumes "reliable fr" and "inbound fr = as"
    and "list_all (\<lambda>r. fits js (FResponse r)) (responses app s (map (request_of js) (takeWhile (is_request js) as)))"
  shows "\<exists>fr'. serve_requests js app s fr =
     (Ok (), fr', state_after app s (map (request_of js) (takeWhile (is_request js) as)),
      valid_cmds app (map (request_of js) (takeWhile (is_request js) as))) \<and>
     sent fr' = sent fr @ map (\<lambda>r. the (to_vec js (FResponse r)))
       (responses app s (map (request_of js) (takeWhile (is_request js) as)))"
  using assms
proof (induction as arbitrary: s fr)
  case Nil
  then show ?case by (simp add: serve_requests_stop recv_frame_def valid_cmds_def)
next
  case (Cons a as)
  show ?case
  proof (cases "is_request js a")
    case False
    then show ?thesis using Cons.prems by (simp add: serve_requests_stop recv_frame_def valid_cmds_def)
  next
    case True
    then obtain b req where a: "a = Arrives b" "from_slice js b = Some (FRequest req)" "request_of js a = req"
      unfolding is_request_iff by blast
    obtain payload s1 cmds where ans: "answer_request app s (req_cmd req) = (payload, s1, cmds)"
      by (cases "answer_request app s (req_cmd req)")
    then have cmds: "cmds = (if is_ok (validate app (req_cmd req)) then [req_cmd req] else [])"
      using answer_request_ran [of app s "req_cmd req"] by simp
    define resp where "resp = \<lparr>resp_id = req_id req, resp_payload = payload\<rparr>"
    have fit: "fits js (FResponse resp)" and fits: "list_all (\<lambda>r. fits js (FResponse r))
        (responses app s1 (map (request_of js) (takeWhile (is_request js) as)))"
      using Cons.prems(3) True a(3) ans by (simp_all add: resp_def)
    define fr2 where "fr2 = fr\<lparr>inbound := as, sent := sent fr @ [the (to_vec js (FResponse resp))]\<rparr>"
    have "reliable (fr\<lparr>inbound := as\<rparr>)" using Cons.prems(1) by (simp add: reliable_def)
    from send_frame_fits [OF fit this]
    have send: "send_frame js (FResponse resp) (fr\<lparr>inbound := as\<rparr>) = (Ok (), fr2)"
      by (simp add: fr2_def)
    have "reliable fr2" "inbound fr2 = as" using Cons.prems(1) by (simp_all add: fr2_def reliable_def)
    from Cons.IH [OF this fits] obtain fr' where "serve_requests js app s1 fr2 =
        (Ok (), fr', state_after app s1 (map (request_of js) (takeWhile (is_request js) as)),
         valid_cmds app (map (request_of js) (takeWhile (is_request js) as)))"
      "sent fr' = sent fr2 @ map (\<lambda>r. the (to_vec js (FResponse r)))
         (responses app s1 (map (request_of js) (takeWhile (is_request js) as)))"
      by blast
    then show ?thesis
      using serve_requests_request [of fr b as js req app s] Cons.prems(2) a ans send True cmds
      by (simp add: resp_def fr2_def valid_cmds_def)
  qed
qed

text \<open>One round of the loop, from what the whole loop did.\<close>

lemma serve_requests_round:
  assumes "serve_requests js app s fr = (r, fr', s', cmds)" and "inbound fr = a # as" and "is_request js a"
  obtains e payload where "r = Err e" "fr' = fr\<lparr>inbound := as\<rparr>"
      "answer_request app s (req_cmd (request_of js a)) = (payload, s', cmds)"
  | payload s1 cmds1 cmds2 bs where
      "answer_request app s (req_cmd (request_of js a)) = (payload, s1, cmds1)" "cmds = cmds1 @ cmds2"
      "to_vec js (FResponse \<lparr>resp_id = req_id (request_of js a), resp_payload = payload\<rparr>) = Some bs"
      "length bs \<le> MAX_FRAME_BYTES"
      "serve_requests js app s1 (fr\<lparr>inbound := as, sent := sent fr @ [bs]\<rparr>) = (r, fr', s', cmds2)"
proof -
  obtain b req where a: "a = Arrives b" "from_slice js b = Some (FRequest req)" "request_of js a = req"
    using assms(3) unfolding is_request_iff by blast
  obtain payload s1 cmds1 where ans: "answer_request app s (req_cmd req) = (payload, s1, cmds1)"
    by (cases "answer_request app s (req_cmd req)")
  let ?resp = "FResponse \<lparr>resp_id = req_id req, resp_payload = payload\<rparr>"
  obtain x fr2 where send: "send_frame js ?resp (fr\<lparr>inbound := as\<rparr>) = (x, fr2)" by fastforce
  have eq: "(r, fr', s', cmds) = (case x of
        Inl e \<Rightarrow> (Err e, fr2, s1, cmds1)
      | Inr _ \<Rightarrow> (let (r, fr3, s2, cmds') = serve_requests js app s1 fr2 in (r, fr3, s2, cmds1 @ cmds')))"
    using serve_requests_request [of fr b as js req app s] assms(1,2) a ans send by (simp split: sum.splits)
  from send_frame_cases [OF send] show thesis
  proof (elim disjE exE conjE)
    fix e assume "x = Err e" "fr2 = fr\<lparr>inbound := as\<rparr>"
    then show thesis using that(1) eq ans a(3) by simp
  next
    fix bs assume "x = Ok ()" "to_vec js ?resp = Some bs" "length bs \<le> MAX_FRAME_BYTES"
      "fr2 = fr\<lparr>inbound := as, sent := sent (fr\<lparr>inbound := as\<rparr>) @ [bs]\<rparr>"
    then show thesis using that(2) eq ans a(3) by (simp split: prod.splits)
  qed
qed

lemma serve_requests_prefix:
  "serve_requests js app s fr = (r, fr', s', cmds) \<Longrightarrow> inbound fr = as \<Longrightarrow>
     (\<exists>ys. valid_cmds app (map (request_of js) (takeWhile (is_request js) as)) = cmds @ ys) \<and>
     (\<exists>bs. sent fr' = sent fr @ bs \<and> (\<forall>b\<in>set bs. length b \<le> MAX_FRAME_BYTES))"
proof (induction as arbitrary: s fr r fr' s' cmds)
  case Nil
  then show ?case by (auto simp: serve_requests_stop recv_frame_def)
next
  case (Cons a as)
  show ?case
  proof (cases "is_request js a")
    case False
    then show ?thesis using Cons.prems by (auto simp: serve_requests_stop recv_frame_def)
  next
    case True
    let ?cmd = "req_cmd (request_of js a)"
    have valid: "valid_cmds app (map (request_of js) (takeWhile (is_request js) (a # as))) =
        snd (snd (answer_request app s ?cmd)) @ valid_cmds app (map (request_of js) (takeWhile (is_request js) as))"
      using True by (simp add: valid_cmds_def answer_request_ran)
    from Cons.prems True show ?thesis
    proof (cases rule: serve_requests_round)
      case (2 payload s1 cmds1 cmds2 bs)
      from Cons.IH [OF 2(5)] obtain ys cs
        where "valid_cmds app (map (request_of js) (takeWhile (is_request js) as)) = cmds2 @ ys"
          "sent fr' = (sent fr @ [bs]) @ cs" "\<forall>b\<in>set cs. length b \<le> MAX_FRAME_BYTES" by auto
      then show ?thesis using valid 2(1,2,4) by auto
    qed (use valid in auto)
  qed
qed

text \<open>A loop that ends well has read its requests and what stopped it.\<close>

lemma serve_requests_reads:
  "serve_requests js app s fr = (Ok (), fr', s', cmds) \<Longrightarrow>
     inbound fr' = tl (dropWhile (is_request js) (inbound fr))"
proof (induction "inbound fr" arbitrary: s fr cmds)
  case Nil
  then show ?case by (auto simp: serve_requests_stop recv_frame_def)
next
  case (Cons a as)
  show ?case
  proof (cases "is_request js a")
    case False
    then show ?thesis using Cons.prems Cons.hyps(2) [symmetric] by (auto simp: serve_requests_stop recv_frame_def)
  next
    case True
    from Cons.prems Cons.hyps(2) [symmetric] True show ?thesis
    proof (cases rule: serve_requests_round)
      case (2 payload s1 cmds1 cmds2 bs)
      then show ?thesis using Cons.hyps(1) [OF _ 2(5)] Cons.hyps(2) [symmetric] True by simp
    qed simp
  qed
qed

definition conn_config :: "string \<Rightarrow> PeerCheck \<Rightarrow> ServerConfig" where
  "conn_config version peer =
     \<lparr>server_major = PROTOCOL_MAJOR, server_minor = PROTOCOL_MINOR,
      config_helper_version = version, peer_check = peer\<rparr>"

lemma conn_cases:
  assumes "handle_conn_with_generator js app version peer generator s fr = (r, fr', s', cmds)"
  obtains "fr' = fr" "cmds = []" "s' = s"
  | nonce e where "server_handshake js (conn_config version peer) nonce fr = (Err e, fr')" "cmds = []" "s' = s"
  | nonce shake where "server_handshake js (conn_config version peer) nonce fr = (Ok shake, fr')"
      "cmds = []" "s' = s"
  | nonce shake fr1 where "server_handshake js (conn_config version peer) nonce fr = (Ok shake, fr1)"
      "result_accepted shake" "serve_requests js app s fr1 = (r, fr', s', cmds)"
  using assms
  by (auto simp: handle_conn_with_generator_def handle_conn_with_nonce_def Let_def
      conn_config_def [symmetric] split: sum.splits prod.splits if_splits)

lemma handle_conn_contract:
  fixes js :: "('cmd, 'rep) serde"
  assumes first: "inbound fr = Arrives b # rest" "from_slice js b = Some (FHello hello)"
    "proto_major hello = PROTOCOL_MAJOR"
    and nonce: "random_nonce open_file = Ok nonce" and wire: "reliable fr"
    and reqs: "reqs = map (request_of js) (takeWhile (is_request js) rest)"
    and greets: "fits js (FServerHello (answer_hello (conn_config version peer) nonce hello))"
    and answers: "list_all (\<lambda>r. fits js (FResponse r)) (responses app s reqs)"
  shows "\<exists>fr'. handle_conn js app version peer open_file s fr =
      (Ok (), fr', state_after app s reqs, valid_cmds app reqs) \<and>
    sent fr' = sent fr @
      the (to_vec js (FServerHello (answer_hello (conn_config version peer) nonce hello))) #
      map (\<lambda>r. the (to_vec js (FResponse r))) (responses app s reqs)"
proof -
  define greeting :: "('cmd, 'rep) Frame" where "greeting = FServerHello (answer_hello (conn_config version peer) nonce hello)"
  define fr1 where "fr1 = fr\<lparr>inbound := rest, sent := sent fr @ [the (to_vec js greeting)]\<rparr>"
  have "reliable (fr\<lparr>inbound := rest\<rparr>)" using wire by (simp add: reliable_def)
  from send_frame_fits [OF greets this]
  have "send_frame js greeting (fr\<lparr>inbound := rest\<rparr>) = (Ok (), fr1)"
    by (simp add: greeting_def fr1_def)
  then have shake: "server_handshake js (conn_config version peer) nonce fr =
      (Ok \<lparr>result_accepted = True, negotiated_minor = min (proto_minor hello) PROTOCOL_MINOR,
           client_hello = hello\<rparr>, fr1)"
    unfolding server_handshake_ok using first by (auto simp: greeting_def conn_config_def)
  have "reliable fr1" "inbound fr1 = rest" using wire by (simp_all add: fr1_def reliable_def)
  from serve_requests_contract [OF this answers [unfolded reqs]] obtain fr' where
    "serve_requests js app s fr1 = (Ok (), fr', state_after app s reqs, valid_cmds app reqs)"
    "sent fr' = sent fr1 @ map (\<lambda>r. the (to_vec js (FResponse r))) (responses app s reqs)"
    unfolding reqs by blast
  then show ?thesis
    using shake nonce
    by (simp add: handle_conn_def handle_conn_with_generator_def handle_conn_with_nonce_def Let_def
        conn_config_def [symmetric] fr1_def greeting_def)
qed

lemma handle_conn_reads:
  assumes "handle_conn_with_generator js app version peer generator s fr = (Ok (), fr', s', cmds)"
    and "inbound fr = Arrives b # rest" and "from_slice js b = Some (FHello hello)" and "proto_major hello = PROTOCOL_MAJOR"
    and "generator = Inr nonce"
  shows "inbound fr' = tl (dropWhile (is_request js) rest)"
  using assms
  by (auto simp: handle_conn_with_generator_def handle_conn_with_nonce_def Let_def server_handshake_ok
      split: prod.splits sum.splits if_splits dest!: serve_requests_reads send_frame_inbound [OF sym])

lemma conn_dispatches:
  assumes "handle_conn_with_generator js app version peer generator s fr = (r, fr', s', cmds)"
  shows "(cmds \<noteq> [] \<longrightarrow> (\<exists>b hello rest ys. inbound fr = Arrives b # rest \<and>
      from_slice js b = Some (FHello hello) \<and> proto_major hello = PROTOCOL_MAJOR \<and>
      cmds @ ys = valid_cmds app (map (request_of js) (takeWhile (is_request js) rest)))) \<and>
    (\<exists>bs. sent fr' = sent fr @ bs \<and> (\<forall>b\<in>set bs. length b \<le> MAX_FRAME_BYTES))"
  using assms
proof (cases rule: conn_cases)
  case (4 nonce shake fr1)
  from 4(1) obtain b rest hello where h: "inbound fr = Arrives b # rest" "from_slice js b = Some (FHello hello)"
    and send: "send_frame js (FServerHello (answer_hello (conn_config version peer) nonce hello))
        (fr\<lparr>inbound := rest\<rparr>) = (Ok (), fr1)"
    and "result_accepted shake = (proto_major hello = PROTOCOL_MAJOR)"
    unfolding server_handshake_ok by (auto simp: conn_config_def)
  then have major: "proto_major hello = PROTOCOL_MAJOR" using 4(2) by simp
  from send_frame_cases [OF send] obtain c where c: "length c \<le> MAX_FRAME_BYTES"
    "fr1 = fr\<lparr>inbound := rest, sent := sent fr @ [c]\<rparr>" by auto
  then have "inbound fr1 = rest" by simp
  from serve_requests_prefix [OF 4(3) this] obtain ys bs
    where "valid_cmds app (map (request_of js) (takeWhile (is_request js) rest)) = cmds @ ys"
      "sent fr' = sent fr1 @ bs" "\<forall>b\<in>set bs. length b \<le> MAX_FRAME_BYTES" by blast
  then show ?thesis using h major c by (auto intro!: exI [of _ "c # bs"])
qed (auto dest!: server_handshake_frames)

lemmas handle_conn_dispatches = conn_dispatches [where generator = "random_nonce open_file" for open_file,
    folded handle_conn_def]

text \<open>The frames a connection writes, by their type.\<close>

definition wire :: "('cmd, 'rep) serde \<Rightarrow> ('cmd, 'rep) Frame list \<Rightarrow> bytes list" where
  "wire js fs = map (\<lambda>f. the (to_vec js f)) fs"

definition serializes :: "('cmd, 'rep) serde \<Rightarrow> ('cmd, 'rep) Frame list \<Rightarrow> bool" where
  "serializes js fs \<longleftrightarrow> list_all (\<lambda>f. to_vec js f \<noteq> None) fs"

lemma serve_requests_frames:
  "serve_requests js app s fr = (r, fr', s', cmds) \<Longrightarrow> inbound fr = as \<Longrightarrow>
     \<exists>rs ys. sent fr' = sent fr @ wire js (map FResponse rs) \<and> serializes js (map FResponse rs) \<and>
       map resp_id rs @ ys = map (\<lambda>a. req_id (request_of js a)) (takeWhile (is_request js) as)"
proof (induction as arbitrary: s fr r fr' s' cmds)
  case Nil
  then show ?case
    by (intro exI [of _ "[]"]) (auto simp: serve_requests_stop recv_frame_def wire_def serializes_def)
next
  case (Cons a as)
  show ?case
  proof (cases "is_request js a")
    case False
    then show ?thesis using Cons.prems
      by (intro exI [of _ "[]"]) (auto simp: serve_requests_stop recv_frame_def wire_def serializes_def)
  next
    case True
    from Cons.prems True show ?thesis
    proof (cases rule: serve_requests_round)
      case (2 payload s1 cmds1 cmds2 bs)
      from Cons.IH [OF 2(5)] obtain rs ys where rs: "sent fr' = (sent fr @ [bs]) @ wire js (map FResponse rs)"
          "serializes js (map FResponse rs)"
          "map resp_id rs @ ys = map (\<lambda>a. req_id (request_of js a)) (takeWhile (is_request js) as)"
        by auto
      then show ?thesis
        using 2(3) True
        by (intro exI [of _ "\<lparr>resp_id = req_id (request_of js a), resp_payload = payload\<rparr> # rs"] exI [of _ ys])
          (simp add: wire_def serializes_def)
    qed (rule_tac x = "[]" in exI, simp add: wire_def serializes_def)
  qed
qed

lemma conn_session_type:
  assumes "handle_conn_with_generator js app version peer generator s fr = (r, fr', s', cmds)"
  shows "sent fr' = sent fr \<or>
    (\<exists>sh rs ys. sent fr' = sent fr @ wire js (FServerHello sh # map FResponse rs) \<and>
       serializes js (FServerHello sh # map FResponse rs) \<and> (rs \<noteq> [] \<longrightarrow> accepted sh) \<and>
       map resp_id rs @ ys =
         map (\<lambda>a. req_id (request_of js a)) (takeWhile (is_request js) (tl (inbound fr))))"
  (is "_ \<or> ?greeted")
proof -
  have greets: "sent fr' = sent fr \<or> ?greeted" if shake: "server_handshake js config nonce fr = (x, fr')" for config nonce x
  proof (cases "sent fr' = sent fr")
    case False
    then obtain sh b where "to_vec js (FServerHello sh) = Some b" "sent fr' = sent fr @ [b]"
      using server_handshake_frames [OF shake] by blast
    then show ?thesis
      by (intro disjI2 exI [of _ sh] exI [of _ "[]"] exI) (simp add: wire_def serializes_def)
  qed simp
  show ?thesis
    using assms
  proof (cases rule: conn_cases)
    case (4 nonce shake fr1)
    from 4(1) obtain b rest hello where h: "inbound fr = Arrives b # rest"
      and send: "send_frame js (FServerHello (answer_hello (conn_config version peer) nonce hello))
          (fr\<lparr>inbound := rest\<rparr>) = (Ok (), fr1)"
      and major: "result_accepted shake = (proto_major hello = PROTOCOL_MAJOR)"
      unfolding server_handshake_ok by (auto simp: conn_config_def)
    define sh where "sh = answer_hello (conn_config version peer) nonce hello"
    have sh: "accepted sh" using 4(2) major by (simp add: sh_def answer_hello_def conn_config_def Let_def)
    from send_frame_cases [OF send] obtain c where c: "to_vec js (FServerHello sh) = Some c"
      "fr1 = fr\<lparr>inbound := rest, sent := sent fr @ [c]\<rparr>" by (auto simp: sh_def)
    then have "inbound fr1 = rest" by simp
    from serve_requests_frames [OF 4(3) this] obtain rs ys where
      "sent fr' = sent fr1 @ wire js (map FResponse rs)" "serializes js (map FResponse rs)"
      "map resp_id rs @ ys = map (\<lambda>a. req_id (request_of js a)) (takeWhile (is_request js) rest)"
      by (elim exE conjE)
    then show ?thesis
      using sh c h
      by (intro disjI2 exI [of _ sh] exI [of _ rs] exI [of _ ys]) (simp add: wire_def serializes_def)
  qed (simp, blast dest: greets, blast dest: greets)
qed

section \<open>Properties\<close>

text \<open>
  Nothing runs that should not.  Whatever arrives and whatever fails, a connection dispatches
  commands only after a hello of the daemon's own major version, only commands that validation
  passed, each of them once and in the order the client sent them, and stops at the first arrival
  that is no request; and no frame it sends is above the limit.
\<close>

theorem connection_dispatches_validated:
  assumes "handle_conn js app version peer open_file s fr = (r, fr', s', cmds)"
  shows "(cmds \<noteq> [] \<longrightarrow> (\<exists>b hello rest ys. inbound fr = Arrives b # rest \<and>
      from_slice js b = Some (FHello hello) \<and> proto_major hello = PROTOCOL_MAJOR \<and>
      cmds @ ys = valid_cmds app (map (request_of js) (takeWhile (is_request js) rest)))) \<and>
    (\<exists>bs. sent fr' = sent fr @ bs \<and> (\<forall>b\<in>set bs. length b \<le> MAX_FRAME_BYTES))"
  by (rule handle_conn_dispatches [OF assms])

text \<open>
  C9: a connection implements its contract.  After a hello of its version over a working stream,
  the daemon sends its server hello, then one response for each request up to the first arrival
  that is none, in order, each under the number of its request: the rejection of an invalid
  command, the application's payload, or the time limit; and the application's state is what
  those commands make of it.
\<close>

theorem connection_refines_contract:
  fixes js :: "('cmd, 'rep) serde"
  assumes first: "inbound fr = Arrives b # rest" "from_slice js b = Some (FHello hello)"
    "proto_major hello = PROTOCOL_MAJOR"
    and nonce: "random_nonce open_file = Ok nonce" and wire: "reliable fr"
    and reqs: "reqs = map (request_of js) (takeWhile (is_request js) rest)"
    and greets: "fits js (FServerHello (answer_hello (conn_config version peer) nonce hello))"
    and answers: "list_all (\<lambda>r. fits js (FResponse r)) (responses app s reqs)"
  shows "\<exists>fr'. handle_conn js app version peer open_file s fr =
      (Ok (), fr', state_after app s reqs, valid_cmds app reqs) \<and>
    sent fr' = sent fr @
      the (to_vec js (FServerHello (answer_hello (conn_config version peer) nonce hello))) #
      map (\<lambda>r. the (to_vec js (FResponse r))) (responses app s reqs)"
  unfolding reqs
  by (rule handle_conn_contract [OF first nonce wire refl greets answers [unfolded reqs]])

text \<open>
  The daemon keeps to its part of the protocol.  Whatever arrives, what it writes on a connection
  is nothing, or one server hello followed by responses and nothing else; responses follow only a
  hello that accepts, and carry the numbers of the requests as they arrived, none left out.
\<close>

theorem connection_session_type:
  assumes "handle_conn js app version peer open_file s fr = (r, fr', s', cmds)"
  shows "sent fr' = sent fr \<or>
    (\<exists>sh rs ys. sent fr' = sent fr @ wire js (FServerHello sh # map FResponse rs) \<and>
       serializes js (FServerHello sh # map FResponse rs) \<and> (rs \<noteq> [] \<longrightarrow> accepted sh) \<and>
       map resp_id rs @ ys =
         map (\<lambda>a. req_id (request_of js a)) (takeWhile (is_request js) (tl (inbound fr))))"
  using assms unfolding handle_conn_def by (rule conn_session_type)

section \<open>An example\<close>

text \<open>Frames as their index in a table.\<close>

definition table_serde :: "('req, 'resp) Frame list \<Rightarrow> ('req, 'resp) serde" where
  "table_serde fs =
     \<lparr>to_vec = (\<lambda>f. if f \<in> set fs then Some [of_nat (length (takeWhile (\<lambda>g. g \<noteq> f) fs))] else None),
      from_slice = (\<lambda>b. if length b = 1 \<and> unat (hd b) < length fs then Some (fs ! unat (hd b)) else None),
      debug = frame_name\<rparr>"

lemma fits_table:
  assumes "f \<in> set fs" and "length fs \<le> 256"
  shows "fits (table_serde fs) f"
proof -
  define i where "i = length (takeWhile (\<lambda>g. g \<noteq> f) fs)"
  have "i < length fs" using assms(1) by (simp add: i_def length_takeWhile_less [of f])
  moreover have "fs ! i = f" using nth_length_takeWhile [of "\<lambda>g. g \<noteq> f" fs] calculation
    by (simp add: i_def)
  moreover have "unat (of_nat i :: u8) = i" using calculation assms(2) by (simp add: unat_of_nat)
  ultimately show ?thesis
    using assms(1) by (simp add: fits_def table_serde_def i_def [symmetric] MAX_FRAME_BYTES_def)
qed

definition echo_app :: "(nat, unit, unit) app" where
  "echo_app = \<lparr>validate = (\<lambda>_. Inr ()), command_timeout = (\<lambda>_. 1000),
     dispatch = (\<lambda>s _ _. (Some (RespOk ()), s + 1))\<rparr>"

definition echo_hello :: Hello where
  "echo_hello = \<lparr>proto_major = 1, proto_minor = 1, client_version = ''0.1.0'', hello_nonce = []\<rparr>"

definition echo_peer :: PeerCheck where
  "echo_peer = \<lparr>check_method = ''peercred+policy'', check_subject = ''pid=1 uid=7 gid=0''\<rparr>"

definition echo_nonce :: nonce where "echo_nonce = replicate 16 7"

definition echo_greeting_for :: "PeerCheck \<Rightarrow> ServerHello" where
  "echo_greeting_for peer = answer_hello (conn_config ''9.9.9'' peer) echo_nonce echo_hello"

definition echo_serde_for :: "PeerCheck \<Rightarrow> (unit, unit) serde" where
  "echo_serde_for peer = table_serde [FHello echo_hello, FServerHello (echo_greeting_for peer),
     FRequest \<lparr>req_id = 5, req_cmd = ()\<rparr>, FResponse \<lparr>resp_id = 5, resp_payload = RespOk ()\<rparr>]"

definition echo_greeting :: ServerHello where "echo_greeting = echo_greeting_for echo_peer"

definition echo_serde :: "(unit, unit) serde" where "echo_serde = echo_serde_for echo_peer"

definition echo_framer :: framer where
  "echo_framer = fresh_framer [Arrives [0], Arrives [2], Ends]"

lemma echo_reads_for:
  "from_slice (echo_serde_for peer) [0] = Some (FHello echo_hello)"
  "from_slice (echo_serde_for peer) [2] = Some (FRequest \<lparr>req_id = 5, req_cmd = ()\<rparr>)"
  by (simp_all add: echo_serde_for_def table_serde_def)

lemmas echo_reads = echo_reads_for [of echo_peer, folded echo_serde_def]

lemma echo_responses:
  "responses echo_app 0 [\<lparr>req_id = 5, req_cmd = ()\<rparr>] = [\<lparr>resp_id = 5, resp_payload = RespOk ()\<rparr>]"
  by (simp add: answer_request_def echo_app_def)

lemma echo_fits:
  "f \<in> {FHello echo_hello, FServerHello echo_greeting, FRequest \<lparr>req_id = 5, req_cmd = ()\<rparr>,
     FResponse \<lparr>resp_id = 5, resp_payload = RespOk ()\<rparr>} \<Longrightarrow> fits echo_serde f"
  unfolding echo_serde_def echo_serde_for_def echo_greeting_def by (rule fits_table) auto

lemma echo_facts:
  "inbound echo_framer = Arrives [0] # [Arrives [2], Ends]" "reliable echo_framer"
  "proto_major echo_hello = PROTOCOL_MAJOR" "random_nonce (\<lambda>_. Ok echo_nonce) = Ok echo_nonce"
  "[\<lparr>req_id = 5, req_cmd = ()\<rparr>] = map (request_of echo_serde) (takeWhile (is_request echo_serde) [Arrives [2], Ends])"
  "fits echo_serde (FServerHello (answer_hello (conn_config ''9.9.9'' echo_peer) echo_nonce echo_hello))"
  "list_all (\<lambda>r. fits echo_serde (FResponse r)) (responses echo_app 0 [\<lparr>req_id = 5, req_cmd = ()\<rparr>])"
  using echo_fits
  by (simp_all add: echo_reads echo_responses echo_framer_def fresh_framer_def reliable_def echo_hello_def
      PROTOCOL_MAJOR_def random_nonce_def read_nonce_def echo_nonce_def echo_greeting_def echo_greeting_for_def
      del: responses.simps)

lemma echo_run:
  "\<exists>fr'. handle_conn echo_serde echo_app ''9.9.9'' echo_peer (\<lambda>_. Ok echo_nonce) 0 echo_framer =
      (Ok (), fr', 1, [()])"
proof -
  have "state_after echo_app 0 [\<lparr>req_id = 5, req_cmd = ()\<rparr>] = 1"
    "valid_cmds echo_app [\<lparr>req_id = 5, req_cmd = ()\<rparr>] = [()]"
    by (simp_all add: answer_request_def echo_app_def valid_cmds_def)
  then show ?thesis
    using handle_conn_contract [OF echo_facts(1) echo_reads(1) echo_facts(3,4,2,5,6,7)] by auto
qed

theorem connection_dispatches_validated_witness:
  "\<exists>fr'. handle_conn echo_serde echo_app ''9.9.9'' echo_peer (\<lambda>_. Ok echo_nonce) 0 echo_framer =
      (Ok (), fr', 1, [()]) \<and>
    ([()] \<noteq> [] \<longrightarrow> (\<exists>b hello rest ys. inbound echo_framer = Arrives b # rest \<and>
      from_slice echo_serde b = Some (FHello hello) \<and> proto_major hello = PROTOCOL_MAJOR \<and>
      [()] @ ys = valid_cmds echo_app (map (request_of echo_serde) (takeWhile (is_request echo_serde) rest)))) \<and>
    (\<exists>bs. sent fr' = sent echo_framer @ bs \<and> (\<forall>b\<in>set bs. length b \<le> MAX_FRAME_BYTES))"
  using echo_run by (elim exE) (rule exI, rule conjI, assumption, rule connection_dispatches_validated)

theorem connection_refines_contract_witness:
  "\<exists>fr'. handle_conn echo_serde echo_app ''9.9.9'' echo_peer (\<lambda>_. Ok echo_nonce) 0 echo_framer =
      (Ok (), fr', state_after echo_app 0 [\<lparr>req_id = 5, req_cmd = ()\<rparr>],
       valid_cmds echo_app [\<lparr>req_id = 5, req_cmd = ()\<rparr>]) \<and>
    sent fr' = sent echo_framer @
      the (to_vec echo_serde (FServerHello (answer_hello (conn_config ''9.9.9'' echo_peer) echo_nonce echo_hello))) #
      map (\<lambda>r. the (to_vec echo_serde (FResponse r))) (responses echo_app 0 [\<lparr>req_id = 5, req_cmd = ()\<rparr>])"
  by (rule connection_refines_contract [OF echo_facts(1) echo_reads(1) echo_facts(3,4,2,5,6,7)])

theorem connection_session_type_witness:
  "\<exists>fr' sh rs ys. handle_conn echo_serde echo_app ''9.9.9'' echo_peer (\<lambda>_. Ok echo_nonce) 0 echo_framer =
      (Ok (), fr', 1, [()]) \<and>
    (sent fr' = sent echo_framer \<or> sent fr' = sent echo_framer @ wire echo_serde (FServerHello sh # map FResponse rs) \<and>
       (rs \<noteq> [] \<longrightarrow> accepted sh) \<and>
       map resp_id rs @ ys =
         map (\<lambda>a. req_id (request_of echo_serde a)) (takeWhile (is_request echo_serde) (tl (inbound echo_framer))))"
proof -
  obtain fr' where run: "handle_conn echo_serde echo_app ''9.9.9'' echo_peer (\<lambda>_. Ok echo_nonce) 0 echo_framer =
      (Ok (), fr', 1, [()])" using echo_run by (elim exE)
  show ?thesis using connection_session_type [OF run] run by blast
qed

end
