(* ===== verification/XpcChannel.thy ===== *)
theory XpcChannel
  imports Prelude
begin

text \<open>
  The XPC transport: \<open>xpc_ffi.rs\<close>, \<open>xpc_connection.rs\<close> and \<open>xpc_listener.rs\<close> under
  \<open>toolkit/dovetail_privileged_channel/rust/src\<close>, with the shim \<open>xpc_shim.c\<close> beside them that
  they call and that calls them back.  What the system delivers, and in which order, is a list of
  events; a connection object is a number.
\<close>

section \<open>The channel between the callbacks and the task that reads\<close>

text \<open>
  An unbounded channel of tokio whose sender sits in a \<open>Sink\<close>: the sink may have given the
  sender up, the receiver may be gone, and what was sent waits in order.
\<close>

datatype 'a poll = Pending | Ready 'a

record 'a mpsc =
  sender_held :: bool
  receiver_alive :: bool
  queued :: "'a list"

definition sink :: "'a mpsc" where
  "sink = \<lparr>sender_held = True, receiver_alive = True, queued = []\<rparr>"

fun offer :: "'a option \<Rightarrow> 'a mpsc \<Rightarrow> bool \<times> 'a mpsc" where
  "offer (Some item) ch =
     (if \<not> sender_held ch then (False, ch)
      else if receiver_alive ch then (True, ch\<lparr>queued := queued ch @ [item]\<rparr>)
      else (False, ch))"
| "offer None ch = (sender_held ch, ch\<lparr>sender_held := False\<rparr>)"

definition free_boxed :: "'a mpsc \<Rightarrow> 'a mpsc" where
  "free_boxed ch = ch\<lparr>sender_held := False\<rparr>"

text \<open>A null pointer stands for the end of the connection.\<close>

definition deliver_bytes :: "bytes option \<Rightarrow> bytes mpsc \<Rightarrow> bytes mpsc" where
  "deliver_bytes frame ch = snd (offer frame ch)"

definition poll_recv :: "'a mpsc \<Rightarrow> 'a option poll \<times> 'a mpsc" where
  "poll_recv ch =
     (case queued ch of
        x # xs \<Rightarrow> (Ready (Some x), ch\<lparr>queued := xs\<rparr>)
      | [] \<Rightarrow> (if sender_held ch then (Pending, ch) else (Ready None, ch)))"

section \<open>What the shim does with an event\<close>

text \<open>
  A dictionary carries data under the key \<open>f\<close>, or none; everything else is an error, and one of
  them is the peer's failure to meet the requirement.
\<close>

datatype xpc_event = Dictionary "bytes option" | XpcError bool

datatype xpc_call =
    Retain nat
  | Release nat
  | Cancel nat
  | SetRequirement nat string
  | Resume nat
  | SendMessage nat bytes
  | Connect string u64
  | Flush nat
  | CancelListener
  | ReleaseListener

fun route_event :: "nat \<Rightarrow> xpc_event \<Rightarrow> bytes mpsc \<Rightarrow> bytes mpsc \<times> xpc_call list" where
  "route_event conn (Dictionary data) ch =
     (case data of
        Some bytes \<Rightarrow> (if bytes \<noteq> [] then deliver_bytes (Some bytes) ch else ch, [])
      | None \<Rightarrow> (ch, []))"
| "route_event conn (XpcError unsatisfied) ch =
     (deliver_bytes None ch, if unsatisfied then [Cancel conn] else [])"

section \<open>A connection\<close>

record XpcConnection =
  raw :: nat
  pending :: bytes

definition adopt :: "nat \<Rightarrow> XpcConnection" where
  "adopt r = \<lparr>raw = r, pending = []\<rparr>"

definition recv :: "XpcConnection \<Rightarrow> bytes mpsc \<Rightarrow> bytes option poll \<times> XpcConnection \<times> bytes mpsc" where
  "recv conn ch =
     (if pending conn \<noteq> [] then (Ready (Some (pending conn)), conn\<lparr>pending := []\<rparr>, ch)
      else (let (r, ch1) = poll_recv ch in (r, conn, ch1)))"

text \<open>The bytes put into a buffer that has room for \<open>remaining\<close> more.\<close>

definition put_slice :: "nat \<Rightarrow> XpcConnection \<Rightarrow> bytes \<times> XpcConnection" where
  "put_slice remaining conn =
     (let taken = min (length (pending conn)) remaining
      in (take taken (pending conn), conn\<lparr>pending := drop taken (pending conn)\<rparr>))"

definition poll_read :: "nat \<Rightarrow> XpcConnection \<Rightarrow> bytes mpsc \<Rightarrow> bytes poll \<times> XpcConnection \<times> bytes mpsc" where
  "poll_read remaining conn ch =
     (if pending conn = [] then
        (case poll_recv ch of
           (Pending, ch1) \<Rightarrow> (Pending, conn, ch1)
         | (Ready None, ch1) \<Rightarrow> (Ready [], conn, ch1)
         | (Ready (Some bytes), ch1) \<Rightarrow>
             (let (out, conn1) = put_slice remaining (conn\<lparr>pending := bytes\<rparr>) in (Ready out, conn1, ch1)))
      else (let (out, conn1) = put_slice remaining conn in (Ready out, conn1, ch)))"

definition send :: "bytes \<Rightarrow> XpcConnection \<Rightarrow> xpc_call list" where
  "send bytes conn = [SendMessage (raw conn) bytes]"

definition poll_write :: "bytes \<Rightarrow> XpcConnection \<Rightarrow> nat poll \<times> xpc_call list" where
  "poll_write buf conn = (Ready (length buf), if buf \<noteq> [] then send buf conn else [])"

definition flush_connection :: "XpcConnection \<Rightarrow> xpc_call list" where
  "flush_connection conn = [Flush (raw conn)]"

definition poll_flush :: "XpcConnection \<Rightarrow> unit poll \<times> xpc_call list" where
  "poll_flush conn = (Ready (), [])"

definition poll_shutdown :: "XpcConnection \<Rightarrow> unit poll \<times> xpc_call list" where
  "poll_shutdown conn = (Ready (), [])"

definition drop_connection :: "XpcConnection \<Rightarrow> xpc_call list" where
  "drop_connection conn = [Cancel (raw conn), Release (raw conn)]"

text \<open>\<open>CString::new\<close> refuses text with a nul in it.\<close>

definition c_text :: "string \<Rightarrow> string + string" where
  "c_text s = (if CHR 0x00 \<in> set s then Err ''nul byte found in provided data'' else Ok s)"

text \<open>A client's connection to a named service, with the channel the shim was given.\<close>

definition MACH_SERVICE_PRIVILEGED :: u64 where "MACH_SERVICE_PRIVILEGED = push_bit 1 1"

definition open_connection :: "string \<Rightarrow> u64 \<Rightarrow> nat \<Rightarrow> XpcConnection \<times> bytes mpsc \<times> xpc_call list" where
  "open_connection service flags r = (adopt r, sink, [Connect service flags])"

definition connect_service :: "string \<Rightarrow> nat \<Rightarrow> string + XpcConnection \<times> bytes mpsc \<times> xpc_call list" where
  "connect_service name r =
     and_then (c_text name) (\<lambda>n. Ok (open_connection n MACH_SERVICE_PRIVILEGED r))"

section \<open>A connection as a stream of bytes\<close>

datatype stream_op = Event xpc_event | Read nat | Recv

fun stream_step :: "stream_op \<Rightarrow> bytes mpsc \<times> XpcConnection \<times> bytes \<Rightarrow> bytes mpsc \<times> XpcConnection \<times> bytes" where
  "stream_step (Event e) (ch, conn, out) = (fst (route_event (raw conn) e ch), conn, out)"
| "stream_step (Read n) (ch, conn, out) =
     (case poll_read n conn ch of
        (Ready bytes, conn1, ch1) \<Rightarrow> (ch1, conn1, out @ bytes)
      | (Pending, conn1, ch1) \<Rightarrow> (ch1, conn1, out))"
| "stream_step Recv (ch, conn, out) =
     (case recv conn ch of
        (Ready (Some bytes), conn1, ch1) \<Rightarrow> (ch1, conn1, out @ bytes)
      | (_, conn1, ch1) \<Rightarrow> (ch1, conn1, out))"

definition run_stream :: "nat \<Rightarrow> stream_op list \<Rightarrow> bytes mpsc \<times> XpcConnection \<times> bytes" where
  "run_stream r ops = fold stream_step ops (sink, adopt r, [])"

fun events_of :: "stream_op list \<Rightarrow> xpc_event list" where
  "events_of [] = []"
| "events_of (Event e # ops) = e # events_of ops"
| "events_of (_ # ops) = events_of ops"

text \<open>The specification: the data that arrived before the connection ended.\<close>

fun arrived :: "xpc_event list \<Rightarrow> bytes" where
  "arrived [] = []"
| "arrived (Dictionary (Some bytes) # es) = bytes @ arrived es"
| "arrived (Dictionary None # es) = arrived es"
| "arrived (XpcError _ # es) = []"

fun ended :: "xpc_event list \<Rightarrow> bool" where
  "ended [] = False"
| "ended (XpcError _ # es) = True"
| "ended (_ # es) = ended es"

lemma events_of_append [simp]: "events_of (a @ b) = events_of a @ events_of b"
  by (induction a rule: events_of.induct) auto

lemma arrived_append: "arrived (a @ b) = arrived a @ (if ended a then [] else arrived b)"
  by (induction a rule: arrived.induct) auto

lemma ended_append [simp]: "ended (a @ b) \<longleftrightarrow> ended a \<or> ended b"
  by (induction a rule: ended.induct) auto

lemma take_drop_append [simp]: "take n xs @ drop n xs @ ys = xs @ ys"
  by (simp flip: append_assoc)

text \<open>What one end writes is what arrives at the other, where the system delivers it.\<close>

fun payloads :: "xpc_call list \<Rightarrow> bytes list" where
  "payloads [] = []"
| "payloads (SendMessage _ bytes # cs) = bytes # payloads cs"
| "payloads (_ # cs) = payloads cs"

lemma payloads_append [simp]: "payloads (a @ b) = payloads a @ payloads b"
  by (induction a rule: payloads.induct) auto

lemma written_arrives:
  "arrived (map (\<lambda>p. Dictionary (Some p)) (payloads (concat (map (\<lambda>b. snd (poll_write b conn)) bufs)))) =
     concat bufs \<and> [] \<notin> set (payloads (concat (map (\<lambda>b. snd (poll_write b conn)) bufs)))"
  by (induction bufs) (auto simp: poll_write_def send_def)

definition stream_inv :: "xpc_event list \<Rightarrow> bytes mpsc \<Rightarrow> XpcConnection \<Rightarrow> bytes \<Rightarrow> bool" where
  "stream_inv es ch conn out \<longleftrightarrow>
     out @ pending conn @ concat (queued ch) = arrived es \<and> [] \<notin> set (queued ch) \<and>
     receiver_alive ch \<and> (sender_held ch \<longleftrightarrow> \<not> ended es)"

lemma stream_step_inv:
  assumes "stream_inv es ch conn out" and "stream_step op (ch, conn, out) = (ch', conn', out')"
  shows "stream_inv (es @ events_of [op]) ch' conn' out'"
proof (cases op)
  case (Event e)
  then show ?thesis
    using assms by (cases e)
      (auto simp: stream_inv_def deliver_bytes_def arrived_append split: option.splits if_splits)
next
  case (Read n)
  then show ?thesis
    using assms by (auto simp: stream_inv_def poll_read_def poll_recv_def put_slice_def Let_def
        split: list.splits if_splits)
next
  case Recv
  then show ?thesis
    using assms by (auto simp: stream_inv_def recv_def poll_recv_def split: list.splits if_splits)
qed

lemma run_stream_inv:
  "run_stream r ops = (ch, conn, out) \<Longrightarrow> stream_inv (events_of ops) ch conn out"
proof (induction ops arbitrary: ch conn out rule: rev_induct)
  case Nil
  then show ?case by (auto simp: run_stream_def stream_inv_def sink_def adopt_def)
next
  case (snoc op ops)
  obtain ch1 conn1 out1 where before: "run_stream r ops = (ch1, conn1, out1)" by (cases "run_stream r ops")
  then have "stream_step op (ch1, conn1, out1) = (ch, conn, out)"
    using snoc.prems by (simp add: run_stream_def)
  from stream_step_inv [OF snoc.IH [OF before] this] show ?case by simp
qed

section \<open>Listening\<close>

text \<open>
  The shim keeps what the listener was made with; \<open>peers\<close> is the channel of the connections that
  wait to be accepted, \<open>contexts\<close> holds the channel of every peer that was let in and \<open>calls\<close>
  what was asked of the system, in order.
\<close>

record xpc_world =
  peer_requirement :: "string option"
  peers :: "XpcConnection mpsc"
  contexts :: "nat \<Rightarrow> bytes mpsc option"
  calls :: "xpc_call list"

definition did :: "xpc_call list \<Rightarrow> xpc_world \<Rightarrow> xpc_world" where
  "did cs w = w\<lparr>calls := calls w @ cs\<rparr>"

definition REFUSED_SERVICE :: string where
  "REFUSED_SERVICE = ''o shim XPC recusou um servico nomeado sem requisito de assinatura''"

text \<open>The shim makes no listener for a name without a requirement.\<close>

definition dovetail_xpc_listen :: "string option \<Rightarrow> string option \<Rightarrow> xpc_world option" where
  "dovetail_xpc_listen service wanted =
     (if service \<noteq> None \<and> wanted = None then None
      else Some \<lparr>peer_requirement = wanted, peers = sink, contexts = Map.empty, calls = []\<rparr>)"

definition listen :: "string option \<Rightarrow> string option \<Rightarrow> string + xpc_world" where
  "listen service wanted =
     (case dovetail_xpc_listen service wanted of
        None \<Rightarrow> Err REFUSED_SERVICE
      | Some w \<Rightarrow> Ok w)"

definition mach_service :: "string \<Rightarrow> string \<Rightarrow> string + xpc_world" where
  "mach_service name wanted =
     and_then (c_text wanted) (\<lambda>r. and_then (c_text name) (\<lambda>n. listen (Some n) (Some r)))"

text \<open>
  The callback for a peer, or for the end of the listener; what it returns becomes the context of
  the peer.  A connection nobody takes is dropped.
\<close>

fun admit_peer :: "nat option \<Rightarrow> xpc_world \<Rightarrow> bytes mpsc option \<times> xpc_world" where
  "admit_peer None w = (None, w\<lparr>peers := snd (offer None (peers w))\<rparr>)"
| "admit_peer (Some peer) w =
     (let w1 = did [Retain peer] w; conn = adopt peer; (taken, ps) = offer (Some conn) (peers w1)
      in if taken then (Some sink, w1\<lparr>peers := ps\<rparr>)
         else (None, did (drop_connection conn) (w1\<lparr>peers := ps\<rparr>)))"

text \<open>
  The event handler of the listener: a new peer, with whether the system took the requirement for
  it, or anything else.
\<close>

datatype listener_event = NewPeer nat bool | ListenerError

definition hand_over :: "nat \<Rightarrow> xpc_world \<Rightarrow> xpc_world" where
  "hand_over peer w =
     (case admit_peer (Some peer) w of
        (None, w1) \<Rightarrow> w1
      | (Some ctx, w1) \<Rightarrow> did [Resume peer] (w1\<lparr>contexts := (contexts w1)(peer \<mapsto> ctx)\<rparr>))"

fun on_event :: "listener_event \<Rightarrow> xpc_world \<Rightarrow> xpc_world" where
  "on_event ListenerError w = snd (admit_peer None w)"
| "on_event (NewPeer peer fits) w =
     (case peer_requirement w of
        None \<Rightarrow> hand_over peer w
      | Some r \<Rightarrow>
          (let w1 = did [SetRequirement peer r] w
           in if fits then hand_over peer w1 else did [Cancel peer] w1))"

definition accept :: "xpc_world \<Rightarrow> XpcConnection option poll \<times> xpc_world" where
  "accept w = (let (r, ps) = poll_recv (peers w) in (r, w\<lparr>peers := ps\<rparr>))"

text \<open>Dropping the listener's half: the connections nobody accepted go with it.\<close>

definition drop_listener :: "xpc_world \<Rightarrow> xpc_world" where
  "drop_listener w =
     did (CancelListener # ReleaseListener # concat (map drop_connection (queued (peers w))))
       (w\<lparr>peers := (peers w)\<lparr>queued := [], receiver_alive := False\<rparr>\<rparr>)"

definition close_connection :: "XpcConnection \<Rightarrow> xpc_world \<Rightarrow> xpc_world" where
  "close_connection conn w =
     did (drop_connection conn)
       (w\<lparr>contexts := (contexts w)(raw conn := map_option (\<lambda>ch. ch\<lparr>receiver_alive := False\<rparr>) (contexts w (raw conn)))\<rparr>)"

section \<open>A host that listens\<close>

text \<open>The connections a host accepted and still has, beside what the listener keeps.\<close>

datatype host_op = Occurs listener_event | Accept | Close nat | DropListener

fun host_step :: "host_op \<Rightarrow> xpc_world \<times> XpcConnection list \<Rightarrow> xpc_world \<times> XpcConnection list" where
  "host_step (Occurs e) (w, held) = (on_event e w, held)"
| "host_step Accept (w, held) =
     (case accept w of
        (Ready (Some conn), w1) \<Rightarrow> (w1, held @ [conn])
      | (_, w1) \<Rightarrow> (w1, held))"
| "host_step (Close p) (w, held) =
     (case find (\<lambda>conn. raw conn = p) held of
        Some conn \<Rightarrow> (close_connection conn w, remove1 conn held)
      | None \<Rightarrow> (w, held))"
| "host_step DropListener (w, held) = (drop_listener w, held)"

definition run_host :: "host_op list \<Rightarrow> xpc_world \<Rightarrow> xpc_world \<times> XpcConnection list" where
  "run_host ops w = fold host_step ops (w, [])"

lemma calls_did [simp]: "calls (did cs w) = calls w @ cs"
  and peers_did [simp]: "peers (did cs w) = peers w"
  and peer_requirement_did [simp]: "peer_requirement (did cs w) = peer_requirement w"
  and contexts_did [simp]: "contexts (did cs w) = contexts w"
  by (simp_all add: did_def)

lemmas [state_ops] = hand_over_def accept_def poll_recv_def drop_listener_def close_connection_def
  drop_connection_def adopt_def

lemma find_held:
  "find (\<lambda>conn. raw conn = p) held = Some conn \<Longrightarrow> conn \<in> set held \<and> raw conn = p"
  by (auto simp: find_Some_iff)

subsection \<open>References\<close>

definition waiting_for :: "nat \<Rightarrow> xpc_world \<times> XpcConnection list \<Rightarrow> nat" where
  "waiting_for p s = count_list (map raw (queued (peers (fst s)) @ snd s)) p"

definition balanced :: "xpc_world \<times> XpcConnection list \<Rightarrow> bool" where
  "balanced s \<longleftrightarrow> (\<forall>p. count_list (calls (fst s)) (Retain p) =
     count_list (calls (fst s)) (Release p) + waiting_for p s)"

lemma count_remove1: "c \<in> set cs \<Longrightarrow> count_list (map raw cs) p =
    (if raw c = p then 1 else 0) + count_list (map raw (remove1 c cs)) p"
  by (induction cs) auto

lemma count_dropped:
  "count_list (concat (map drop_connection cs)) (Release p) = count_list (map raw cs) p"
  "count_list (concat (map drop_connection cs)) (Retain p) = 0"
  by (induction cs) (simp_all add: drop_connection_def)

lemma host_step_balanced:
  assumes "balanced s"
  shows "balanced (host_step op s)"
proof -
  obtain w held where s: "s = (w, held)" by (cases s)
  show ?thesis
  proof (cases op)
    case (Occurs e)
    then show ?thesis
      using assms unfolding s by (cases e)
        (auto simp: balanced_def waiting_for_def state_ops Let_def
          split: option.splits prod.splits if_splits)
  next
    case Accept
    then show ?thesis
      using assms unfolding s
      by (auto simp: balanced_def waiting_for_def accept_def poll_recv_def split: list.splits if_splits)
  next
    case (Close p)
    show ?thesis
    proof (cases "find (\<lambda>conn. raw conn = p) held")
      case (Some conn)
      then show ?thesis
        using assms Close count_remove1 [of conn held] find_held [OF Some] unfolding s
        by (auto simp: balanced_def waiting_for_def state_ops)
    qed (use assms Close in \<open>simp add: s\<close>)
  next
    case DropListener
    then show ?thesis
      using assms unfolding s by (simp add: balanced_def waiting_for_def drop_listener_def count_dropped)
  qed
qed

lemma run_host_snoc: "run_host (ops @ [op]) w = host_step op (run_host ops w)"
  by (simp add: run_host_def)

lemma run_host_balanced: "balanced (w, []) \<Longrightarrow> balanced (run_host ops w)"
  by (induction ops rule: rev_induct) (simp add: run_host_def, simp add: run_host_snoc host_step_balanced)

lemma not_offered: "\<not> receiver_alive ch \<Longrightarrow> queued (snd (offer x ch)) = queued ch \<and> \<not> receiver_alive (snd (offer x ch))"
  by (cases x) auto

subsection \<open>Requirements\<close>

definition before :: "'a \<Rightarrow> 'a \<Rightarrow> 'a list \<Rightarrow> bool" where
  "before x y xs \<longleftrightarrow> (\<exists>a b. xs = a @ b \<and> x \<in> set a \<and> y \<notin> set a)"

lemma before_append: "before x y xs \<Longrightarrow> before x y (xs @ ys)"
  unfolding before_def by (metis append_assoc)

lemma before_snoc: "x \<in> set xs \<Longrightarrow> (y \<in> set xs \<Longrightarrow> before x y xs) \<Longrightarrow> before x y (xs @ ys)"
  by (cases "y \<in> set xs") (auto simp: before_append, auto simp: before_def)

definition required :: "string \<Rightarrow> host_op list \<Rightarrow> xpc_world \<times> XpcConnection list \<Rightarrow> bool" where
  "required r ops s \<longleftrightarrow>
     peer_requirement (fst s) = Some r \<and>
     (\<forall>conn\<in>set (queued (peers (fst s)) @ snd s).
        Occurs (NewPeer (raw conn) True) \<in> set ops \<and> Resume (raw conn) \<in> set (calls (fst s))) \<and>
     (\<forall>p. Resume p \<in> set (calls (fst s)) \<longrightarrow>
        Occurs (NewPeer p True) \<in> set ops \<and> before (SetRequirement p r) (Resume p) (calls (fst s)))"

lemma required_mono:
  assumes "required r ops (w, held)" and "peer_requirement w' = peer_requirement w"
    and "set (queued (peers w') @ held') \<subseteq> set (queued (peers w) @ held)"
    and "calls w' = calls w @ cs" and "\<forall>p. Resume p \<notin> set cs"
  shows "required r (ops @ later) (w', held')"
  using assms unfolding required_def by (auto intro: before_append)

lemma hand_over_required:
  assumes "required r ops (w, held)" and "SetRequirement p r \<in> set (calls w)"
    and "Occurs (NewPeer p True) \<in> set ops"
  shows "required r ops (hand_over p w, held)"
  using assms unfolding required_def hand_over_def
  by (auto simp: Let_def adopt_def drop_connection_def intro: before_append before_snoc
      split: if_splits)

lemma event_required:
  assumes "required r ops (w, held)" and "Occurs e \<in> set later"
  shows "required r (ops @ later) (on_event e w, held)"
proof (cases e)
  case (NewPeer p fits)
  have r: "peer_requirement w = Some r" using assms(1) by (simp add: required_def)
  have still: "required r (ops @ later) (did cs w, held)" if "\<forall>p. Resume p \<notin> set cs" for cs
    using that by (intro required_mono [OF assms(1), of _ _ cs]) simp_all
  show ?thesis
  proof (cases fits)
    case True
    have "required r (ops @ later) (hand_over p (did [SetRequirement p r] w), held)"
      by (rule hand_over_required [OF still]) (use assms(2) NewPeer True in simp_all)
    then show ?thesis using NewPeer True r by (simp add: Let_def)
  next
    case False
    have "required r (ops @ later) (did [SetRequirement p r, Cancel p] w, held)" by (rule still) simp
    then show ?thesis using NewPeer False r by (simp add: Let_def did_def)
  qed
next
  case ListenerError
  then show ?thesis using required_mono [OF assms(1), of "on_event e w" held "[]"] by simp
qed

lemma close_required:
  assumes "required r ops (w, held)"
  shows "required r (ops @ later) (host_step (Close p) (w, held))"
proof (cases "find (\<lambda>conn. raw conn = p) held")
  case None
  then show ?thesis using required_mono [OF assms, of w held "[]"] by simp
next
  case (Some conn)
  then show ?thesis
    using required_mono [OF assms, of "close_connection conn w" "remove1 conn held" "drop_connection conn"]
      set_remove1_subset [of conn held]
    by (auto simp: close_connection_def drop_connection_def)
qed

lemma host_step_required:
  assumes "required r ops s"
  shows "required r (ops @ [op]) (host_step op s)"
proof -
  obtain w held where s: "s = (w, held)" by (cases s)
  note now = assms [unfolded s]
  show ?thesis
  proof (cases op)
    case (Occurs e)
    then show ?thesis using event_required [OF now] by (simp add: s)
  next
    case Accept
    obtain w1 held1 where step: "host_step Accept (w, held) = (w1, held1)" by fastforce
    have "required r (ops @ [op]) (w1, held1)"
      by (rule required_mono [OF now, of w1 held1 "[]"])
        (use step in \<open>auto simp: accept_def poll_recv_def split: list.splits if_splits\<close>)
    then show ?thesis using step Accept by (simp add: s)
  next
    case (Close p)
    then show ?thesis using close_required [OF now] unfolding s by blast
  next
    case DropListener
    then show ?thesis
      using required_mono [OF now, of "drop_listener w" held
          "CancelListener # ReleaseListener # concat (map drop_connection (queued (peers w)))"]
      by (auto simp: s drop_listener_def drop_connection_def)
  qed
qed

lemma mach_service_required: "mach_service name r = Ok w \<Longrightarrow> required r [] (w, [])"
  by (auto simp: mach_service_def listen_def dovetail_xpc_listen_def c_text_def required_def sink_def
      split: if_splits)

lemma run_host_required: "required r [] (w, []) \<Longrightarrow> required r ops (run_host ops w)"
  by (induction ops rule: rev_induct) (simp add: run_host_def, simp add: run_host_snoc host_step_required)

lemma gone_step:
  assumes "receiver_alive (peers (fst s)) \<or> queued (peers (fst s)) = []"
  shows "receiver_alive (peers (fst (host_step op s))) \<or> queued (peers (fst (host_step op s))) = []"
    and "\<not> receiver_alive (peers (fst s)) \<or> op = DropListener \<Longrightarrow> \<not> receiver_alive (peers (fst (host_step op s)))"
proof -
  obtain w held where s: "s = (w, held)" by (cases s)
  show "receiver_alive (peers (fst (host_step op s))) \<or> queued (peers (fst (host_step op s))) = []"
    and "\<not> receiver_alive (peers (fst s)) \<or> op = DropListener \<Longrightarrow> \<not> receiver_alive (peers (fst (host_step op s)))"
    using assms unfolding s
    by (cases op; cases "case op of Occurs e \<Rightarrow> e | _ \<Rightarrow> ListenerError";
        auto simp: state_ops Let_def
        split: option.splits list.splits if_splits)+
qed

lemma run_host_gone:
  assumes "receiver_alive (peers w)" and "DropListener \<in> set ops"
  shows "queued (peers (fst (run_host ops w))) = []"
proof -
  have "(receiver_alive (peers (fst (run_host ops w))) \<or> queued (peers (fst (run_host ops w))) = []) \<and>
      (DropListener \<in> set ops \<longrightarrow> \<not> receiver_alive (peers (fst (run_host ops w))))"
  proof (induction ops rule: rev_induct)
    case Nil
    then show ?case using assms(1) by (simp add: run_host_def)
  next
    case (snoc op ops)
    then show ?case using gone_step [of "run_host ops w" op] by (auto simp: run_host_snoc)
  qed
  then show ?thesis using assms(2) by blast
qed

section \<open>Properties\<close>

text \<open>
  C23: an XPC connection is a stream: whatever events, reads of any size and receives happen in
  whatever order, what was handed out, what is pending and what is queued is exactly the data that
  arrived before the connection ended.  A read with room waits only while the connection is open
  and everything that arrived has been handed out, and reports the end of the stream only when the
  connection has ended and nothing is left.
\<close>

theorem xpc_stream_intact:
  assumes "run_stream r ops = (ch, conn, out)" and "poll_read n conn ch = (res, conn', ch')" and "0 < n"
  shows "out @ pending conn @ concat (queued ch) = arrived (events_of ops) \<and>
    (res = Pending \<longleftrightarrow> out = arrived (events_of ops) \<and> \<not> ended (events_of ops)) \<and>
    (res = Ready [] \<longleftrightarrow> out = arrived (events_of ops) \<and> ended (events_of ops)) \<and>
    (\<forall>bytes. res = Ready bytes \<longrightarrow> length bytes \<le> n)"
proof -
  have inv: "stream_inv (events_of ops) ch conn out" by (rule run_stream_inv [OF assms(1)])
  have left: "out = arrived (events_of ops) \<longleftrightarrow> pending conn = [] \<and> queued ch = []"
  proof -
    have "pending conn @ concat (queued ch) = [] \<longleftrightarrow> pending conn = [] \<and> queued ch = []"
      using inv by (cases "queued ch") (auto simp: stream_inv_def)
    moreover have "out @ pending conn @ concat (queued ch) = arrived (events_of ops)"
      using inv by (simp add: stream_inv_def)
    ultimately show ?thesis by (metis append_self_conv)
  qed
  show ?thesis
    unfolding left using inv assms(2,3)
    by (auto simp: stream_inv_def poll_read_def poll_recv_def put_slice_def Let_def min_def
        split: list.splits if_splits)
qed

theorem xpc_stream_intact_witness:
  "\<exists>ch conn out. run_stream 1 [Event (Dictionary (Some [1, 2, 3])), Read 2, Event (Dictionary (Some [])), Event (XpcError False)] = (ch, conn, out) \<and>
     out @ pending conn @ concat (queued ch) = [1, 2, 3] \<and> fst (poll_read 2 conn ch) \<noteq> Pending"
proof -
  let ?ops = "[Event (Dictionary (Some [1, 2, 3])), Read 2, Event (Dictionary (Some [])), Event (XpcError False)]"
  obtain ch conn out where run: "run_stream 1 ?ops = (ch, conn, out)" by (cases "run_stream 1 ?ops")
  obtain res conn' ch' where read: "poll_read 2 conn ch = (res, conn', ch')" by (cases "poll_read 2 conn ch")
  show ?thesis using xpc_stream_intact [OF run read] run read by (intro exI conjI) auto
qed

text \<open>
  C24: a service with a name always has a requirement, and lets nothing in without it: every
  connection it hands out, and every peer it lets talk, is one the system took the requirement
  for, before the peer was resumed.
\<close>

theorem xpc_peers_required:
  assumes "mach_service name wanted = Ok w" and "run_host ops w = (w', held)"
    and "fst (accept w') = Ready (Some conn) \<or> conn \<in> set held \<or> Resume (raw conn) \<in> set (calls w')"
  shows "Occurs (NewPeer (raw conn) True) \<in> set ops \<and>
    before (SetRequirement (raw conn) wanted) (Resume (raw conn)) (calls w')"
proof -
  have kept: "required wanted ops (w', held)"
    using run_host_required [OF mach_service_required [OF assms(1)], of ops] by (simp add: assms(2))
  then have resumed: "Resume p \<in> set (calls w') \<Longrightarrow>
      Occurs (NewPeer p True) \<in> set ops \<and> before (SetRequirement p wanted) (Resume p) (calls w')" for p
    by (simp add: required_def)
  have "conn \<in> set (queued (peers w') @ held) \<Longrightarrow> Resume (raw conn) \<in> set (calls w')"
    using kept by (simp add: required_def)
  then show ?thesis
    using assms(3) resumed by (auto simp: accept_def poll_recv_def split: list.splits if_splits)
qed

theorem xpc_peers_required_witness:
  "\<exists>w w' held conn. mach_service ''com.example'' ''anchor apple'' = Ok w \<and>
     run_host [Occurs (NewPeer 7 False), Occurs (NewPeer 8 True), Accept] w = (w', held) \<and>
     held = [conn] \<and> before (SetRequirement 8 ''anchor apple'') (Resume 8) (calls w')"
proof -
  obtain w where w: "mach_service ''com.example'' ''anchor apple'' = Ok w"
      "w = \<lparr>peer_requirement = Some ''anchor apple'', peers = sink, contexts = Map.empty, calls = []\<rparr>"
    by (simp add: mach_service_def listen_def dovetail_xpc_listen_def c_text_def)
  let ?ops = "[Occurs (NewPeer 7 False), Occurs (NewPeer 8 True), Accept]"
  obtain w' where run: "run_host ?ops w = (w', [adopt 8])" "Resume 8 \<in> set (calls w')"
    by (simp add: w(2) run_host_def hand_over_def accept_def poll_recv_def sink_def Let_def)
  have "raw (adopt 8) = 8" by (simp add: adopt_def)
  then show ?thesis
    using xpc_peers_required [OF w(1) run(1), of "adopt 8"] w(1) run by (intro exI conjI) auto
qed

text \<open>
  C25: every reference taken to a peer's connection is given back exactly once: as long as a
  connection waits to be accepted, or is held, it has one reference more than was released; once
  the listener is gone and every accepted connection closed, none is left.
\<close>

theorem xpc_references_balanced:
  assumes "listen service wanted = Ok w" and "run_host ops w = (w', held)"
  shows "(\<forall>p. count_list (calls w') (Retain p) =
      count_list (calls w') (Release p) + count_list (map raw (queued (peers w') @ held)) p) \<and>
    (DropListener \<in> set ops \<and> held = [] \<longrightarrow>
       (\<forall>p. count_list (calls w') (Retain p) = count_list (calls w') (Release p)))"
proof -
  have w: "balanced (w, [])" "receiver_alive (peers w)"
    using assms(1) by (auto simp: listen_def dovetail_xpc_listen_def balanced_def waiting_for_def sink_def
        split: if_splits)
  have "balanced (w', held)" using run_host_balanced [OF w(1), of ops] by (simp add: assms(2))
  moreover have "DropListener \<in> set ops \<Longrightarrow> queued (peers w') = []"
    using run_host_gone [OF w(2), of ops] by (simp add: assms(2))
  ultimately show ?thesis by (auto simp: balanced_def waiting_for_def)
qed

theorem xpc_references_balanced_witness:
  "\<exists>w w'. listen None None = Ok w \<and>
     run_host [Occurs (NewPeer 7 True), Occurs (NewPeer 8 True), Accept, Close 7, DropListener] w = (w', []) \<and>
     count_list (calls w') (Retain 8) = count_list (calls w') (Release 8)"
proof -
  obtain w where w: "listen None None = Ok w"
      "w = \<lparr>peer_requirement = None, peers = sink, contexts = Map.empty, calls = []\<rparr>"
    by (simp add: listen_def dovetail_xpc_listen_def)
  let ?ops = "[Occurs (NewPeer 7 True), Occurs (NewPeer 8 True), Accept, Close 7, DropListener]"
  obtain w' where run: "run_host ?ops w = (w', [])"
    by (simp add: w(2) run_host_def state_ops sink_def Let_def)
  show ?thesis using xpc_references_balanced [OF w(1) run] w(1) run by (intro exI conjI) auto
qed

end
