(* ===== verification/Wire.thy ===== *)
theory Wire
  imports Connection XpcChannel
begin

text \<open>
  The bytes of a connection: \<open>connection_fixture.rs\<close> of
  \<open>toolkit/dovetail_privileged_daemon/rust/src\<close>, which drives a connection of the daemon from the
  bytes a client writes to the bytes it reads, within the size of its pipe and its deadline, and what the frames become over an XPC connection.
  The codec that cuts a stream of bytes into frames is \<open>tokio_util\<close>'s: a parameter, of which
  \<open>length_delimited\<close> states the documented behaviour.
\<close>

section \<open>The length prefix\<close>

definition framed :: "bytes \<Rightarrow> bytes" where
  "framed body = to_be_bytes (of_nat (length body)) @ body"

text \<open>
  What \<open>Framed\<close> yields of a stream of bytes, after which the stream ends or falls silent.  A frame
  whose header announces more than the limit is an error, after which nothing is yielded; a part of
  a frame is an error at the end of the stream.
\<close>

type_synonym decoder = "bool \<Rightarrow> bytes \<Rightarrow> arrival list"

definition incomplete :: "bytes \<Rightarrow> bool" where
  "incomplete part \<longleftrightarrow> part \<noteq> [] \<and>
     (length part < 4 \<or>
      (let n = unat (from_be_bytes (take 4 part)) in n \<le> MAX_FRAME_BYTES \<and> length part < 4 + n))"

definition length_delimited :: "decoder \<Rightarrow> bool" where
  "length_delimited decode \<longleftrightarrow>
     decode True [] = [Ends] \<and> decode False [] = [Silent] \<and>
     (\<forall>hung_up body rest. length body \<le> MAX_FRAME_BYTES \<longrightarrow>
        decode hung_up (framed body @ rest) = Arrives body # decode hung_up rest) \<and>
     (\<forall>hung_up size rest. MAX_FRAME_BYTES < unat size \<longrightarrow>
        decode hung_up (to_be_bytes size @ rest) = [OverLimit]) \<and>
     (\<forall>part. incomplete part \<longrightarrow> decode False part = [Silent] \<and> (\<exists>e. decode True part = [Breaks e]))"

lemma length_framed [simp]: "length (framed body) = 4 + length body"
  by (simp add: framed_def)

lemma framed_not_Nil [simp]: "framed body \<noteq> []"
  using length_framed [of body] by fastforce

lemma to_be_bytes_not_Nil [simp]: "to_be_bytes w \<noteq> []"
  using length_to_be_bytes [of w] by fastforce

lemma frame_size: "length body \<le> MAX_FRAME_BYTES \<Longrightarrow> unat (of_nat (length body) :: u32) = length body"
  by (simp add: unat_of_nat MAX_FRAME_BYTES_def)

lemma framed_incomplete:
  assumes "length body \<le> MAX_FRAME_BYTES" and "framed body = part @ left" and "part \<noteq> []" and "left \<noteq> []"
  shows "incomplete part"
proof (cases "length part < 4")
  case False
  then have "take 4 part = take 4 (framed body)" unfolding assms(2) by simp
  then have "take 4 part = to_be_bytes (of_nat (length body))" by (simp add: framed_def)
  moreover have "length part + length left = 4 + length body"
    using arg_cong [OF assms(2), of length] by simp
  ultimately have "length part < 4 + length body" using assms(4) by (cases left) simp_all
  then show ?thesis
    using assms(1,3) \<open>take 4 part = to_be_bytes (of_nat (length body))\<close> by (simp add: incomplete_def frame_size)
qed (use assms(3) in \<open>simp add: incomplete_def\<close>)

text \<open>Whatever part of a sequence of frames has been read, it yields the first of those frames.\<close>

lemma decode_frames:
  assumes codec: "length_delimited decode"
  shows "\<forall>b\<in>set bs. length b \<le> MAX_FRAME_BYTES \<Longrightarrow>
    decode hung_up (concat (map framed bs) @ rest) = map Arrives bs @ decode hung_up rest"
  using codec by (induction bs) (auto simp: length_delimited_def)

lemma decode_over:
  assumes "length_delimited decode" and "MAX_FRAME_BYTES < unat header"
  shows "decode hung_up (to_be_bytes header) = [OverLimit]" "decode hung_up (to_be_bytes header @ rest) = [OverLimit]"
proof -
  show over: "decode hung_up (to_be_bytes header @ rest) = [OverLimit]" for rest
    using assms unfolding length_delimited_def by blast
  show "decode hung_up (to_be_bytes header) = [OverLimit]" using over [of "[]"] by simp
qed

lemma decode_part:
  assumes codec: "length_delimited decode"
  shows "\<forall>b\<in>set bs. length b \<le> MAX_FRAME_BYTES \<Longrightarrow> concat (map framed bs) = out @ left \<Longrightarrow>
    \<exists>k\<le>length bs. decode False out = map Arrives (take k bs) @ [Silent] \<and> (left = [] \<longrightarrow> k = length bs)"
proof (induction bs arbitrary: out)
  case Nil
  then show ?case using codec by (simp add: length_delimited_def)
next
  case (Cons b bs)
  have b: "length b \<le> MAX_FRAME_BYTES" using Cons.prems(1) by simp
  have "framed b @ concat (map framed bs) = out @ left" using Cons.prems(2) by simp
  then obtain us where us: "framed b = out @ us \<and> us @ concat (map framed bs) = left \<or>
      framed b @ us = out \<and> concat (map framed bs) = us @ left"
    unfolding append_eq_append_conv2 by blast
  show ?case
  proof (cases "framed b = out @ us \<and> us \<noteq> []")
    case True
    then have "decode False out = [Silent]"
      using codec framed_incomplete [OF b, of out us] by (cases "out = []") (auto simp: length_delimited_def)
    moreover have "left \<noteq> []" using True us by auto
    ultimately show ?thesis by (intro exI [of _ 0]) simp
  next
    case False
    then obtain vs where more: "out = framed b @ vs" "concat (map framed bs) = vs @ left"
      using us by (metis append_Nil append_Nil2)
    from Cons.IH [OF _ more(2)] Cons.prems(1) obtain k where
      "k \<le> length bs" "decode False vs = map Arrives (take k bs) @ [Silent]" "left = [] \<longrightarrow> k = length bs" by auto
    then show ?thesis using codec b more(1) by (intro exI [of _ "Suc k"]) (simp add: length_delimited_def)
  qed
qed

section \<open>The fixture\<close>

definition NONCE :: nonce where "NONCE = replicate 16 7"

definition Echo :: "(unit, unit, unit) app" where
  "Echo = \<lparr>validate = (\<lambda>_. Ok ()), command_timeout = (\<lambda>_. 1000), dispatch = (\<lambda>s _ _. (Some (RespOk ()), s))\<rparr>"

definition Echo_VERSION :: string where "Echo_VERSION = ''9.9.9''"

datatype Then = HangUp | Wait

definition fixture_peer :: PeerCheck where
  "fixture_peer = \<lparr>check_method = ''peercred'', check_subject = ''uid=0''\<rparr>"

text \<open>\<open>None\<close> is the panic of a frame that does not serialize.\<close>

definition json :: "(unit, unit) serde \<Rightarrow> (unit, unit) Frame \<Rightarrow> bytes option" where
  "json js frame = map_option framed (to_vec js frame)"

definition fixture_hello :: "u16 \<Rightarrow> u16 \<Rightarrow> Hello" where
  "fixture_hello major minor =
     \<lparr>proto_major = major, proto_minor = minor, client_version = ''0.1.0'', hello_nonce = replicate 16 1\<rparr>"

definition hello :: "(unit, unit) serde \<Rightarrow> u16 \<Rightarrow> u16 \<Rightarrow> bytes option" where
  "hello js major minor = json js (FHello (fixture_hello major minor))"

definition request :: "(unit, unit) serde \<Rightarrow> bytes option" where
  "request js = json js (FRequest \<lparr>req_id = 1, req_cmd = ()\<rparr>)"

definition fixture_answer :: "u16 \<Rightarrow> ErrorBody option \<Rightarrow> ServerHello" where
  "fixture_answer minor rejection =
     \<lparr>accepted = (rejection = None), server_proto_major = PROTOCOL_MAJOR, server_proto_minor = minor,
      helper_version = Echo_VERSION, server_nonce = NONCE, server_peer_check = fixture_peer,
      reject = rejection\<rparr>"

definition server_hello :: "(unit, unit) serde \<Rightarrow> u16 \<Rightarrow> ErrorBody option \<Rightarrow> bytes option" where
  "server_hello js minor rejection = json js (FServerHello (fixture_answer minor rejection))"

text \<open>\<open>escape_ascii\<close>, byte by byte.\<close>

definition escape_byte :: "u8 \<Rightarrow> string" where
  "escape_byte b =
     (if b = 9 then [CHR 92, CHR ''t''] else if b = 13 then [CHR 92, CHR ''r'']
      else if b = 10 then [CHR 92, CHR ''n'']
      else if b = 39 \<or> b = 34 \<or> b = 92 then [CHR 92, char_of (unat b)]
      else if 32 \<le> b \<and> b < 127 then [char_of (unat b)]
      else [CHR 92, CHR ''x'', hex_digit (unat b div 16), hex_digit (unat b)])"

definition shown :: "bytes \<Rightarrow> string" where
  "shown bytes = concat (map escape_byte bytes)"

definition refusal :: "(unit, unit) serde \<Rightarrow> ErrorCode \<Rightarrow> string \<Rightarrow> string option" where
  "refusal js c msg = map_option shown (server_hello js PROTOCOL_MINOR (Some (new_error_body c msg)))"

text \<open>
  How long the daemon waited in all, from what was to arrive and what it left: it goes on to what
  arrives at once, and a silence costs it the deadline of the hello or of a request.
\<close>

definition daemon_waited :: "arrival list \<Rightarrow> arrival list \<Rightarrow> nat" where
  "daemon_waited arriving left =
     (let read = take (length arriving - length left) arriving
      in if read = [] \<or> last read \<noteq> Silent then 0
         else if length read = 1 then HANDSHAKE_TIMEOUT_MS else IDLE_TIMEOUT_MS)"

text \<open>
  The client writes its bytes into a pipe that holds 256 KiB, hangs up or waits, and only then reads
  until the daemon closes, for twice the handshake deadline at most.  \<open>None\<close> is the panic at that
  deadline, and stands as well for more bytes than the pipe holds: then the write itself depends on
  what the daemon reads and answers in the meantime, and nothing is claimed.  Bytes that fit are
  written before the daemon takes its first turn.
\<close>

definition DUPLEX_BYTES :: nat where "DUPLEX_BYTES = 256 * 1024"

definition wire_after :: "(unit, unit) serde \<Rightarrow> decoder \<Rightarrow> bytes \<Rightarrow> Then \<Rightarrow> string option" where
  "wire_after js decode bytes what_then =
     (let arriving = decode (what_then = HangUp) bytes
      in case handle_conn_with_nonce js Echo Echo_VERSION fixture_peer NONCE () (fresh_framer arriving) of
        (_, fr, _, _) \<Rightarrow>
          if length bytes \<le> DUPLEX_BYTES \<and> daemon_waited arriving (inbound fr) \<le> 2 * HANDSHAKE_TIMEOUT_MS
          then Some (shown (concat (map framed (sent fr))))
          else None)"

text \<open>What the tests compare: the client sees the refusal, and neither side of the comparison panics.\<close>

definition sees_refusal :: "(unit, unit) serde \<Rightarrow> decoder \<Rightarrow> bytes \<Rightarrow> Then \<Rightarrow> ErrorCode \<Rightarrow> string \<Rightarrow> bool" where
  "sees_refusal js decode bytes what_then c msg \<longleftrightarrow>
     (\<exists>s. refusal js c msg = Some s \<and> wire_after js decode bytes what_then = Some s)"

section \<open>Lemmas\<close>

text \<open>Different bytes are shown differently, so that a test that compares what is shown compares bytes.\<close>

fun hex_value :: "char \<Rightarrow> nat" where
  "hex_value c = (let n = of_char c in if n < 58 then n - 48 else n - 87)"

lemma hex_value_digit: "hex_value (hex_digit n) = n mod 16"
proof -
  have "list_all (\<lambda>m. hex_value (''0123456789abcdef'' ! m) = m) [0..<16]" by code_simp
  then show ?thesis by (simp add: hex_digit_def list_all_iff del: hex_value.simps)
qed

fun unescape :: "string \<Rightarrow> u8 \<times> string" where
  "unescape (c # cs) =
     (if c \<noteq> CHR 92 then (of_nat (of_char c), cs)
      else case cs of
        e # rest \<Rightarrow>
          if e = CHR ''t'' then (9, rest) else if e = CHR ''r'' then (13, rest) else if e = CHR ''n'' then (10, rest)
          else if e = CHR ''x'' then (of_nat (16 * hex_value (rest ! 0) + hex_value (rest ! 1)), drop 2 rest)
          else (of_nat (of_char e), rest)
      | [] \<Rightarrow> (0, []))"
| "unescape [] = (0, [])"

lemma unescape_byte: "unescape (escape_byte b @ rest) = (b, rest)"
proof (cases "b = 9 \<or> b = 13 \<or> b = 10 \<or> b = 39 \<or> b = 34 \<or> b = 92")
  case True
  then show ?thesis by (elim disjE) (simp_all add: escape_byte_def char_of_def bit_simps)
next
  case False
  have n: "unat b < 256" using unsigned_less [of b] by simp
  then have c: "of_char (char_of (unat b) :: char) = unat b" by simp
  have "b = 92" if "unat b = 92"
    using arg_cong [OF that, of "of_nat :: nat \<Rightarrow> u8"] by simp
  then have "unat b \<noteq> 92" using False by blast
  moreover have "of_char (CHR 92) = unat b" if "char_of (unat b) = CHR 92"
    using c unfolding that .
  ultimately have "char_of (unat b) \<noteq> CHR 92" by auto
  moreover have "16 * of_nat (unat b div 16) + of_nat (unat b mod 16) = b"
  proof -
    have "16 * of_nat (unat b div 16) + of_nat (unat b mod 16) = (of_nat (16 * (unat b div 16) + unat b mod 16) :: u8)"
      by (simp only: of_nat_add of_nat_mult of_nat_numeral)
    then show ?thesis by simp
  qed
  ultimately show ?thesis
    using False c n by (simp add: escape_byte_def hex_value_digit del: hex_value.simps)
qed

lemma shown_inject: "shown a = shown b \<longleftrightarrow> a = b"
proof
  show "shown a = shown b \<Longrightarrow> a = b"
  proof (induction a arbitrary: b)
    case Nil
    then show ?case by (cases b) (simp_all add: shown_def escape_byte_def split: if_splits)
  next
    case (Cons x a)
    then obtain y b' where b: "b = y # b'"
      by (cases b) (simp_all add: shown_def escape_byte_def split: if_splits)
    then have "escape_byte x @ shown a = escape_byte y @ shown b'" using Cons.prems by (simp add: shown_def)
    then have "x = y \<and> shown a = shown b'" using unescape_byte by (metis prod.inject)
    then show ?case using Cons.IH b by simp
  qed
qed simp

text \<open>A connection of the fixture, refused or served.\<close>

lemma fixture_config: "conn_config Echo_VERSION fixture_peer =
    \<lparr>server_major = PROTOCOL_MAJOR, server_minor = PROTOCOL_MINOR, config_helper_version = Echo_VERSION,
     peer_check = fixture_peer\<rparr>"
  by (simp add: conn_config_def)

definition opened_wrong :: "(unit, unit) serde \<Rightarrow> arrival \<Rightarrow> bool" where
  "opened_wrong js a \<longleftrightarrow> (\<nexists>b h. a = Arrives b \<and> from_slice js b = Some (FHello h))"

text \<open>A daemon that stops at the first arrival has waited for the hello at most.\<close>

lemma waited_for_hello: "daemon_waited (a # rest) rest \<le> 2 * HANDSHAKE_TIMEOUT_MS"
  by (simp add: daemon_waited_def Let_def)

lemma read_hello_inbound: "read_hello js fr = (r, fr') \<Longrightarrow> inbound fr' = tl (inbound fr)"
  by (cases "inbound fr") (auto simp: read_hello_def recv_frame_def Let_def)

lemma server_handshake_inbound:
  "server_handshake js config nonce fr = (r, fr') \<Longrightarrow> inbound fr' = tl (inbound fr)"
proof -
  assume shake: "server_handshake js config nonce fr = (r, fr')"
  obtain x fr1 where read: "read_hello js fr = (x, fr1)" by (cases "read_hello js fr")
  have "\<exists>f. fr' = snd (send_frame js f fr1)"
    using shake read by (auto simp: server_handshake_def split: prod.splits sum.splits) (metis snd_conv)+
  then have "inbound fr' = inbound fr1" using send_frame_inbound by (metis prod.collapse)
  then show ?thesis using read_hello_inbound [OF read] by simp
qed

lemma refused_shown:
  assumes "decode (what_then = HangUp) bytes = a # rest" and "opened_wrong js a"
    and "opening_refusal js a = new_error_body c msg" and "length bytes \<le> DUPLEX_BYTES"
    and "fits js (FServerHello (fixture_answer PROTOCOL_MINOR (Some (new_error_body c msg))))"
  shows "sees_refusal js decode bytes what_then c msg"
proof -
  have answer: "refusal_hello (conn_config Echo_VERSION fixture_peer) NONCE (opening_refusal js a) =
      fixture_answer PROTOCOL_MINOR (Some (new_error_body c msg))"
    by (simp add: refusal_hello_def fixture_answer_def conn_config_def assms(3))
  have "(\<exists>e. fst (server_handshake js (conn_config Echo_VERSION fixture_peer) NONCE (fresh_framer (a # rest))) = Err e) \<and>
      sent (snd (server_handshake js (conn_config Echo_VERSION fixture_peer) NONCE (fresh_framer (a # rest)))) =
        [the (to_vec js (FServerHello (fixture_answer PROTOCOL_MINOR (Some (new_error_body c msg)))))]"
    using opening_refused [of "fresh_framer (a # rest)" a rest js "conn_config Echo_VERSION fixture_peer" NONCE]
      assms(2,5) by (simp add: answer opened_wrong_def) (simp add: fresh_framer_def)
  then obtain e fr where "server_handshake js (conn_config Echo_VERSION fixture_peer) NONCE (fresh_framer (a # rest)) = (Err e, fr)"
      "sent fr = [the (to_vec js (FServerHello (fixture_answer PROTOCOL_MINOR (Some (new_error_body c msg)))))]"
    by (metis prod.collapse)
  moreover from server_handshake_inbound [OF this(1)] have "inbound fr = rest" by (simp add: fresh_framer_def)
  ultimately show ?thesis
    using assms(1,4,5) waited_for_hello [of a rest]
    by (auto simp: sees_refusal_def wire_after_def refusal_def server_hello_def json_def handle_conn_with_nonce_def Let_def
        fixture_config [symmetric] fits_def split: option.splits)
qed

lemma version_refused_shown:
  assumes "decode (what_then = HangUp) bytes = Arrives b # rest" and "from_slice js b = Some (FHello (fixture_hello major minor))"
    and "major \<noteq> PROTOCOL_MAJOR"
    and "msg = ''protocolo major '' @ show_nat (unat major) @ '' nao suportado (helper fala 1)''"
    and "length bytes \<le> DUPLEX_BYTES"
    and "fits js (FServerHello (fixture_answer PROTOCOL_MINOR (Some (new_error_body version_unsupported msg))))"
  shows "sees_refusal js decode bytes what_then version_unsupported msg"
proof -
  let ?config = "conn_config Echo_VERSION fixture_peer"
  have "show_nat 1 = ''1''" by code_simp
  then have answer: "answer_hello ?config NONCE (fixture_hello major minor) =
      fixture_answer PROTOCOL_MINOR (Some (new_error_body version_unsupported msg))"
    using assms(3,4) by (simp add: answer_hello_def fixture_answer_def conn_config_def version_refusal_def
        fixture_hello_def PROTOCOL_MAJOR_def)
  have "reliable ((fresh_framer (Arrives b # rest))\<lparr>inbound := rest\<rparr>)" by (simp add: fresh_framer_def reliable_def)
  from send_frame_fits [OF assms(6) this]
  have "\<exists>shake fr. server_handshake js ?config NONCE (fresh_framer (Arrives b # rest)) = (Ok shake, fr) \<and>
      \<not> result_accepted shake \<and>
      sent fr = [the (to_vec js (FServerHello (fixture_answer PROTOCOL_MINOR (Some (new_error_body version_unsupported msg)))))]"
    unfolding server_handshake_ok using assms(2,3)
    by (simp add: fresh_framer_def answer conn_config_def [symmetric])
      (simp add: conn_config_def fixture_hello_def)
  then obtain shake fr where shake: "server_handshake js ?config NONCE (fresh_framer (Arrives b # rest)) = (Ok shake, fr)"
      "\<not> result_accepted shake"
      "sent fr = [the (to_vec js (FServerHello (fixture_answer PROTOCOL_MINOR (Some (new_error_body version_unsupported msg)))))]"
    by blast
  from server_handshake_inbound [OF shake(1)] have "inbound fr = rest" by (simp add: fresh_framer_def)
  then show ?thesis
    using assms(1,5,6) shake waited_for_hello [of "Arrives b" rest]
    by (auto simp: sees_refusal_def wire_after_def refusal_def server_hello_def json_def handle_conn_with_nonce_def Let_def
        fixture_config [symmetric] fits_def split: option.splits)
qed

lemma data_goes_on: "\<not> ended (map (\<lambda>p. Dictionary (Some p)) ps)"
  by (induction ps) auto

section \<open>Properties\<close>

text \<open>
  C12: frames survive the connection.  However the writer cuts the bytes of its frames into writes,
  however the data is queued and whatever the sizes of the reads, what has been read of an XPC
  connection at any moment yields the first of the frames that were written, unchanged and in
  order; and all of them once everything has arrived and been read.
\<close>

theorem frames_cross_xpc:
  assumes "length_delimited decode" and "\<forall>b\<in>set bs. length b \<le> MAX_FRAME_BYTES"
    and "concat writes = concat (map framed bs)"
    and "events_of ops @ later =
      map (\<lambda>p. Dictionary (Some p)) (payloads (concat (map (\<lambda>w. snd (poll_write w writer)) writes)))"
    and "run_stream r ops = (ch, conn, out)"
  shows "\<exists>k\<le>length bs. decode False out = map Arrives (take k bs) @ [Silent] \<and>
    (later = [] \<and> pending conn = [] \<and> queued ch = [] \<longrightarrow> k = length bs)"
proof -
  have "out @ pending conn @ concat (queued ch) = arrived (events_of ops)"
    using run_stream_inv [OF assms(5)] by (simp add: stream_inv_def)
  moreover have "arrived (events_of ops @ later) = concat (map framed bs)"
    unfolding assms(4) using written_arrives [of writer writes] assms(3) by simp
  moreover have "\<not> ended (events_of ops @ later)"
    unfolding assms(4) by (rule data_goes_on)
  ultimately have "concat (map framed bs) = out @ pending conn @ concat (queued ch) @ arrived later"
    by (simp add: arrived_append) (metis append_assoc)
  from decode_part [OF assms(1,2) this] show ?thesis by auto
qed

lemma session_shown:
  assumes "length_delimited decode"
    and "fits js (FHello (fixture_hello PROTOCOL_MAJOR minor))" and "fits js (FRequest \<lparr>req_id = 1, req_cmd = ()\<rparr>)"
    and "fits js (FServerHello (fixture_answer (min minor PROTOCOL_MINOR) None))"
    and "fits js (FResponse \<lparr>resp_id = 1, resp_payload = RespOk ()\<rparr>)"
    and "hello js PROTOCOL_MAJOR minor = Some opening" and "request js = Some asked"
    and "server_hello js (min minor PROTOCOL_MINOR) None = Some greeting"
    and "json js (FResponse \<lparr>resp_id = 1, resp_payload = RespOk ()\<rparr>) = Some reply"
    and "length (opening @ concat (replicate n asked)) \<le> DUPLEX_BYTES"
  shows "wire_after js decode (opening @ concat (replicate n asked)) what_then =
    (if what_then = HangUp then Some (shown (greeting @ concat (replicate n reply))) else None)"
proof -
  let ?hello = "fixture_hello PROTOCOL_MAJOR minor" and ?req = "\<lparr>req_id = 1, req_cmd = ()\<rparr>"
    and ?resp = "\<lparr>resp_id = 1, resp_payload = RespOk ()\<rparr>" and ?config = "conn_config Echo_VERSION fixture_peer"
  obtain h r where h: "to_vec js (FHello ?hello) = Some h" "opening = framed h" "length h \<le> MAX_FRAME_BYTES"
      "from_slice js h = Some (FHello ?hello)"
    and r: "to_vec js (FRequest ?req) = Some r" "asked = framed r" "length r \<le> MAX_FRAME_BYTES"
      "from_slice js r = Some (FRequest ?req)"
    using assms(2,3,6,7) by (auto simp: fits_def hello_def request_def json_def split: option.splits)
  define last_one where "last_one = (if what_then = HangUp then Ends else Silent)"
  define rest where "rest = replicate n (Arrives r) @ [last_one]"
  have "concat (map framed (h # replicate n r)) @ [] = opening @ concat (replicate n asked)"
    by (simp add: h(2) r(2))
  moreover have "decode (what_then = HangUp) (concat (map framed (h # replicate n r)) @ []) = Arrives h # rest"
    unfolding rest_def last_one_def using assms(1) h(3) r(3)
    by (subst decode_frames [OF assms(1)]) (auto simp: length_delimited_def)
  ultimately have arrive: "decode (what_then = HangUp) (opening @ concat (replicate n asked)) = Arrives h # rest" by simp
  have one: "is_request js (Arrives r)" "request_of js (Arrives r) = ?req" by (simp_all add: r(4))
  have "takeWhile (is_request js) rest = replicate n (Arrives r) \<and> dropWhile (is_request js) rest = [last_one]"
    unfolding rest_def last_one_def by (induction n) (simp, simp add: one(1) del: is_request.simps(1))
  then have served: "takeWhile (is_request js) rest = replicate n (Arrives r)" "dropWhile (is_request js) rest = [last_one]"
    by simp_all
  then have reqs: "replicate n ?req = map (request_of js) (takeWhile (is_request js) rest)"
    by (simp add: served one(2) del: request_of.simps)
  have greets: "answer_hello ?config NONCE ?hello = fixture_answer (min minor PROTOCOL_MINOR) None"
    by (simp add: answer_hello_def fixture_answer_def conn_config_def fixture_hello_def)
  have answers: "responses Echo () (replicate n ?req) = replicate n ?resp"
    by (induction n) (simp_all add: answer_request_def Echo_def)
  have major: "proto_major ?hello = PROTOCOL_MAJOR" by (simp add: fixture_hello_def)
  have nonce: "random_nonce (\<lambda>_. Ok NONCE) = Ok NONCE"
    by (simp add: random_nonce_def read_nonce_def NONCE_def)
  have "\<exists>fr'. handle_conn js Echo Echo_VERSION fixture_peer (\<lambda>_. Ok NONCE) () (fresh_framer (Arrives h # rest)) =
      (Ok (), fr', state_after Echo () (replicate n ?req), valid_cmds Echo (replicate n ?req)) \<and>
    sent fr' = sent (fresh_framer (Arrives h # rest)) @
      the (to_vec js (FServerHello (answer_hello ?config NONCE ?hello))) #
      map (\<lambda>r. the (to_vec js (FResponse r))) (responses Echo () (replicate n ?req))"
    by (rule handle_conn_contract [OF _ h(4) major nonce _ reqs])
      (use assms(4,5) in \<open>simp_all add: fresh_framer_def reliable_def greets answers list_all_iff\<close>)
  then obtain fr' where run: "handle_conn_with_generator js Echo Echo_VERSION fixture_peer (Inr NONCE) () (fresh_framer (Arrives h # rest)) =
      (Ok (), fr', state_after Echo () (replicate n ?req), valid_cmds Echo (replicate n ?req))"
    "sent fr' = the (to_vec js (FServerHello (fixture_answer (min minor PROTOCOL_MINOR) None))) #
      replicate n (the (to_vec js (FResponse ?resp)))"
    unfolding handle_conn_def nonce greets answers by (auto simp: fresh_framer_def)
  have "inbound fr' = []"
    using handle_conn_reads [OF run(1) _ h(4) major refl, of rest] by (simp add: fresh_framer_def served(2))
  then have "daemon_waited (Arrives h # rest) (inbound fr') \<le> 2 * HANDSHAKE_TIMEOUT_MS \<longleftrightarrow> what_then = HangUp"
    by (simp add: daemon_waited_def rest_def last_one_def HANDSHAKE_TIMEOUT_MS_def IDLE_TIMEOUT_MS_def Let_def)
  then show ?thesis
    using arrive run assms(8-10)
    by (auto simp: wire_after_def handle_conn_with_generator_def server_hello_def json_def Let_def)
qed

text \<open>
  C13: what the fixture sees of the daemon.  With any codec that frames by length and any JSON that
  reads back what it writes, a hello of the daemon's major version and any number of requests that
  fit into the fixture's pipe are answered, byte for byte, with the server hello of the smaller minor
  version and a response for each request, and nothing more, once the client hangs up.  If it waits
  instead, the daemon waits for its next request, and the fixture panics at its deadline.
\<close>

theorem wire_session:
  assumes "length_delimited decode"
    and "fits js (FHello (fixture_hello PROTOCOL_MAJOR minor))" and "fits js (FRequest \<lparr>req_id = 1, req_cmd = ()\<rparr>)"
    and "fits js (FServerHello (fixture_answer (min minor PROTOCOL_MINOR) None))"
    and "fits js (FResponse \<lparr>resp_id = 1, resp_payload = RespOk ()\<rparr>)"
    and "hello js PROTOCOL_MAJOR minor = Some opening" and "request js = Some asked"
    and "server_hello js (min minor PROTOCOL_MINOR) None = Some greeting"
    and "json js (FResponse \<lparr>resp_id = 1, resp_payload = RespOk ()\<rparr>) = Some reply"
    and "length (opening @ concat (replicate n asked)) \<le> DUPLEX_BYTES"
  shows "wire_after js decode (opening @ concat (replicate n asked)) what_then =
    (if what_then = HangUp then Some (shown (greeting @ concat (replicate n reply))) else None)"
  by (rule session_shown [OF assms])

text \<open>
  What a client sees when it is refused.  A request before the hello, JSON that reads as
  nothing, a header above the limit, silence, a stream that ends before the hello or in the middle
  of it, and a hello of another major version: each is answered, byte for byte, with one refusal
  under its own code and message, after which the daemon closes.
\<close>

theorem wire_refusals:
  assumes "length_delimited decode"
    and "\<And>c msg. (c, msg) \<in> {(handshake_required, ''Request recebido antes do Hello''),
        (malformed_frame, ''frame de handshake malformado''), (frame_too_large, ''frame de handshake acima do teto''),
        (handshake_required, ''handshake nao recebido dentro do prazo''),
        (handshake_required, ''conexao fechada antes do handshake''),
        (handshake_required, ''conexao interrompida antes do handshake''),
        (version_unsupported, ''protocolo major '' @ show_nat (unat major) @ '' nao suportado (helper fala 1)'')} \<Longrightarrow>
        fits js (FServerHello (fixture_answer PROTOCOL_MINOR (Some (new_error_body c msg))))"
    and "fits js (FRequest \<lparr>req_id = 1, req_cmd = ()\<rparr>)" and "request js = Some asked"
    and "from_slice js bad = None" and "length bad \<le> MAX_FRAME_BYTES" and "MAX_FRAME_BYTES < unat header" and "incomplete part"
    and "fits js (FHello (fixture_hello major minor))" and "hello js major minor = Some opening"
    and "major \<noteq> PROTOCOL_MAJOR"
  shows "sees_refusal js decode asked Wait handshake_required ''Request recebido antes do Hello'' \<and>
    sees_refusal js decode (framed bad) Wait malformed_frame ''frame de handshake malformado'' \<and>
    sees_refusal js decode (to_be_bytes header) Wait frame_too_large ''frame de handshake acima do teto'' \<and>
    sees_refusal js decode [] Wait handshake_required ''handshake nao recebido dentro do prazo'' \<and>
    sees_refusal js decode [] HangUp handshake_required ''conexao fechada antes do handshake'' \<and>
    sees_refusal js decode part HangUp handshake_required ''conexao interrompida antes do handshake'' \<and>
    sees_refusal js decode opening Wait version_unsupported
        (''protocolo major '' @ show_nat (unat major) @ '' nao suportado (helper fala 1)'')"
proof -
  obtain r where r: "asked = framed r" "length r \<le> MAX_FRAME_BYTES"
      "from_slice js r = Some (FRequest \<lparr>req_id = 1, req_cmd = ()\<rparr>)"
    using assms(3,4) by (auto simp: fits_def request_def json_def split: option.splits)
  obtain h where h: "opening = framed h" "length h \<le> MAX_FRAME_BYTES"
      "from_slice js h = Some (FHello (fixture_hello major minor))"
    using assms(9,10) by (auto simp: fits_def hello_def json_def split: option.splits)
  have one: "decode hung_up (framed b) = Arrives b # decode hung_up []" if "length b \<le> MAX_FRAME_BYTES" for b hung_up
    using decode_frames [OF assms(1), of "[b]" hung_up "[]"] that by simp
  have over: "decode False (to_be_bytes header) = [OverLimit]"
    by (rule decode_over [OF assms(1,7)])
  obtain e where part: "decode True part = [Breaks e]" using assms(1,8) by (auto simp: length_delimited_def)
  have ends: "decode True [] = [Ends]" "decode False [] = [Silent]"
    using assms(1) by (simp_all add: length_delimited_def)
  have small: "length (framed b) \<le> DUPLEX_BYTES" if "length b \<le> MAX_FRAME_BYTES" for b
    using that by (simp add: DUPLEX_BYTES_def MAX_FRAME_BYTES_def)
  have "length part \<le> DUPLEX_BYTES"
    using assms(8) by (auto simp: incomplete_def DUPLEX_BYTES_def MAX_FRAME_BYTES_def Let_def)
  moreover have "length (to_be_bytes header) \<le> DUPLEX_BYTES" by (simp add: DUPLEX_BYTES_def)
  ultimately have sizes: "4 + length r \<le> DUPLEX_BYTES" "4 + length bad \<le> DUPLEX_BYTES" "4 + length h \<le> DUPLEX_BYTES"
      "length part \<le> DUPLEX_BYTES" "4 \<le> DUPLEX_BYTES"
    using small r(2) h(2) assms(6) by simp_all
  show ?thesis
  proof (intro conjI)
    show "sees_refusal js decode asked Wait handshake_required ''Request recebido antes do Hello''"
      by (rule refused_shown [of decode Wait asked "Arrives r" "[Silent]"]) (use assms(2) one r ends in \<open>simp_all add: opened_wrong_def sizes\<close>)
    show "sees_refusal js decode (framed bad) Wait malformed_frame ''frame de handshake malformado''"
      by (rule refused_shown [of decode Wait "framed bad" "Arrives bad" "[Silent]"]) (use assms(2,5,6) one ends in \<open>simp_all add: opened_wrong_def sizes\<close>)
    show "sees_refusal js decode (to_be_bytes header) Wait frame_too_large ''frame de handshake acima do teto''"
      by (rule refused_shown [of decode Wait "to_be_bytes header" OverLimit "[]"]) (use assms(2) over in \<open>simp_all add: opened_wrong_def sizes\<close>)
    show "sees_refusal js decode [] Wait handshake_required ''handshake nao recebido dentro do prazo''"
      by (rule refused_shown [of decode Wait "[]" Silent "[]"]) (use assms(2) ends in \<open>simp_all add: opened_wrong_def sizes\<close>)
    show "sees_refusal js decode [] HangUp handshake_required ''conexao fechada antes do handshake''"
      by (rule refused_shown [of decode HangUp "[]" Ends "[]"]) (use assms(2) ends in \<open>simp_all add: opened_wrong_def sizes\<close>)
    show "sees_refusal js decode part HangUp handshake_required ''conexao interrompida antes do handshake''"
      by (rule refused_shown [of decode HangUp part "Breaks e" "[]"]) (use assms(2) part in \<open>simp_all add: opened_wrong_def sizes\<close>)
    show "sees_refusal js decode opening Wait version_unsupported
        (''protocolo major '' @ show_nat (unat major) @ '' nao suportado (helper fala 1)'')"
      by (rule version_refused_shown [of decode Wait "opening" h "[Silent]" js major minor])
        (use assms(2,11) one h ends sizes in simp_all)
  qed
qed

section \<open>An example\<close>

text \<open>A codec that does what the documentation says.\<close>

function frames_of :: decoder where
  "frames_of hung_up bytes =
     (if bytes = [] then [if hung_up then Ends else Silent]
      else if incomplete bytes then [if hung_up then Breaks unexpected_eof else Silent]
      else let n = unat (from_be_bytes (take 4 bytes))
           in if MAX_FRAME_BYTES < n then [OverLimit]
              else Arrives (take n (drop 4 bytes)) # frames_of hung_up (drop (4 + n) bytes))"
  by pat_completeness auto
termination
  by (relation "measure (\<lambda>(_, bytes). length bytes)") auto

declare frames_of.simps [simp del]

lemma frames_of_delimited: "length_delimited frames_of"
  unfolding length_delimited_def
proof (intro conjI allI impI)
  fix hung_up and body rest :: bytes assume b: "length body \<le> MAX_FRAME_BYTES"
  have "\<not> incomplete (framed body @ rest)"
    using b by (auto simp: incomplete_def framed_def frame_size)
  then show "frames_of hung_up (framed body @ rest) = Arrives body # frames_of hung_up rest"
    using b by (subst frames_of.simps) (simp add: framed_def frame_size Let_def)
next
  fix hung_up header rest assume "MAX_FRAME_BYTES < unat (header :: u32)"
  moreover have "\<not> incomplete (to_be_bytes header @ rest)" using calculation by (simp add: incomplete_def Let_def)
  ultimately show "frames_of hung_up (to_be_bytes header @ rest) = [OverLimit]"
    by (subst frames_of.simps) (simp add: Let_def)
next
  fix part assume "incomplete part"
  moreover then have "part \<noteq> []" by (simp add: incomplete_def)
  ultimately show "frames_of False part = [Silent]" "\<exists>e. frames_of True part = [Breaks e]"
    by (subst frames_of.simps, simp)+
qed (subst frames_of.simps, simp)+

definition example_refusals :: "(ErrorCode \<times> string) list" where
  "example_refusals =
     [(handshake_required, ''Request recebido antes do Hello''),
      (malformed_frame, ''frame de handshake malformado''), (frame_too_large, ''frame de handshake acima do teto''),
      (handshake_required, ''handshake nao recebido dentro do prazo''),
      (handshake_required, ''conexao fechada antes do handshake''),
      (handshake_required, ''conexao interrompida antes do handshake''),
      (version_unsupported, ''protocolo major '' @ show_nat (unat (2 :: u16)) @ '' nao suportado (helper fala 1)'')]"

definition fixture_serde :: "(unit, unit) serde" where
  "fixture_serde = table_serde
     ([FHello (fixture_hello PROTOCOL_MAJOR 0), FHello (fixture_hello 2 0), FRequest \<lparr>req_id = 1, req_cmd = ()\<rparr>,
       FServerHello (fixture_answer (min 0 PROTOCOL_MINOR) None), FResponse \<lparr>resp_id = 1, resp_payload = RespOk ()\<rparr>] @
      map (\<lambda>(c, msg). FServerHello (fixture_answer PROTOCOL_MINOR (Some (new_error_body c msg)))) example_refusals)"

lemma fixture_fits:
  "f \<in> {FHello (fixture_hello PROTOCOL_MAJOR 0), FHello (fixture_hello 2 0), FRequest \<lparr>req_id = 1, req_cmd = ()\<rparr>,
     FServerHello (fixture_answer (min 0 PROTOCOL_MINOR) None), FResponse \<lparr>resp_id = 1, resp_payload = RespOk ()\<rparr>} \<Longrightarrow>
   fits fixture_serde f"
  unfolding fixture_serde_def by (rule fits_table) (auto simp: example_refusals_def)

lemma fixture_refusals_fit:
  "(c, msg) \<in> set example_refusals \<Longrightarrow>
   fits fixture_serde (FServerHello (fixture_answer PROTOCOL_MINOR (Some (new_error_body c msg))))"
  unfolding fixture_serde_def by (rule fits_table) (force, simp add: example_refusals_def)

lemma fits_json: "fits js f \<Longrightarrow> json js f = Some (the (json js f))"
  by (auto simp: fits_def json_def split: option.splits)

theorem frames_cross_xpc_witness:
  "\<exists>ch conn out k. run_stream 1 [Event (Dictionary (Some [0, 0])), Event (Dictionary (Some [0, 1, 9, 0])), Read 4, Read 100] =
      (ch, conn, out) \<and> k \<le> 2 \<and> frames_of False out = map Arrives (take k [[9], []]) @ [Silent]"
proof -
  let ?ops = "[Event (Dictionary (Some [0, 0])), Event (Dictionary (Some [0, 1, 9, 0])), Read 4, Read 100]"
  obtain ch conn out where run: "run_stream 1 ?ops = (ch, conn, out)" by (cases "run_stream 1 ?ops")
  have sizes: "\<forall>b\<in>set [[9], []]. length b \<le> MAX_FRAME_BYTES" by (simp add: MAX_FRAME_BYTES_def)
  have writes: "concat [[0, 0], [0, 1, 9, 0], [0, 0, 0 :: u8]] = concat (map framed [[9], []])"
    by (simp add: framed_def to_be_bytes_def Let_def)
  have events: "events_of ?ops @ [Dictionary (Some [0, 0, 0])] =
      map (\<lambda>p. Dictionary (Some p))
        (payloads (concat (map (\<lambda>w. snd (poll_write w (adopt 1))) [[0, 0], [0, 1, 9, 0], [0, 0, 0 :: u8]])))"
    by (simp add: poll_write_def send_def)
  obtain k where "k \<le> length [[9], [] :: bytes]" "frames_of False out = map Arrives (take k [[9], []]) @ [Silent]"
    using frames_cross_xpc [OF frames_of_delimited sizes writes events run] by blast
  then show ?thesis using run by (intro exI conjI) auto
qed

lemma fixture_session_size:
  "length (the (hello fixture_serde PROTOCOL_MAJOR 0) @ concat (replicate 2 (the (request fixture_serde)))) \<le> DUPLEX_BYTES"
proof -
  have "length (the (json fixture_serde f)) \<le> 4 + MAX_FRAME_BYTES" if "fits fixture_serde f" for f
    using that by (auto simp: fits_def json_def split: option.splits)
  then have "length (the (hello fixture_serde PROTOCOL_MAJOR 0)) \<le> 4 + 64 * 1024"
      "length (the (request fixture_serde)) \<le> 4 + 64 * 1024"
    unfolding hello_def request_def MAX_FRAME_BYTES_def by (simp_all add: fixture_fits)
  then show ?thesis by (simp add: DUPLEX_BYTES_def numeral_2_eq_2)
qed

theorem wire_session_witness:
  "let written = the (hello fixture_serde PROTOCOL_MAJOR 0) @ concat (replicate 2 (the (request fixture_serde)))
   in wire_after fixture_serde frames_of written HangUp =
        Some (shown (the (server_hello fixture_serde (min 0 PROTOCOL_MINOR) None) @
          concat (replicate 2 (the (json fixture_serde (FResponse \<lparr>resp_id = 1, resp_payload = RespOk ()\<rparr>)))))) \<and>
      wire_after fixture_serde frames_of written Wait = None"
proof -
  have "wire_after fixture_serde frames_of
     (the (hello fixture_serde PROTOCOL_MAJOR 0) @ concat (replicate 2 (the (request fixture_serde)))) what_then =
    (if what_then = HangUp
     then Some (shown (the (server_hello fixture_serde (min 0 PROTOCOL_MINOR) None) @
       concat (replicate 2 (the (json fixture_serde (FResponse \<lparr>resp_id = 1, resp_payload = RespOk ()\<rparr>))))))
     else None)" for what_then
    by (rule wire_session [OF frames_of_delimited _ _ _ _ _ _ _ _ fixture_session_size];
        (unfold hello_def request_def server_hello_def)?; (rule fits_json)?; rule fixture_fits; simp)
  then show ?thesis by (simp add: Let_def)
qed

theorem wire_refusals_witness:
  "sees_refusal fixture_serde frames_of (framed []) Wait malformed_frame ''frame de handshake malformado''"
proof -
  have bad: "from_slice fixture_serde [] = None" by (simp add: fixture_serde_def table_serde_def)
  have part: "incomplete [0, 0]" by (simp add: incomplete_def)
  have header: "MAX_FRAME_BYTES < unat (65537 :: u32)" by (simp add: MAX_FRAME_BYTES_def)
  have fit: "fits fixture_serde (FServerHello (fixture_answer PROTOCOL_MINOR (Some (new_error_body c msg))))"
    if "(c, msg) \<in> {(handshake_required, ''Request recebido antes do Hello''),
        (malformed_frame, ''frame de handshake malformado''), (frame_too_large, ''frame de handshake acima do teto''),
        (handshake_required, ''handshake nao recebido dentro do prazo''),
        (handshake_required, ''conexao fechada antes do handshake''),
        (handshake_required, ''conexao interrompida antes do handshake''),
        (version_unsupported, ''protocolo major '' @ show_nat (unat (2 :: u16)) @ '' nao suportado (helper fala 1)'')}" for c msg
    by (rule fixture_refusals_fit) (use that in \<open>auto simp: example_refusals_def\<close>)
  have asked: "request fixture_serde = Some (the (request fixture_serde))"
    and greets: "hello fixture_serde 2 0 = Some (the (hello fixture_serde 2 0))"
    by (unfold request_def hello_def; rule fits_json; rule fixture_fits; simp)+
  have "(2 :: u16) \<noteq> PROTOCOL_MAJOR" by (simp add: PROTOCOL_MAJOR_def)
  from wire_refusals [OF frames_of_delimited fit _ asked bad _ header part _ greets this] show ?thesis
    by (simp add: fixture_fits)
qed

end
