(* ===== verification/CoreFoundation.thy ===== *)
theory CoreFoundation
  imports Prelude
begin

text \<open>
  The ownership discipline behind the two users of Apple's CoreFoundation and Security
  frameworks, \<open>requirement_compile.rs\<close> of the daemon and \<open>code_signature.rs\<close> of the channel.
  The frameworks themselves are foreign: their functions are the fields of a record the models
  take as an argument.  What is modelled is the \<open>Owned\<close> wrapper both files declare, whose
  \<open>Drop\<close> calls \<open>CFRelease\<close>, and the log of the foreign calls it makes.
\<close>

section \<open>Foreign objects\<close>

text \<open>A \<open>CfRef\<close> is an address; zero is the null pointer.\<close>

type_synonym cf_ref = nat
type_synonym os_status = "32 word"

datatype cf_event = Created cf_ref | Used cf_ref | Released cf_ref

type_synonym cf_log = "cf_event list"

text \<open>A computation that calls the frameworks: a result, and the log it extended.\<close>

type_synonym ('e, 'a) cf = "cf_log \<Rightarrow> ('e + 'a) \<times> cf_log"

text \<open>
  A foreign constructor hands out a reference the caller owns (the create rule); a null
  reference owns nothing.
\<close>

definition cf_made :: "cf_ref \<Rightarrow> cf_log \<Rightarrow> cf_log" where
  "cf_made object log = (if object = 0 then log else log @ [Created object])"

definition cf_used :: "cf_ref \<Rightarrow> cf_log \<Rightarrow> cf_log" where
  "cf_used object log = log @ [Used object]"

text \<open>
  An \<open>Owned\<close> value that lives until the end of the enclosing function: the rest of the function
  runs, whichever way it returns, and then \<open>drop\<close> releases the object.
\<close>

definition with_owned :: "cf_ref \<Rightarrow> ('e, 'a) cf \<Rightarrow> ('e, 'a) cf" where
  "with_owned object body log = (let (r, log') = body log in (r, log' @ [Released object]))"

section \<open>Reading a log\<close>

text \<open>
  The references owned after a log: a use or a release of a reference that is not owned is an
  error.  A reference counted object may be handed out twice, hence a list with repetitions.
\<close>

fun cf_owned :: "cf_ref list \<Rightarrow> cf_log \<Rightarrow> cf_ref list option" where
  "cf_owned live [] = Some live"
| "cf_owned live (Created x # log) = cf_owned (x # live) log"
| "cf_owned live (Used x # log) = (if x \<in> set live then cf_owned live log else None)"
| "cf_owned live (Released x # log) = (if x \<in> set live then cf_owned (remove1 x live) log else None)"

lemma cf_owned_append:
  "cf_owned live (l @ l') = (case cf_owned live l of None \<Rightarrow> None | Some live' \<Rightarrow> cf_owned live' l')"
  by (induction live l rule: cf_owned.induct) auto

text \<open>A computation is clean for what it owns: it leaves behind exactly what it found.\<close>

definition cf_clean :: "cf_ref list \<Rightarrow> ('e, 'a) cf \<Rightarrow> bool" where
  "cf_clean live body \<longleftrightarrow>
     (\<forall>log. cf_owned [] log = Some live \<longrightarrow> cf_owned [] (snd (body log)) = Some live)"

lemma cf_clean_pure: "cf_clean live (\<lambda>log. (r log, log))"
  by (simp add: cf_clean_def)

lemma cf_clean_use:
  "x \<in> set live \<Longrightarrow> (\<And>log. cf_owned [] log = Some live \<Longrightarrow> cf_owned [] (snd (body (cf_used x log))) = Some live)
    \<Longrightarrow> cf_clean live (\<lambda>log. body (cf_used x log))"
  by (simp add: cf_clean_def)

lemma cf_owned_used [simp]:
  "cf_owned [] log = Some live \<Longrightarrow> x \<in> set live \<Longrightarrow> cf_owned [] (cf_used x log) = Some live"
  by (simp add: cf_used_def cf_owned_append)

lemma cf_owned_made [simp]:
  "cf_owned [] log = Some live \<Longrightarrow> x \<noteq> 0 \<Longrightarrow> cf_owned [] (cf_made x log) = Some (x # live)"
  by (simp add: cf_made_def cf_owned_append)

lemma cf_made_null [simp]: "cf_made 0 log = log"
  by (simp add: cf_made_def)

lemma with_owned_clean:
  assumes "cf_clean (x # live) body" and "cf_owned [] log = Some (x # live)"
  shows "cf_owned [] (snd (with_owned x body log)) = Some live"
  using assms by (auto simp: with_owned_def cf_clean_def cf_owned_append split: prod.splits)

lemma fst_with_owned [simp]: "fst (with_owned x body log) = fst (body log)"
  by (simp add: with_owned_def split: prod.splits)

end
