(* ===== verification/CodeSignature.thy ===== *)
theory CodeSignature
  imports CoreFoundation PeerPolicy
begin

text \<open>
  The code signature check of a connected peer on macOS,
  \<open>toolkit/dovetail_privileged_channel/rust/src/code_signature.rs\<close>.  The peer is looked up by
  the audit token of its socket, not by its process id, which may have been given to another
  process meanwhile; the process id only names the peer in messages.
\<close>

section \<open>Foreign functions\<close>

definition CHANNEL_UTF8 :: "32 word" where "CHANNEL_UTF8 = 0x08000100"

text \<open>
  As in \<open>RequirementCompile\<close>, a foreign function may look at the log of what was called before.
  \<open>getsockopt\<close> fails with an error number or writes some words into the buffer.
\<close>

record signature_api =
  api_string :: "cf_log \<Rightarrow> string \<Rightarrow> 32 word \<Rightarrow> cf_ref"
  api_requirement :: "cf_log \<Rightarrow> cf_ref \<Rightarrow> os_status \<times> cf_ref"
  api_data :: "cf_log \<Rightarrow> u32 list \<Rightarrow> cf_ref"
  api_dictionary :: "cf_log \<Rightarrow> cf_ref \<Rightarrow> cf_ref"
  api_guest :: "cf_log \<Rightarrow> cf_ref \<Rightarrow> os_status \<times> cf_ref"
  api_validity :: "cf_log \<Rightarrow> cf_ref \<Rightarrow> cf_ref \<Rightarrow> os_status"
  api_peer_token :: "int \<Rightarrow> nat + u32 list"

section \<open>The audit token\<close>

text \<open>Eight words, zero where the kernel wrote nothing.\<close>

definition of_peer :: "signature_api \<Rightarrow> int \<Rightarrow> peer_error + u32 list" where
  "of_peer api fd =
     (case api_peer_token api fd of
        Inl errno \<Rightarrow> Err (PeerCall ''LOCAL_PEERTOKEN'' errno)
      | Inr ws \<Rightarrow> Ok (map (\<lambda>i. if i < length ws then ws ! i else 0) [0..<8]))"

definition pid_of_token :: "u32 list \<Rightarrow> u32" where "pid_of_token token = token ! 5"

section \<open>The check\<close>

definition owned_new :: "cf_ref \<Rightarrow> string \<Rightarrow> peer_error + cf_ref" where
  "owned_new object call = and_then (ensure (object \<noteq> 0) (CodeCall call)) (\<lambda>_. Ok object)"

definition owned_created :: "os_status \<Rightarrow> cf_ref \<Rightarrow> string \<Rightarrow> peer_error + cf_ref" where
  "owned_created status object call =
     and_then (ensure (status = 0) (CodeStatus call (sint status))) (\<lambda>_. owned_new object call)"

text \<open>
  \<open>requirement\<close> and \<open>guest\<close> return an owned object: it stays owned after the function, while the
  objects the function made for itself are released when it returns.
\<close>

definition requirement_of :: "signature_api \<Rightarrow> cf_ref \<Rightarrow> (peer_error, cf_ref) cf" where
  "requirement_of api string log =
     (let (status, object) = api_requirement api log string
      in (owned_created status object ''SecRequirementCreateWithString'',
          cf_made object (cf_used string log)))"

definition requirement :: "signature_api \<Rightarrow> string \<Rightarrow> (peer_error, cf_ref) cf" where
  "requirement api text log =
     (let string = api_string api log text CHANNEL_UTF8; log = cf_made string log
      in case owned_new string ''CFStringCreateWithBytes'' of
           Err e \<Rightarrow> (Err e, log)
         | Ok string \<Rightarrow> with_owned string (requirement_of api string) log)"

definition guest_with :: "signature_api \<Rightarrow> cf_ref \<Rightarrow> (peer_error, cf_ref) cf" where
  "guest_with api attributes log =
     (let (status, code) = api_guest api log attributes
      in (owned_created status code ''SecCodeCopyGuestWithAttributes'',
          cf_made code (cf_used attributes log)))"

definition guest_of_data :: "signature_api \<Rightarrow> cf_ref \<Rightarrow> (peer_error, cf_ref) cf" where
  "guest_of_data api data log =
     (let attributes = api_dictionary api log data; log = cf_made attributes (cf_used data log)
      in case owned_new attributes ''CFDictionaryCreate'' of
           Err e \<Rightarrow> (Err e, log)
         | Ok attributes \<Rightarrow> with_owned attributes (guest_with api attributes) log)"

definition guest :: "signature_api \<Rightarrow> u32 list \<Rightarrow> (peer_error, cf_ref) cf" where
  "guest api token log =
     (let data = api_data api log token; log = cf_made data log
      in case owned_new data ''CFDataCreate'' of
           Err e \<Rightarrow> (Err e, log)
         | Ok data \<Rightarrow> with_owned data (guest_of_data api data) log)"

definition judge_code :: "signature_api \<Rightarrow> cf_ref \<Rightarrow> cf_ref \<Rightarrow> u32 \<Rightarrow> (peer_error, PeerCheck) cf" where
  "judge_code api req code pid log =
     (let status = api_validity api log code req;
          log = cf_used req (cf_used code log)
      in (and_then (ensure (status = 0) (CodeRejected pid (sint status)))
            (\<lambda>_. Ok \<lparr>check_method = ''peertoken+codesign'', check_subject = ''pid='' @ show_nat (unat pid)\<rparr>),
          log))"

definition check_against :: "signature_api \<Rightarrow> int \<Rightarrow> cf_ref \<Rightarrow> (peer_error, PeerCheck) cf" where
  "check_against api fd req log =
     (case of_peer api fd of
        Err e \<Rightarrow> (Err e, log)
      | Ok token \<Rightarrow>
          let pid = pid_of_token token
          in case guest api token log of
               (Err e, log) \<Rightarrow> (Err e, log)
             | (Ok code, log) \<Rightarrow> with_owned code (judge_code api req code pid) log)"

definition check :: "signature_api \<Rightarrow> int \<Rightarrow> string \<Rightarrow> (peer_error, PeerCheck) cf" where
  "check api fd text log =
     (case requirement api text log of
        (Err e, log) \<Rightarrow> (Err e, log)
      | (Ok req, log) \<Rightarrow> with_owned req (check_against api fd req) log)"

section \<open>Ownership\<close>

definition signature_api_sets_on_success :: "signature_api \<Rightarrow> bool" where
  "signature_api_sets_on_success api \<longleftrightarrow>
     (\<forall>log x status object. api_requirement api log x = (status, object) \<longrightarrow> status \<noteq> 0 \<longrightarrow> object = 0) \<and>
     (\<forall>log x status object. api_guest api log x = (status, object) \<longrightarrow> status \<noteq> 0 \<longrightarrow> object = 0)"

lemma signature_api_null:
  assumes "signature_api_sets_on_success api" and "status \<noteq> 0"
  shows "api_requirement api log x = (status, object) \<Longrightarrow> object = 0"
    and "api_guest api log x = (status, object) \<Longrightarrow> object = 0"
  using assms unfolding signature_api_sets_on_success_def by blast+

lemma owned_new_iff [simp]:
  "owned_new x call = Ok y \<longleftrightarrow> x \<noteq> 0 \<and> y = x"
  "owned_new x call = Err e \<longleftrightarrow> x = 0 \<and> e = CodeCall call"
  by (auto simp: owned_new_def)

lemma owned_created_iff [simp]:
  "owned_created status x call = Ok y \<longleftrightarrow> status = 0 \<and> x \<noteq> 0 \<and> y = x"
  "owned_created status x call = Err e \<longleftrightarrow>
     status \<noteq> 0 \<and> e = CodeStatus call (sint status) \<or> status = 0 \<and> x = 0 \<and> e = CodeCall call"
  by (auto simp: owned_created_def)

text \<open>
  A computation that hands out an object leaves what it found and that object.
\<close>

definition cf_makes :: "cf_ref list \<Rightarrow> ('e, cf_ref) cf \<Rightarrow> bool" where
  "cf_makes live body \<longleftrightarrow>
     (\<forall>log. cf_owned [] log = Some live \<longrightarrow>
        (\<forall>e log'. body log = (Inl e, log') \<longrightarrow> cf_owned [] log' = Some live) \<and>
        (\<forall>x log'. body log = (Inr x, log') \<longrightarrow> cf_owned [] log' = Some (x # live)))"

lemma cf_makesD:
  assumes "cf_makes live body" and "cf_owned [] log = Some live"
  shows "body log = (Inl e, log') \<Longrightarrow> cf_owned [] log' = Some live"
    and "body log = (Inr x, log') \<Longrightarrow> cf_owned [] log' = Some (x # live)"
  using assms unfolding cf_makes_def by blast+

lemma with_owned_makes:
  "with_owned x body log = (Inl e, log') \<Longrightarrow> cf_makes (x # live) body \<Longrightarrow>
     cf_owned [] log = Some (x # live) \<Longrightarrow> cf_owned [] log' = Some live"
  "with_owned x body log = (Inr y, log') \<Longrightarrow> cf_makes (x # live) body \<Longrightarrow>
     cf_owned [] log = Some (x # live) \<Longrightarrow> cf_owned [] log' = Some (y # live)"
  by (auto simp: with_owned_def cf_owned_append split: prod.splits dest: cf_makesD)

lemma requirement_of_makes:
  assumes "signature_api_sets_on_success api"
  shows "cf_makes (x # live) (requirement_of api x)"
  by (auto simp: cf_makes_def requirement_of_def split: prod.splits
      dest: signature_api_null(1) [OF assms])

lemma requirement_makes:
  assumes "signature_api_sets_on_success api"
  shows "cf_makes live (requirement api text)"
  unfolding cf_makes_def requirement_def
  by (auto simp: Let_def split: sum.splits intro: with_owned_makes requirement_of_makes [OF assms])

lemma guest_with_makes:
  assumes "signature_api_sets_on_success api"
  shows "cf_makes (x # live) (guest_with api x)"
  by (auto simp: cf_makes_def guest_with_def split: prod.splits
      dest: signature_api_null(2) [OF assms])

lemma guest_of_data_makes:
  assumes "signature_api_sets_on_success api"
  shows "cf_makes (x # live) (guest_of_data api x)"
  unfolding cf_makes_def guest_of_data_def
  by (auto simp: Let_def split: sum.splits intro: with_owned_makes guest_with_makes [OF assms])

lemma guest_makes:
  assumes "signature_api_sets_on_success api"
  shows "cf_makes live (guest api token)"
  unfolding cf_makes_def guest_def
  by (auto simp: Let_def split: sum.splits intro: with_owned_makes guest_of_data_makes [OF assms])

lemma judge_code_clean: "cf_clean (code # req # live) (judge_code api req code pid)"
  by (simp add: cf_clean_def judge_code_def Let_def)

lemma check_against_clean:
  assumes "signature_api_sets_on_success api"
  shows "cf_clean (req # live) (check_against api fd req)"
  unfolding cf_clean_def check_against_def
  by (auto simp: Let_def split: sum.splits prod.splits
      dest: cf_makesD [OF guest_makes [OF assms]] intro!: with_owned_clean [OF judge_code_clean])

text \<open>
  The check of a peer's signature leaves no framework object behind, on whichever of its
  eight ways out it returns, and neither uses nor releases one it does not own.
\<close>

theorem check_releases:
  assumes "signature_api_sets_on_success api"
  shows "cf_owned [] (snd (check api fd text [])) = Some []"
proof -
  have "cf_owned [] [] = Some []" by simp
  note made = cf_makesD [OF requirement_makes [OF assms] this]
  show ?thesis
    unfolding check_def
    by (auto split: sum.splits prod.splits dest: made
        intro!: with_owned_clean [OF check_against_clean [OF assms]])
qed

definition example_signature_api :: "os_status \<Rightarrow> signature_api" where
  "example_signature_api status =
     \<lparr>api_string = (\<lambda>log t e. 1), api_requirement = (\<lambda>log x. (0, 2)), api_data = (\<lambda>log t. 3),
      api_dictionary = (\<lambda>log x. 4), api_guest = (\<lambda>log x. (0, 5)), api_validity = (\<lambda>log c r. status),
      api_peer_token = (\<lambda>fd. Inr [0, 0, 0, 0, 0, 412, 0, 0])\<rparr>"

theorem check_releases_witness:
  "cf_owned [] (snd (check (example_signature_api 0) 3 ''x'' [])) = Some []"
  by (rule check_releases) (simp add: signature_api_sets_on_success_def example_signature_api_def)

end
