(* ===== verification/Transport.thy ===== *)
theory Transport
  imports CodeSignature "HOL-Library.Multiset"
begin

text \<open>
  The transports on Unix: \<open>transport/mod.rs\<close>, \<open>transport/linux.rs\<close>, \<open>transport/macos.rs\<close> and the
  Unix half of \<open>peer_auth.rs\<close> under \<open>toolkit/dovetail_privileged_channel/rust/src\<close>.  A listener
  binds a socket on the host's file system, accepts a connection and lets it through, or drops
  it, after the peer was verified.
\<close>

section \<open>Admission\<close>

datatype accept_error = AcceptIo io_error | PeerRefused peer_error

fun accept_error_display :: "accept_error \<Rightarrow> string" where
  "accept_error_display (AcceptIo _) = ''erro de io ao aceitar conexao''"
| "accept_error_display (PeerRefused _) = ''peer recusado na autenticacao''"

fun accept_error_source :: "accept_error \<Rightarrow> io_error + peer_error" where
  "accept_error_source (AcceptIo e) = Inl e"
| "accept_error_source (PeerRefused e) = Inr e"

text \<open>
  Rust closes a stream when its last owner is dropped: an admission returns, beside its result,
  the streams it closed.
\<close>

type_synonym ('s, 'r) closing = "'r \<times> 's list"

definition admit :: "'s \<Rightarrow> ('s \<Rightarrow> peer_error + PeerCheck) \<Rightarrow>
    ('s, accept_error + 's \<times> PeerCheck) closing" where
  "admit stream verify =
     (case map_err PeerRefused (verify stream) of
        Inl e \<Rightarrow> (Err e, [stream])
      | Inr peer \<Rightarrow> (Ok (stream, peer), []))"

definition admit_by_policy :: "'s \<Rightarrow> PeerPolicy option \<Rightarrow> ('s \<Rightarrow> peer_error + PeerCred) \<Rightarrow>
    ('s, accept_error + 's \<times> PeerCheck) closing" where
  "admit_by_policy stream policy credentials =
     admit stream (\<lambda>s. and_then (credentials s) (judge policy))"

text \<open>
  \<open>take_connected\<close> empties the slot before it looks at the outcome; \<open>expect\<close> panics on an empty
  slot, which is \<open>None\<close> here.
\<close>

definition take_connected :: "'s option \<Rightarrow> io_error + unit \<Rightarrow>
    (('s, accept_error + 's) closing \<times> 's option) option" where
  "take_connected pending outcome =
     (case pending of
        None \<Rightarrow> None
      | Some instance \<Rightarrow>
          (case map_err AcceptIo outcome of
             Inl e \<Rightarrow> Some ((Err e, [instance]), None)
           | Inr _ \<Rightarrow> Some ((Ok instance, []), None)))"

section \<open>Linux\<close>

text \<open>\<open>SO_PEERCRED\<close> gives the credentials the kernel recorded, or an error number.\<close>

type_synonym peercred = "nat + int \<times> u32 \<times> u32"

definition peer_credentials :: "('s \<Rightarrow> peercred) \<Rightarrow> 's \<Rightarrow> peer_error + PeerCred" where
  "peer_credentials getsockopt conn =
     (case getsockopt conn of
        Inl errno \<Rightarrow> Err (PeerCall ''SO_PEERCRED'' errno)
      | Inr (pid, uid, gid) \<Rightarrow> Ok \<lparr>cred_pid = pid, cred_uid = uid, cred_gid = gid\<rparr>)"

definition verify_peer_linux :: "('s \<Rightarrow> peercred) \<Rightarrow> 's \<Rightarrow> peer_error + PeerCheck" where
  "verify_peer_linux getsockopt conn = and_then (peer_credentials getsockopt conn) (judge None)"

definition set_mode :: "string \<Rightarrow> u32 \<Rightarrow> unit io" where
  "set_mode path mode = set_permissions path mode"

definition remove_existing :: "string \<Rightarrow> unit io" where
  "remove_existing path h =
     (let (exists, h') = path_exists path h
      in if exists then remove_file path h' else io_return () h')"

definition prepare_socket_path :: "string \<Rightarrow> u32 \<Rightarrow> unit io" where
  "prepare_socket_path path dir_mode =
     io_bind (case path_parent path of
                None \<Rightarrow> io_return ()
              | Some dir \<Rightarrow> io_bind (create_dir_all dir) (\<lambda>_. set_mode dir dir_mode))
       (\<lambda>_. remove_existing path)"

text \<open>A listener, as far as the code keeps one: the address it is bound to and its policy.\<close>

record LinuxListener =
  linux_address :: string
  linux_policy :: "PeerPolicy option"

definition linux_bind :: "Endpoint \<Rightarrow> LinuxListener io" where
  "linux_bind endpoint =
     (let path = address endpoint; policy = peer_policy endpoint; modes = socket_modes policy
      in io_bind (prepare_socket_path path (directory_mode modes)) (\<lambda>_.
         io_bind (bind_socket path) (\<lambda>_.
         io_bind (set_mode path (socket_mode modes)) (\<lambda>_.
         io_return \<lparr>linux_address = path, linux_policy = policy\<rparr>))))"

text \<open>\<open>incoming\<close> is what the operating system's accept returned.\<close>

definition linux_accept :: "LinuxListener \<Rightarrow> ('s \<Rightarrow> peercred) \<Rightarrow> io_error + 's \<Rightarrow>
    ('s, accept_error + 's \<times> PeerCheck) closing" where
  "linux_accept l getsockopt incoming =
     (case incoming of
        Inl e \<Rightarrow> (Err (AcceptIo e), [])
      | Inr stream \<Rightarrow> admit_by_policy stream (linux_policy l) (peer_credentials getsockopt))"

section \<open>macOS\<close>

text \<open>\<open>debug\<close> is \<open>cfg(debug_assertions)\<close>.\<close>

definition DIR_MODE :: "bool \<Rightarrow> u32" where "DIR_MODE debug = (if debug then 0x1ED else 0x1C0)"
definition SOCKET_MODE :: "bool \<Rightarrow> u32" where "SOCKET_MODE debug = (if debug then 0x1B6 else 0x180)"

definition set_dir_mode :: "bool \<Rightarrow> string \<Rightarrow> unit io" where
  "set_dir_mode debug dir = set_permissions dir (DIR_MODE debug)"

definition harden_socket_permissions :: "bool \<Rightarrow> string \<Rightarrow> unit io" where
  "harden_socket_permissions debug path = set_permissions path (SOCKET_MODE debug)"

definition prepare_socket_path_macos :: "bool \<Rightarrow> string \<Rightarrow> unit io" where
  "prepare_socket_path_macos debug path =
     io_bind (case path_parent path of
                None \<Rightarrow> io_return ()
              | Some dir \<Rightarrow> io_bind (create_dir_all dir) (\<lambda>_. set_dir_mode debug dir))
       (\<lambda>_. remove_existing path)"

record MacListener =
  mac_address :: string
  mac_requirement :: "string option"

definition mac_bind :: "bool \<Rightarrow> Endpoint \<Rightarrow> MacListener io" where
  "mac_bind debug endpoint =
     (let path = address endpoint
      in io_bind (prepare_socket_path_macos debug path) (\<lambda>_.
         io_bind (bind_socket path) (\<lambda>_.
         io_bind (harden_socket_permissions debug path) (\<lambda>_.
         io_return \<lparr>mac_address = path,
           mac_requirement = Option.bind (peer_policy endpoint) code_requirement\<rparr>))))"

text \<open>What the system knows of a connected peer: its descriptor, and \<open>getpeereid\<close>.\<close>

record 's mac_system =
  raw_fd :: "'s \<Rightarrow> int"
  getpeereid :: "int \<Rightarrow> nat + u32 \<times> u32"
  signature :: signature_api

definition codesign_subject_placeholder :: "u32 \<Rightarrow> string" where
  "codesign_subject_placeholder uid = ''uid='' @ show_nat (unat uid) @ '' (codesign nao verificado - DEV)''"

definition verify_code :: "bool \<Rightarrow> 's mac_system \<Rightarrow> 's \<Rightarrow> string option \<Rightarrow> peer_error + PeerCheck" where
  "verify_code debug sys conn req =
     (let fd = raw_fd sys conn
      in case req of
           Some text \<Rightarrow> fst (check (signature sys) fd text [])
         | None \<Rightarrow>
             (case getpeereid sys fd of
                Inl errno \<Rightarrow> Err (PeerCall ''getpeereid'' errno)
              | Inr (uid, gid) \<Rightarrow>
                  if debug
                  then Ok \<lparr>check_method = ''peercred+codesign'',
                           check_subject = codesign_subject_placeholder uid\<rparr>
                  else Err (NoRequirement uid gid)))"

definition verify_peer_macos :: "bool \<Rightarrow> 's mac_system \<Rightarrow> 's \<Rightarrow> peer_error + PeerCheck" where
  "verify_peer_macos debug sys conn = verify_code debug sys conn None"

definition mac_accept :: "bool \<Rightarrow> MacListener \<Rightarrow> 's mac_system \<Rightarrow> io_error + 's \<Rightarrow>
    ('s, accept_error + 's \<times> PeerCheck) closing" where
  "mac_accept debug l sys incoming =
     (case incoming of
        Inl e \<Rightarrow> (Err (AcceptIo e), [])
      | Inr stream \<Rightarrow> admit stream (\<lambda>conn. verify_code debug sys conn (mac_requirement l)))"

section \<open>What every listener promises\<close>

text \<open>
  A listener is a gate: a stream the system accepted is either handed out with a check that some
  judge of the listener passed, or refused and closed; a failed accept closes nothing.
\<close>

locale listener =
  fixes accept :: "'l \<Rightarrow> 'env \<Rightarrow> io_error + 's \<Rightarrow> ('s, accept_error + 's \<times> PeerCheck) closing"
    and judged :: "'l \<Rightarrow> 'env \<Rightarrow> 's \<Rightarrow> peer_error + PeerCheck"
  assumes accept_failed: "accept l env (Inl e) = (Err (AcceptIo e), [])"
    and accept_passed: "judged l env s = Ok c \<Longrightarrow> accept l env (Inr s) = (Ok (s, c), [])"
    and accept_refused: "judged l env s = Err why \<Longrightarrow> accept l env (Inr s) = (Err (PeerRefused why), [s])"
begin

fun accept_all :: "'l \<Rightarrow> 'env \<Rightarrow> (io_error + 's) list \<Rightarrow> ('s \<times> PeerCheck) list \<times> 's list" where
  "accept_all l env [] = ([], [])"
| "accept_all l env (x # xs) =
     (let (r, closed) = accept l env x; (served, closed') = accept_all l env xs
      in (case r of Inl _ \<Rightarrow> served | Inr y \<Rightarrow> y # served, closed @ closed'))"

lemma accept_cases:
  "accept l env (Inr s) =
     (case judged l env s of Inl e \<Rightarrow> (Err (PeerRefused e), [s]) | Inr c \<Rightarrow> (Ok (s, c), []))"
  by (auto simp: accept_passed accept_refused split: sum.splits)

lemma handed_out_judged:
  "accept l env x = (Ok (s, c), closed) \<Longrightarrow> x = Inr s \<and> judged l env s = Ok c \<and> closed = []"
  by (cases x) (auto simp: accept_failed accept_cases split: sum.splits)

lemma streams_conserved:
  "mset (map fst (fst (accept_all l env xs))) + mset (snd (accept_all l env xs)) =
     mset (map projr (filter (\<lambda>x. \<not> isl x) xs))"
proof (induction xs)
  case (Cons x xs)
  then show ?case
    by (cases x) (auto simp: Let_def accept_failed accept_cases split: prod.splits sum.splits)
qed simp

lemma served_judged:
  "(s, c) \<in> set (fst (accept_all l env xs)) \<Longrightarrow> judged l env s = Ok c"
  by (induction xs)
    (auto simp: Let_def split: prod.splits sum.splits dest: handed_out_judged)

lemma served_in_order:
  "map fst (fst (accept_all l env xs)) =
     filter (\<lambda>s. is_ok (judged l env s)) (map projr (filter (\<lambda>x. \<not> isl x) xs))"
proof (induction xs)
  case (Cons x xs)
  then show ?case
    by (cases x) (auto simp: Let_def accept_failed accept_cases is_ok_iff split: prod.splits sum.splits)
qed simp

end

interpretation linux_gate: listener linux_accept
  "\<lambda>l getsockopt s. and_then (peer_credentials getsockopt s) (judge (linux_policy l))"
  by unfold_locales
    (auto simp: linux_accept_def admit_by_policy_def admit_def split: sum.splits)

interpretation mac_gate: listener "\<lambda>(debug, l). mac_accept debug l"
  "\<lambda>(debug, l) sys s. verify_code debug sys s (mac_requirement l)"
  by unfold_locales (auto simp: mac_accept_def admit_def split: sum.splits)

section \<open>Properties of admission\<close>

lemma verify_code_release:
  "verify_code False sys s req = Ok c \<longleftrightarrow>
     (\<exists>text. req = Some text \<and> fst (check (signature sys) (raw_fd sys s) text []) = Ok c)"
  by (auto simp: verify_code_def Let_def split: option.splits sum.splits)

text \<open>
  C20: on Linux a stream is handed to the server exactly when the kernel's credentials of its peer
  are named by the policy the endpoint was bound with, and in that case it is not closed; a
  stream that is not handed out is closed.  Without a policy every stream is closed.
\<close>

theorem linux_admission:
  "(linux_accept l getsockopt (Inr s) = (Ok (s, c), []) \<longleftrightarrow>
      (\<exists>p pid uid gid. linux_policy l = Some p \<and> getsockopt s = Inr (pid, uid, gid) \<and> admits p uid gid \<and>
         c = \<lparr>check_method = ''peercred+policy'',
              check_subject = subject_of \<lparr>cred_pid = pid, cred_uid = uid, cred_gid = gid\<rparr>\<rparr>)) \<and>
   ((\<exists>c. linux_accept l getsockopt (Inr s) = (Ok (s, c), [])) \<noteq>
      (\<exists>e. linux_accept l getsockopt (Inr s) = (Err (PeerRefused e), [s])))"
proof -
  have "linux_accept l getsockopt (Inr s) = (Ok (s, c), []) \<longleftrightarrow>
      and_then (peer_credentials getsockopt s) (judge (linux_policy l)) = Ok c"
    by (auto simp: linux_gate.accept_cases split: sum.splits)
  moreover have "and_then (peer_credentials getsockopt s) (judge (linux_policy l)) = Ok c \<longleftrightarrow> (\<exists>p pid uid gid. linux_policy l = Some p \<and> getsockopt s = Inr (pid, uid, gid) \<and>
       admits p uid gid \<and>
       c = \<lparr>check_method = ''peercred+policy'',
            check_subject = subject_of \<lparr>cred_pid = pid, cred_uid = uid, cred_gid = gid\<rparr>\<rparr>)"
    by (fastforce simp: judge_ok peer_credentials_def split: sum.splits)
  moreover have "(\<exists>c. linux_accept l getsockopt (Inr s) = (Ok (s, c), [])) \<noteq>
      (\<exists>e. linux_accept l getsockopt (Inr s) = (Err (PeerRefused e), [s]))"
    by (auto simp: linux_gate.accept_cases split: sum.splits)
  ultimately show ?thesis by blast
qed

text \<open>
  Whatever the system accepts on macOS in a release build, the streams served are those, in
  order, whose peer's code signature the system found to satisfy the requirement the endpoint was
  bound with; all others are closed.  In particular none is served without a requirement.
\<close>

theorem mac_release_serves_signed:
  "let run = mac_gate.accept_all (False, l) sys xs;
       streams = map projr (filter (\<lambda>x. \<not> isl x) xs);
       signed = (\<lambda>s. \<exists>text c. mac_requirement l = Some text \<and>
                   fst (check (signature sys) (raw_fd sys s) text []) = Ok c)
   in map fst (fst run) = filter signed streams \<and>
      mset (snd run) = mset (filter (\<lambda>s. \<not> signed s) streams)"
proof -
  define run where "run = mac_gate.accept_all (False, l) sys xs"
  define streams where "streams = map projr (filter (\<lambda>x. \<not> isl x) xs)"
  define signed where "signed = (\<lambda>s. \<exists>text c. mac_requirement l = Some text \<and>
      fst (check (signature sys) (raw_fd sys s) text []) = Ok c)"
  have "(\<lambda>s. is_ok (verify_code False sys s (mac_requirement l))) = signed"
    by (auto simp: fun_eq_iff is_ok_iff verify_code_release signed_def)
  then have served: "map fst (fst run) = filter signed streams"
    using mac_gate.served_in_order [of "(False, l)" sys xs] by (simp add: run_def streams_def)
  have "mset (map fst (fst run)) + mset (snd run) = mset streams"
    using mac_gate.streams_conserved [of "(False, l)" sys xs] by (simp add: run_def streams_def)
  then have "filter_mset signed (mset streams) + mset (snd run) = mset streams"
    by (simp add: served)
  then have "mset (snd run) = mset (filter (\<lambda>s. \<not> signed s) streams)"
    using multiset_partition [of "mset streams" signed] by (metis add_left_cancel mset_filter)
  then show ?thesis using served unfolding run_def streams_def signed_def Let_def by blast
qed

section \<open>Properties of the bind\<close>

text \<open>
  The stages of a bind, over the history since the start: before the directory has its mode,
  every state has at the socket's path what was there before or nothing; afterwards, every state
  has the directory at that mode.
\<close>

definition mode_at :: "files \<Rightarrow> string \<Rightarrow> u32 option" where
  "mode_at fs p = map_option node_mode (fs p)"

definition quiet :: "string \<Rightarrow> host \<Rightarrow> files \<Rightarrow> bool" where
  "quiet p h0 fs \<longleftrightarrow> fs p = files h0 p \<or> fs p = None"

definition stage1 :: "string \<Rightarrow> host \<Rightarrow> host \<Rightarrow> bool" where
  "stage1 p h0 h \<longleftrightarrow>
     quiet p h0 (files h) \<and> (\<exists>pre. history h = history h0 @ pre \<and> (\<forall>fs\<in>set pre. quiet p h0 fs))"

definition staged :: "string \<Rightarrow> string \<Rightarrow> u32 \<Rightarrow> host \<Rightarrow> host \<Rightarrow> bool" where
  "staged p d m h0 h \<longleftrightarrow>
     (\<exists>pre post. history h = history h0 @ pre @ post \<and> (\<forall>fs\<in>set pre. quiet p h0 fs) \<and>
        (\<forall>fs\<in>set post. mode_at fs d = Some m))"

definition stage2 :: "string \<Rightarrow> string \<Rightarrow> u32 \<Rightarrow> host \<Rightarrow> host \<Rightarrow> bool" where
  "stage2 p d m h0 h \<longleftrightarrow> mode_at (files h) d = Some m \<and> staged p d m h0 h"

lemma stage1_start: "stage1 p h h"
  by (simp add: stage1_def quiet_def)

lemma stage1_staged: "stage1 p h0 h \<Longrightarrow> staged p d m h0 h"
  unfolding stage1_def staged_def by (metis append_Nil2 empty_iff empty_set)

lemma stage2_staged: "stage2 p d m h0 h \<Longrightarrow> staged p d m h0 h"
  by (simp add: stage2_def)

lemma stage1_step:
  assumes "stage1 p h0 h" and "fs_op f h = (r, h')"
    and "\<And>x fs. f h = Ok (x, fs) \<Longrightarrow> fs p = files h p \<or> fs p = None"
  shows "stage1 p h0 h'"
proof (cases r)
  case (Inl e)
  then show ?thesis using assms(1,2) by (auto simp: fs_op_err stage1_def)
next
  case (Inr x)
  then obtain fs where fs: "f h = Ok (x, fs)" "files h' = fs" "history h' = history h @ [fs]"
    using assms(2) by (auto simp: fs_op_ok)
  then have "quiet p h0 fs" using assms(1,3) by (auto simp: stage1_def quiet_def)
  then show ?thesis using fs assms(1) by (fastforce simp: stage1_def)
qed

lemma staged_snoc:
  "staged p d m h0 h \<Longrightarrow> history h' = history h @ [fs] \<Longrightarrow> mode_at fs d = Some m \<Longrightarrow> staged p d m h0 h'"
  unfolding staged_def by (elim exE conjE) (rule_tac x = pre in exI, rule_tac x = "post @ [fs]" in exI, simp)

lemma stage2_step:
  assumes "stage2 p d m h0 h" and "fs_op f h = (r, h')"
    and "\<And>x fs. f h = Ok (x, fs) \<Longrightarrow> fs d = files h d"
  shows "stage2 p d m h0 h'"
proof (cases r)
  case (Inl e)
  then show ?thesis using assms(1,2) by (auto simp: fs_op_err stage2_def staged_def)
next
  case (Inr x)
  then obtain fs where fs: "f h = Ok (x, fs)" "files h' = fs" "history h' = history h @ [fs]"
    using assms(2) by (auto simp: fs_op_ok)
  moreover have "mode_at fs d = Some m"
    using assms(1) assms(3) [OF fs(1)] by (simp add: stage2_def mode_at_def)
  ultimately show ?thesis using assms(1) staged_snoc [OF _ fs(3)] by (simp add: stage2_def)
qed

lemma stage2_enter:
  assumes "stage1 p h0 h" and "set_permissions d m h = (Ok u, h')" and "d \<noteq> p"
  shows "stage2 p d m h0 h'"
proof -
  obtain n where n: "files h' = (files h)(d \<mapsto> n\<lparr>node_mode := m\<rparr>)" "history h' = history h @ [files h']"
    using assms(2) by (auto simp: set_permissions_def fs_op_ok split: option.splits)
  then have "mode_at (files h') d = Some m" by (simp add: mode_at_def)
  then show ?thesis
    using staged_snoc [OF stage1_staged [OF assms(1)] n(2)] by (simp add: stage2_def)
qed

definition keeps_stage2 :: "string \<Rightarrow> string \<Rightarrow> u32 \<Rightarrow> host \<Rightarrow> (host \<Rightarrow> 'r \<times> host) \<Rightarrow> bool" where
  "keeps_stage2 p d m h0 act \<longleftrightarrow> (\<forall>h. stage2 p d m h0 h \<longrightarrow> stage2 p d m h0 (snd (act h)))"

lemma keeps_stage2_bind:
  "keeps_stage2 p d m h0 act \<Longrightarrow> (\<And>x. keeps_stage2 p d m h0 (f x)) \<Longrightarrow>
     keeps_stage2 p d m h0 (io_bind act f)"
  by (fastforce simp: keeps_stage2_def io_bind_def split: prod.splits sum.splits)

lemma keeps_stage2_op:
  assumes "\<And>h x fs. f h = Ok (x, fs) \<Longrightarrow> fs d = files h d"
  shows "keeps_stage2 p d m h0 (fs_op f)"
proof -
  have "stage2 p d m h0 (snd (fs_op f h))" if "stage2 p d m h0 h" for h
    using stage2_step [OF that, of f "fst (fs_op f h)" "snd (fs_op f h)"] assms by simp
  then show ?thesis by (simp add: keeps_stage2_def)
qed

lemma keeps_stage2_return: "keeps_stage2 p d m h0 (io_return x)"
  by (simp add: keeps_stage2_def io_return_def)

lemma keeps_stage2_files:
  assumes "d \<noteq> p"
  shows "keeps_stage2 p d m h0 (remove_file p)" and "keeps_stage2 p d m h0 (bind_socket p)"
    and "keeps_stage2 p d m h0 (set_permissions p n)"
  unfolding remove_file_def bind_socket_def set_permissions_def
  using assms by (auto intro!: keeps_stage2_op split: option.splits if_splits)

lemma keeps_stage2_remove_existing:
  assumes "d \<noteq> p"
  shows "keeps_stage2 p d m h0 (remove_existing p)"
proof -
  have "keeps_stage2 p d m h0 (fs_op (\<lambda>h. Ok (link_end MAXSYMLINKS (files h) p \<noteq> None, files h)))"
    by (rule keeps_stage2_op) simp
  then show ?thesis
    using keeps_stage2_files(1) [OF assms]
    by (fastforce simp: keeps_stage2_def remove_existing_def path_exists_def io_return_def
        split: prod.splits sum.splits)
qed

lemma staged_bind:
  assumes "path_parent p = Some d" and "keeps_stage2 p d m h tail"
    and "act = io_bind (io_bind (create_dir_all d) (\<lambda>_. set_permissions d m)) (\<lambda>_. tail)"
  shows "staged p d m h (snd (act h))"
proof -
  have less: "length d < length p" using path_parent_shorter [OF assms(1)] .
  then have ne: "d \<noteq> p" by blast
  obtain r1 h1 where c: "create_dir_all d h = (r1, h1)" by fastforce
  have s1: "stage1 p h h1"
  proof (cases r1)
    case (Inl e)
    then show ?thesis
      using c stage1_start [of p h] by (auto simp: create_dir_all_def fs_op_err stage1_def)
  next
    case (Inr u)
    then have same: "files h1 p = files h p" using create_dir_all_other c less by blast
    obtain fs where "history h1 = history h @ [fs]" "files h1 = fs"
      using c Inr by (auto simp: create_dir_all_def fs_op_ok)
    then show ?thesis using same by (auto simp: stage1_def quiet_def)
  qed
  obtain r2 h2 where s: "set_permissions d m h1 = (r2, h2)" by fastforce
  show ?thesis
  proof (cases r1)
    case Inl
    then show ?thesis using c s1 stage1_staged by (simp add: assms(3) io_bind_def)
  next
    case r1: (Inr u)
    show ?thesis
    proof (cases r2)
      case (Inl e)
      have "stage1 p h h2"
        by (rule stage1_step [OF s1 s [unfolded set_permissions_def]]) (use ne in \<open>auto split: option.splits\<close>)
      then show ?thesis using Inl c s r1 stage1_staged by (simp add: assms(3) io_bind_def)
    next
      case (Inr v)
      then have "stage2 p d m h h2" using stage2_enter [OF s1 _ ne] s by simp
      then have "stage2 p d m h (snd (tail h2))" using assms(2) by (simp add: keeps_stage2_def)
      then show ?thesis using Inr c s r1 stage2_staged by (simp add: assms(3) io_bind_def)
    qed
  qed
qed

lemma io_bind_assoc: "io_bind (io_bind a f) g = io_bind a (\<lambda>x. io_bind (f x) g)"
  by (rule ext) (auto simp: io_bind_def split: prod.splits sum.splits)

text \<open>
  C21: on Linux, whatever fails on the way, the socket of the daemon never stands in a directory
  others may enter before the endpoint's policy allows it: the history of a bind splits into
  states that have at the socket's path only what was there before, and states in which the
  directory already has its mode, which without a policy is open to its owner only.
\<close>

theorem linux_bind_order:
  assumes "path_parent (address e) = Some dir"
  shows "\<exists>pre post. history (snd (linux_bind e h)) = history h @ pre @ post \<and>
    (\<forall>fs\<in>set pre. fs (address e) = files h (address e) \<or> fs (address e) = None) \<and>
    (\<forall>fs\<in>set post. mode_at fs dir = Some (if peer_policy e = None then 0x1C0 else 0x1ED))"
proof -
  define p where "p = address e"
  define modes where "modes = socket_modes (peer_policy e)"
  define tail where "tail = io_bind (remove_existing p)
    (\<lambda>_. io_bind (bind_socket p) (\<lambda>_. io_bind (set_permissions p (socket_mode modes)) (\<lambda>_.
      io_return \<lparr>linux_address = p, linux_policy = peer_policy e\<rparr>)))"
  have ne: "dir \<noteq> p" using path_parent_shorter [OF assms] by (auto simp: p_def)
  have "keeps_stage2 p dir (directory_mode modes) h tail"
    unfolding tail_def
    by (intro keeps_stage2_bind keeps_stage2_remove_existing keeps_stage2_files keeps_stage2_return ne)
  moreover have "linux_bind e = io_bind (io_bind (create_dir_all dir)
      (\<lambda>_. set_permissions dir (directory_mode modes))) (\<lambda>_. tail)"
    unfolding linux_bind_def prepare_socket_path_def set_mode_def tail_def Let_def p_def [symmetric]
      modes_def [symmetric]
    using assms by (simp add: io_bind_assoc p_def)
  ultimately have "staged p dir (directory_mode modes) h (snd (linux_bind e h))"
    using staged_bind [OF assms [folded p_def]] by blast
  moreover have "directory_mode modes = (if peer_policy e = None then 0x1C0 else 0x1ED)"
    by (auto simp: modes_def socket_modes_def split: option.splits)
  ultimately show ?thesis by (simp add: staged_def quiet_def p_def)
qed

theorem linux_bind_order_witness:
  "\<exists>pre post. history (snd (linux_bind (new_endpoint ''/run/s'') (example_host (\<lambda>_. None) 0))) =
      history (example_host (\<lambda>_. None) 0) @ pre @ post \<and>
    (\<forall>fs\<in>set pre. fs (address (new_endpoint ''/run/s'')) = files (example_host (\<lambda>_. None) 0) (address (new_endpoint ''/run/s'')) \<or>
       fs (address (new_endpoint ''/run/s'')) = None) \<and>
    (\<forall>fs\<in>set post. mode_at fs ''/run'' =
       Some (if peer_policy (new_endpoint ''/run/s'') = None then 0x1C0 else 0x1ED))"
  by (rule linux_bind_order) (simp add: new_endpoint_def path_parent_def)

end
