(* ===== verification/Server.thy ===== *)
theory Server
  imports Transport
begin

text \<open>
  The daemon's accept loop: \<open>refusal_log.rs\<close> and \<open>server.rs\<close> under
  \<open>toolkit/dovetail_privileged_daemon/rust/src\<close>.  The loop serves each admitted connection in a
  task of its own, writes at most one line of log per minute about refused peers and counts the
  rest, and waits longer and longer while accepting fails.
\<close>

section \<open>The refusal log\<close>

text \<open>Instants and durations in milliseconds; the counter is 64 bits wide.\<close>

record RefusalLog =
  window :: nat
  last_line :: "nat option"
  silenced :: u64

definition new_refusal_log :: "nat \<Rightarrow> RefusalLog" where
  "new_refusal_log w = \<lparr>window = w, last_line = None, silenced = 0\<rparr>"

text \<open>\<open>saturating_duration_since\<close> is subtraction of naturals.\<close>

definition refused :: "nat \<Rightarrow> RefusalLog \<Rightarrow> u64 option \<times> RefusalLog" where
  "refused now log =
     (case last_line log of
        Some l \<Rightarrow>
          if now - l < window log then (None, log\<lparr>silenced := silenced log + 1\<rparr>)
          else (Some (silenced log), log\<lparr>last_line := Some now, silenced := 0\<rparr>)
      | None \<Rightarrow> (Some (silenced log), log\<lparr>last_line := Some now, silenced := 0\<rparr>))"

section \<open>The accept loop\<close>

definition REFUSAL_LOG_WINDOW :: nat where "REFUSAL_LOG_WINDOW = 60000"

text \<open>
  What \<open>select!\<close> picks in one turn: the shutdown, or what the stream of connections yields, with
  the time it is looked at; and what the loop does about it.
\<close>

datatype 'c turn =
    Shutdown
  | StreamEnd
  | Accepted 'c PeerCheck
  | Failed accept_error nat

datatype 'c action =
    Serve 'c PeerCheck
  | RefusalLine "peer_error option" u64 nat
  | Sleep u64

record loop_state =
  falhas_seguidas :: u64
  recusas :: RefusalLog

definition loop_start :: loop_state where
  "loop_start = \<lparr>falhas_seguidas = 0, recusas = new_refusal_log REFUSAL_LOG_WINDOW\<rparr>"

definition backoff :: "u64 \<Rightarrow> u64" where
  "backoff failures = min (100 * failures) 2000"

text \<open>One turn that does not end the loop.\<close>

fun loop_turn :: "'c turn \<Rightarrow> loop_state \<Rightarrow> 'c action list \<times> loop_state" where
  "loop_turn (Accepted conn peer) st = ([Serve conn peer], st\<lparr>falhas_seguidas := 0\<rparr>)"
| "loop_turn (Failed (PeerRefused reason) now) st =
     (case refused now (recusas st) of
        (Some n, log) \<Rightarrow> ([RefusalLine (Some reason) n now], st\<lparr>recusas := log\<rparr>)
      | (None, log) \<Rightarrow> ([], st\<lparr>recusas := log\<rparr>))"
| "loop_turn (Failed (AcceptIo e) now) st =
     (let n = falhas_seguidas st + 1 in ([Sleep (backoff n)], st\<lparr>falhas_seguidas := n\<rparr>))"
| "loop_turn _ st = ([], st)"

text \<open>The loop over the turns so far, and whether it has ended.\<close>

fun accept_turns :: "'c turn list \<Rightarrow> loop_state \<Rightarrow> 'c action list \<times> loop_state \<times> bool" where
  "accept_turns [] st = ([], st, False)"
| "accept_turns (t # ts) st =
     (if t = Shutdown \<or> t = StreamEnd then ([], st, True)
      else let (as, st') = loop_turn t st; (bs, st'', ended) = accept_turns ts st'
           in (as @ bs, st'', ended))"

definition accept_loop :: "'c turn list \<Rightarrow> 'c action list \<times> bool" where
  "accept_loop ts =
     (let (as, st, ended) = accept_turns ts loop_start; n = silenced (recusas st)
      in (as @ (if ended \<and> 0 < n then [RefusalLine None n 0] else []), ended))"

section \<open>The endpoint and the run\<close>

definition endpoint :: "string \<Rightarrow> PeerPolicy option \<Rightarrow> Endpoint" where
  "endpoint a policy =
     (case policy of Some p \<Rightarrow> with_peer_policy p (new_endpoint a) | None \<Rightarrow> new_endpoint a)"

text \<open>
  \<open>incoming\<close> on Linux turns what the system accepts into turns of the loop; \<open>closed\<close> collects the
  streams the listener dropped.
\<close>

fun incoming_turn :: "LinuxListener \<Rightarrow> ('s \<Rightarrow> peercred) \<Rightarrow> nat \<times> (io_error + 's) \<Rightarrow> 's turn" where
  "incoming_turn l getsockopt (now, x) =
     (case fst (linux_accept l getsockopt x) of
        Inl e \<Rightarrow> Failed e now
      | Inr (conn, peer) \<Rightarrow> Accepted conn peer)"

datatype run_error = PrepareFailed | BindFailed io_error

text \<open>
  \<open>run\<close> on Linux: prepare the application, bind, loop.  The system's accepts come with the time;
  the loop ends when the shutdown is chosen.
\<close>

definition run_linux :: "bool \<Rightarrow> string \<Rightarrow> PeerPolicy option \<Rightarrow> ('s \<Rightarrow> peercred) \<Rightarrow>
    (nat \<times> (io_error + 's)) list \<Rightarrow> host \<Rightarrow> (run_error + 's action list) \<times> host" where
  "run_linux prepared a policy getsockopt xs h =
     (if \<not> prepared then (Err PrepareFailed, h)
      else case linux_bind (endpoint a policy) h of
             (Inl e, h') \<Rightarrow> (Err (BindFailed e), h')
           | (Inr l, h') \<Rightarrow>
               (Ok (fst (accept_loop (map (incoming_turn l getsockopt) xs @ [Shutdown]))), h'))"

section \<open>Lemmas\<close>

definition before_end :: "'c turn list \<Rightarrow> 'c turn list" where
  "before_end = takeWhile (\<lambda>t. t \<noteq> Shutdown \<and> t \<noteq> StreamEnd)"

fun served_conn :: "'c action \<Rightarrow> ('c \<times> PeerCheck) list" where
  "served_conn (Serve c p) = [(c, p)]"
| "served_conn _ = []"

fun admitted_conn :: "'c turn \<Rightarrow> ('c \<times> PeerCheck) list" where
  "admitted_conn (Accepted c p) = [(c, p)]"
| "admitted_conn _ = []"

fun is_refusal :: "'c turn \<Rightarrow> bool" where
  "is_refusal (Failed (PeerRefused _) _) = True"
| "is_refusal _ = False"

fun line_weight :: "'c action \<Rightarrow> nat" where
  "line_weight (RefusalLine (Some _) n _) = 1 + unat n"
| "line_weight (RefusalLine None n _) = unat n"
| "line_weight _ = 0"

lemma turn_served: "concat (map served_conn (fst (loop_turn t st))) = admitted_conn t"
  by (cases "(t, st)" rule: loop_turn.cases) (auto simp: Let_def split: prod.splits option.splits)

lemma turns_served:
  "concat (map served_conn (fst (accept_turns ts st))) = concat (map admitted_conn (before_end ts))"
proof (induction ts arbitrary: st)
  case (Cons t ts)
  then show ?case using turn_served [of t st]
    by (auto simp: before_end_def Let_def split: prod.splits) (metis fst_conv)+
qed (simp add: before_end_def)

lemma u64_suc: "unat n < 2 ^ 64 - 1 \<Longrightarrow> unat (n + 1 :: u64) = unat n + 1"
  by (simp add: unat_word_ariths unat_plus_simple [THEN iffD1])

lemma turn_accounts:
  assumes "unat (silenced (recusas st)) < 2 ^ 64 - 1"
  shows "sum_list (map line_weight (fst (loop_turn t st))) + unat (silenced (recusas (snd (loop_turn t st)))) =
    unat (silenced (recusas st)) + (if is_refusal t then 1 else 0)"
  using assms u64_suc
  by (cases "(t, st)" rule: loop_turn.cases)
    (auto simp: Let_def refused_def split: prod.splits option.splits if_splits)

lemma turns_account:
  "unat (silenced (recusas st)) + length ts < 2 ^ 64 - 1 \<Longrightarrow> accept_turns ts st = (as, st', ended) \<Longrightarrow>
     sum_list (map line_weight as) + unat (silenced (recusas st')) =
     unat (silenced (recusas st)) + length (filter is_refusal (before_end ts))"
proof (induction ts arbitrary: st as)
  case (Cons t ts)
  show ?case
  proof (cases "t = Shutdown \<or> t = StreamEnd")
    case False
    obtain a1 st1 where t: "loop_turn t st = (a1, st1)" by fastforce
    obtain a2 where ts: "accept_turns ts st1 = (a2, st', ended)" "as = a1 @ a2"
      using Cons.prems(2) False t by (auto split: prod.splits)
    have acc: "sum_list (map line_weight a1) + unat (silenced (recusas st1)) =
        unat (silenced (recusas st)) + (if is_refusal t then 1 else 0)"
      using turn_accounts [of st t] Cons.prems(1) t by simp
    then have "unat (silenced (recusas st1)) + length ts < 2 ^ 64 - 1"
      using Cons.prems(1) by (simp split: if_splits)
    from Cons.IH [OF this ts(1)] show ?thesis
      using acc False ts(2) by (simp add: before_end_def split: if_splits)
  qed (use Cons.prems in \<open>auto simp: before_end_def\<close>)
qed (simp add: before_end_def)

text \<open>The lines with a reason, with their times.\<close>

fun line_time :: "'c action \<Rightarrow> nat list" where
  "line_time (RefusalLine (Some _) _ now) = [now]"
| "line_time _ = []"

fun spaced :: "nat \<Rightarrow> nat option \<Rightarrow> nat list \<Rightarrow> bool" where
  "spaced w l [] = True"
| "spaced w l (t # ts) =
     ((case l of Some p \<Rightarrow> p + w \<le> t | None \<Rightarrow> True) \<and> spaced w (Some t) ts)"

lemma turn_spaced:
  assumes "loop_turn t st = (as, st')" and "0 < window (recusas st)"
  shows "window (recusas st') = window (recusas st) \<and>
    (\<forall>ts. spaced (window (recusas st)) (last_line (recusas st')) ts \<longrightarrow>
       spaced (window (recusas st)) (last_line (recusas st)) (concat (map line_time as) @ ts))"
  using assms
  by (cases "(t, st)" rule: loop_turn.cases)
    (auto simp: Let_def refused_def split: prod.splits option.splits if_splits)

lemma turns_spaced:
  "accept_turns ts st = (as, st', ended) \<Longrightarrow> 0 < window (recusas st) \<Longrightarrow>
     spaced (window (recusas st)) (last_line (recusas st)) (concat (map line_time as))"
proof (induction ts arbitrary: st as)
  case (Cons t ts)
  show ?case
  proof (cases "t = Shutdown \<or> t = StreamEnd")
    case False
    obtain a1 st1 where t: "loop_turn t st = (a1, st1)" by fastforce
    obtain a2 where ts: "accept_turns ts st1 = (a2, st', ended)" "as = a1 @ a2"
      using Cons.prems(1) False t by (auto split: prod.splits)
    note sp = turn_spaced [OF t Cons.prems(2)]
    then have "0 < window (recusas st1)" using Cons.prems(2) by simp
    from Cons.IH [OF ts(1) this] show ?thesis using sp ts(2) by simp
  qed (use Cons.prems in auto)
qed simp

text \<open>How many accepts in a row have failed, after some turns.\<close>

fun failures_in_a_row :: "'c turn list \<Rightarrow> nat" where
  "failures_in_a_row [] = 0"
| "failures_in_a_row (Accepted _ _ # ts) = 0"
| "failures_in_a_row (Failed (AcceptIo _) _ # ts) = Suc (failures_in_a_row ts)"
| "failures_in_a_row (_ # ts) = failures_in_a_row ts"

fun sleep_of :: "'c action \<Rightarrow> u64 list" where
  "sleep_of (Sleep d) = [d]"
| "sleep_of _ = []"

text \<open>The waits, turn by turn; \<open>seen\<close> is the turns before, the latest first.\<close>

fun waits :: "'c turn list \<Rightarrow> 'c turn list \<Rightarrow> nat list" where
  "waits seen [] = []"
| "waits seen (Failed (AcceptIo e) now # ts) =
     min (100 * Suc (failures_in_a_row seen)) 2000 # waits (Failed (AcceptIo e) now # seen) ts"
| "waits seen (t # ts) = waits (t # seen) ts"

lemma backoff_value:
  assumes "unat n < 2 ^ 57"
  shows "unat (backoff n) = min (100 * unat n) 2000"
proof -
  have "unat (100 * n) = 100 * unat n"
    using assms by (simp add: unat_mult_lem [THEN iffD1])
  then show ?thesis by (simp add: backoff_def min_def word_le_nat_alt)
qed

lemma turn_waits:
  assumes "loop_turn t st = (as, st')" and "unat (falhas_seguidas st) = failures_in_a_row seen"
    and "length seen < 2 ^ 56" and "t \<noteq> Shutdown" and "t \<noteq> StreamEnd"
  shows "unat (falhas_seguidas st') = failures_in_a_row (t # seen) \<and>
    map unat (concat (map sleep_of as)) @ waits (t # seen) ts = waits seen (t # ts)"
proof -
  have "failures_in_a_row seen \<le> length seen"
    by (induction seen rule: failures_in_a_row.induct) auto
  then have n: "unat (falhas_seguidas st) < 2 ^ 56" using assms(2,3) by simp
  then have s: "unat (falhas_seguidas st + 1) = Suc (unat (falhas_seguidas st))"
    using u64_suc [of "falhas_seguidas st"] by simp
  then have "unat (backoff (falhas_seguidas st + 1)) = min (100 * Suc (unat (falhas_seguidas st))) 2000"
    using backoff_value [of "falhas_seguidas st + 1"] n by simp
  then show ?thesis
    using assms s
    by (cases "(t, st)" rule: loop_turn.cases) (auto simp: Let_def split: prod.splits option.splits)
qed

lemma turns_wait:
  "accept_turns ts st = (as, st', ended) \<Longrightarrow> unat (falhas_seguidas st) = failures_in_a_row seen \<Longrightarrow>
     length seen + length ts < 2 ^ 56 \<Longrightarrow>
     map unat (concat (map sleep_of as)) = waits seen (before_end ts)"
proof (induction ts arbitrary: st as seen)
  case (Cons t ts)
  show ?case
  proof (cases "t = Shutdown \<or> t = StreamEnd")
    case False
    obtain a1 st1 where t: "loop_turn t st = (a1, st1)" by fastforce
    obtain a2 where ts: "accept_turns ts st1 = (a2, st', ended)" "as = a1 @ a2"
      using Cons.prems(1) False t by (auto split: prod.splits)
    have "length seen < 2 ^ 56" using Cons.prems(3) by simp
    note w = turn_waits [OF t Cons.prems(2) this]
    have "unat (falhas_seguidas st1) = failures_in_a_row (t # seen)" using w False by blast
    from Cons.IH [OF ts(1) this] Cons.prems(3)
    have "map unat (concat (map sleep_of a2)) = waits (t # seen) (before_end ts)" by simp
    then show ?thesis using w [of "before_end ts"] False ts(2) by (simp add: before_end_def)
  qed (use Cons.prems in \<open>auto simp: before_end_def\<close>)
qed (simp add: before_end_def)

lemma accept_loop_parts:
  obtains as st ended where "accept_turns ts loop_start = (as, st, ended)"
    and "fst (accept_loop ts) = as @ (if ended \<and> 0 < silenced (recusas st)
      then [RefusalLine None (silenced (recusas st)) 0] else [])"
    and "snd (accept_loop ts) = ended"
  by (cases "accept_turns ts loop_start") (auto simp: accept_loop_def Let_def)

lemma turns_ended: "snd (snd (accept_turns ts st)) \<longleftrightarrow> Shutdown \<in> set ts \<or> StreamEnd \<in> set ts"
proof (induction ts arbitrary: st)
  case (Cons t ts)
  have IH: "ended \<longleftrightarrow> Shutdown \<in> set ts \<or> StreamEnd \<in> set ts"
    if "accept_turns ts st = (as, st', ended)" for st as st' ended
    using Cons.IH [of st] that by simp
  show ?case by (auto split: prod.splits dest: IH)
qed simp

lemma loop_served:
  "concat (map served_conn (fst (accept_loop ts))) = concat (map admitted_conn (before_end ts))"
proof (rule accept_loop_parts [of ts])
  fix as st ended assume "accept_turns ts loop_start = (as, st, ended)"
    "fst (accept_loop ts) = as @ (if ended \<and> 0 < silenced (recusas st)
      then [RefusalLine None (silenced (recusas st)) 0] else [])"
  then show ?thesis using turns_served [of ts loop_start] by simp
qed

section \<open>Properties\<close>

text \<open>
  C18: no refusal is lost.  When the loop has ended, the refusal lines, each for itself and for
  those it says were silenced, and the last line account for every refused peer exactly once;
  and two refusal lines are never less than the window of a minute apart, whatever the clock did.
\<close>

theorem refusals_accounted:
  assumes "Shutdown \<in> set ts \<or> StreamEnd \<in> set ts" and "length ts < 2 ^ 64 - 1"
  shows "sum_list (map line_weight (fst (accept_loop ts))) = length (filter is_refusal (before_end ts)) \<and>
    spaced 60000 None (concat (map line_time (fst (accept_loop ts))))"
proof (rule accept_loop_parts [of ts])
  fix as st ended assume t: "accept_turns ts loop_start = (as, st, ended)"
    and f: "fst (accept_loop ts) = as @ (if ended \<and> 0 < silenced (recusas st)
      then [RefusalLine None (silenced (recusas st)) 0] else [])"
  have "ended" using turns_ended [of ts loop_start] t assms(1) by simp
  have "sum_list (map line_weight as) + unat (silenced (recusas st)) = length (filter is_refusal (before_end ts))"
    using turns_account [OF _ t] assms(2) by (simp add: loop_start_def new_refusal_log_def)
  moreover have "spaced 60000 None (concat (map line_time as))"
    using turns_spaced [OF t] by (simp add: loop_start_def new_refusal_log_def REFUSAL_LOG_WINDOW_def)
  ultimately show ?thesis using f \<open>ended\<close> by (cases "silenced (recusas st) = 0") (simp_all add: word_gt_0)
qed

theorem refusals_accounted_witness:
  "let ts = [Failed (PeerRefused BadUtf16) 0, Failed (PeerRefused BadUtf16) 5,
             Accepted (1::nat) \<lparr>check_method = [], check_subject = []\<rparr>,
             Failed (PeerRefused BadUtf16) 7, StreamEnd]
   in sum_list (map line_weight (fst (accept_loop ts))) = length (filter is_refusal (before_end ts)) \<and>
      spaced 60000 None (concat (map line_time (fst (accept_loop ts))))"
  unfolding Let_def by (rule refusals_accounted) simp_all

text \<open>
  C19: the loop serves the admitted connections and no others, in the order the stream gave them,
  whatever is refused or fails between them; and before it looks at the stream again after its
  \<open>n\<close>-th failure in a row it waits \<open>100 n\<close> milliseconds, two seconds at most, starting over when
  a connection is admitted.
\<close>

theorem loop_serves_and_waits:
  assumes "length ts < 2 ^ 56"
  shows "concat (map served_conn (fst (accept_loop ts))) = concat (map admitted_conn (before_end ts)) \<and>
    map unat (concat (map sleep_of (fst (accept_loop ts)))) = waits [] (before_end ts)"
proof (rule accept_loop_parts [of ts])
  fix as st ended assume t: "accept_turns ts loop_start = (as, st, ended)"
    and f: "fst (accept_loop ts) = as @ (if ended \<and> 0 < silenced (recusas st)
      then [RefusalLine None (silenced (recusas st)) 0] else [])"
  have "map unat (concat (map sleep_of as)) = waits [] (before_end ts)"
    using turns_wait [OF t, of "[]"] assms by (simp add: loop_start_def)
  then show ?thesis using f loop_served [of ts] by simp
qed

theorem loop_serves_and_waits_witness:
  "let ts = [Failed (AcceptIo NotFound) 0, Accepted (1::nat) \<lparr>check_method = [], check_subject = []\<rparr>, StreamEnd]
   in concat (map served_conn (fst (accept_loop ts))) = concat (map admitted_conn (before_end ts)) \<and>
      map unat (concat (map sleep_of (fst (accept_loop ts)))) = waits [] (before_end ts)"
  unfolding Let_def by (rule loop_serves_and_waits) simp

lemma linux_bind_policy: "linux_bind e h = (Ok l, h') \<Longrightarrow> linux_policy l = peer_policy e"
  by (auto simp: linux_bind_def Let_def)

lemma endpoint_policy [simp]: "peer_policy (endpoint a policy) = policy"
  by (cases policy) (simp_all add: endpoint_def new_endpoint_def with_peer_policy_def)

definition linux_admitted :: "PeerPolicy option \<Rightarrow> ('s \<Rightarrow> peercred) \<Rightarrow> 's \<Rightarrow> bool" where
  "linux_admitted policy getsockopt s \<longleftrightarrow>
     (\<exists>p pid uid gid. policy = Some p \<and> getsockopt s = Inr (pid, uid, gid) \<and> admits p uid gid)"

lemma incoming_admitted:
  "map fst (admitted_conn (incoming_turn l getsockopt (now, x))) =
     (case x of Inl _ \<Rightarrow> [] | Inr s \<Rightarrow> if linux_admitted (linux_policy l) getsockopt s then [s] else [])"
proof (cases x)
  case (Inr s)
  have "is_ok (and_then (peer_credentials getsockopt s) (judge (linux_policy l))) \<longleftrightarrow>
      linux_admitted (linux_policy l) getsockopt s"
    by (auto simp: is_ok_iff judge_ok peer_credentials_def linux_admitted_def split: sum.splits)
  then show ?thesis
    using Inr by (auto simp: linux_gate.accept_cases is_ok_iff split: sum.splits)
qed (simp add: linux_gate.accept_failed)

lemma incoming_not_end: "incoming_turn l getsockopt x \<noteq> Shutdown" "incoming_turn l getsockopt x \<noteq> StreamEnd"
  by (cases x; simp split: sum.splits prod.splits)+

lemma run_linux_served:
  assumes "run_linux prepared a policy getsockopt xs h = (Ok actions, h')"
  obtains l where "linux_policy l = policy" and
    "concat (map served_conn actions) = concat (map (\<lambda>x. admitted_conn (incoming_turn l getsockopt x)) xs)"
proof -
  obtain l where l: "linux_bind (endpoint a policy) h = (Ok l, h')"
    and as: "actions = fst (accept_loop (map (incoming_turn l getsockopt) xs @ [Shutdown]))"
    using assms by (auto simp: run_linux_def split: if_splits prod.splits sum.splits)
  have none: "t \<noteq> Shutdown \<and> t \<noteq> StreamEnd" if "t \<in> set (map (incoming_turn l getsockopt) xs)" for t
    using that incoming_not_end [of l getsockopt] by auto
  have pol: "linux_policy l = policy" using linux_bind_policy [OF l] by simp
  have "before_end (map (incoming_turn l getsockopt) xs @ [Shutdown]) = map (incoming_turn l getsockopt) xs"
    unfolding before_end_def by (subst takeWhile_append2) (use none in \<open>simp_all del: incoming_turn.simps\<close>)
  then have "concat (map served_conn actions) = concat (map (\<lambda>x. admitted_conn (incoming_turn l getsockopt x)) xs)"
    using loop_served [of "map (incoming_turn l getsockopt) xs @ [Shutdown]"] by (simp add: as o_def)
  then show thesis using that pol by blast
qed

text \<open>Who a served connection comes from.\<close>

lemma incoming_peer:
  assumes "(c, peer) \<in> set (admitted_conn (incoming_turn l getsockopt (now, x)))"
  shows "x = Inr c \<and> (\<exists>p pid uid gid. linux_policy l = Some p \<and> getsockopt c = Inr (pid, uid, gid) \<and>
    admits p uid gid \<and> peer = \<lparr>check_method = ''peercred+policy'',
      check_subject = subject_of \<lparr>cred_pid = pid, cred_uid = uid, cred_gid = gid\<rparr>\<rparr>)"
proof (cases x)
  case (Inr s)
  then have "s = c" and "and_then (peer_credentials getsockopt c) (judge (linux_policy l)) = Ok peer"
    using assms by (auto simp: linux_gate.accept_cases split: sum.splits)
  then show ?thesis using Inr by (auto simp: judge_ok peer_credentials_def split: sum.splits)
qed (use assms in \<open>simp add: linux_gate.accept_failed\<close>)

text \<open>
  C17: the whole path on Linux.  Of the connections the system accepts, the daemon serves exactly
  those whose peer's credentials the kernel vouches for and the application's policy names, in
  order; an application without a policy serves nobody.
\<close>

theorem run_serves_policy:
  assumes "run_linux prepared a policy getsockopt xs h = (Ok actions, h')"
  shows "map fst (concat (map served_conn actions)) =
    filter (linux_admitted policy getsockopt) (map projr (filter (\<lambda>x. \<not> isl x) (map snd xs)))"
proof (rule run_linux_served [OF assms])
  fix l assume pol: "linux_policy l = policy" and served: "concat (map served_conn actions) =
      concat (map (\<lambda>x. admitted_conn (incoming_turn l getsockopt x)) xs)"
  have "map fst (concat (map served_conn actions)) =
      concat (map (\<lambda>x. map fst (admitted_conn (incoming_turn l getsockopt x))) xs)"
    by (simp add: served map_concat o_def)
  also have "\<dots> = filter (linux_admitted policy getsockopt) (map projr (filter (\<lambda>x. \<not> isl x) (map snd xs)))"
  proof (induction xs)
    case (Cons x xs)
    then show ?case
      by (cases x; cases "snd x") (auto simp: incoming_admitted pol simp del: incoming_turn.simps)
  qed simp
  finally show ?thesis .
qed

definition example_getsockopt :: "nat \<Rightarrow> peercred" where
  "example_getsockopt s = Inr (1, of_nat s, 0)"

definition example_run :: "(run_error + nat action list) \<times> host" where
  "example_run = run_linux True ''/r/s'' (Some (allow_uid 7 default_policy)) example_getsockopt
     [(0, Inr 7), (1, Inr 8), (2, Inl NotFound), (3, Inr 7)]
     (example_host [''/r'' \<mapsto> \<lparr>kind = Directory, node_uid = 0, node_gid = 0, node_mode = 0, content = []\<rparr>] 0)"

lemma example_bind_ok:
  "is_ok (fst (linux_bind (endpoint ''/r/s'' policy)
     (example_host [''/r'' \<mapsto> \<lparr>kind = Directory, node_uid = 0, node_gid = 0, node_mode = 0, content = []\<rparr>] 0)))"
proof -
  have "path_parent ''/r/s'' = Some ''/r''" "ancestors ''/r'' = [''/'']"
    by (simp_all add: path_parent_def ancestors.simps)
  moreover have "address (endpoint a policy) = a" for a
    by (cases policy) (simp_all add: endpoint_def new_endpoint_def with_peer_policy_def)
  ultimately show ?thesis
    by (simp add: linux_bind_def prepare_socket_path_def create_dir_all_def set_mode_def
        set_permissions_def remove_existing_def path_exists_def bind_socket_def fs_op_def
        is_dir_at_def example_host_def io_bind_def io_return_def Let_def)
qed

lemma example_run_ok: "is_ok (fst example_run)"
  using example_bind_ok [of "Some (allow_uid 7 default_policy)"]
  by (auto simp: example_run_def run_linux_def split: prod.splits sum.splits)

theorem run_serves_policy_witness:
  "\<exists>actions h'. example_run = (Ok actions, h') \<and>
    map fst (concat (map served_conn actions)) =
    filter (linux_admitted (Some (allow_uid 7 default_policy)) example_getsockopt)
      (map projr (filter (\<lambda>x. \<not> isl x) (map snd [(0::nat, Inr 7), (1, Inr 8), (2, Inl NotFound), (3, Inr 7)])))"
proof -
  obtain actions h' where r: "example_run = (Ok actions, h')"
    using example_run_ok by (auto simp: is_ok_iff prod_eq_iff)
  show ?thesis
    by (rule exI [of _ actions], rule exI [of _ h'], rule conjI [OF r],
        rule run_serves_policy [OF r [unfolded example_run_def]])
qed

end
