(* ===== verification/Daemon.thy ===== *)
theory Daemon
  imports Connection Server
begin

text \<open>
  The daemon while it serves several connections at once: \<open>run\<close> of
  \<open>toolkit/dovetail_privileged_daemon/rust/src/server.rs\<close>, whose accept loop spawns a task per
  connection, and the tasks of \<open>connection.rs\<close>, which share one application.  A task is cut at
  every await: the read of the hello, the write of the server's hello, the read of a request, the
  dispatch and the write of a response.  Each of them may keep the task where it is for any number
  of turns, so that turns of the loop and of all tasks interleave freely.
\<close>

section \<open>The tasks\<close>

text \<open>
  The application as the tasks share it: \<open>dispatch\<close> makes a future, every poll of which may change
  the shared state and either has the answer or leaves a future to poll again; dispatches of
  different connections overlap.
\<close>

record ('s, 'f, 'cmd, 'rep) shared_app =
  app_validate :: "'cmd \<Rightarrow> string + unit"
  app_dispatch :: "'cmd \<Rightarrow> 'f"
  app_poll :: "'s \<Rightarrow> 'f \<Rightarrow> ('rep RespPayload + 'f) \<times> 's"

text \<open>
  Where a task is in \<open>handle_conn_with_generator\<close>: it is about to read the hello, is writing the
  server's hello (with what \<open>server_handshake\<close> gives after it), waits for a request, has one, waits
  for its dispatch, is writing the response, or has returned.
\<close>

datatype ('f, 'cmd, 'rep) phase =
    Opening "io_error + nonce"
  | Greeting ServerHello "channel_error + ServerHandshakeResult"
  | Waiting
  | Requested "'cmd Request"
  | Dispatching "'cmd Request" 'f
  | Answering "'rep Response"
  | Finished "channel_error + unit"

text \<open>\<open>first_stream\<close> remembers what the task was spawned with.\<close>

record ('c, 'f, 'cmd, 'rep) task =
  task_conn :: 'c
  task_peer :: PeerCheck
  task_generator :: "io_error + nonce"
  first_stream :: framer
  stream :: framer
  phase :: "('f, 'cmd, 'rep) phase"

definition spawn_task :: "io_error + nonce \<Rightarrow> framer \<Rightarrow> 'c \<times> PeerCheck \<Rightarrow> ('c, 'f, 'cmd, 'rep) task" where
  "spawn_task generator fr conn =
     \<lparr>task_conn = fst conn, task_peer = snd conn, task_generator = generator, first_stream = fr,
      stream = fr, phase = Opening generator\<rparr>"

definition payload_of :: "'rep RespPayload option \<Rightarrow> 'rep RespPayload" where
  "payload_of answer = (case answer of Some p \<Rightarrow> p | None \<Rightarrow> timeout_payload)"

text \<open>
  What a turn may still have to wait for.  A read waits while the peer is silent, and a write while
  the peer does not take what is written, once the frame has been serialized within the limit.
\<close>

definition silent :: "framer \<Rightarrow> bool" where
  "silent fr = (case inbound fr of Silent # _ \<Rightarrow> True | _ \<Rightarrow> False)"

definition reaches_stream :: "('req, 'resp) serde \<Rightarrow> ('req, 'resp) Frame \<Rightarrow> bool" where
  "reaches_stream js frame =
     (case to_vec js frame of None \<Rightarrow> False | Some bytes \<Rightarrow> length bytes \<le> MAX_FRAME_BYTES)"

text \<open>
  One turn of a task: where it is afterwards, with its stream and the application's state, and the
  command whose dispatch came to an end in this turn, with the answer (\<open>None\<close>: the time was up).
  \<open>elapsed\<close> says that the deadline of the wait has passed, and \<open>written\<close> that the stream has taken
  the frame the task is writing, or failed.  \<open>timeout\<close> polls the future before it looks at the
  clock, so a deadline counts only while the future is pending; the two writes have no deadline.
\<close>

fun task_turn :: "('cmd, 'rep) serde \<Rightarrow> ('s, 'f, 'cmd, 'rep) shared_app \<Rightarrow> string \<Rightarrow> PeerCheck \<Rightarrow> bool \<Rightarrow> bool \<Rightarrow>
    's \<Rightarrow> framer \<Rightarrow> ('f, 'cmd, 'rep) phase \<Rightarrow>
    ('f, 'cmd, 'rep) phase \<times> framer \<times> 's \<times> ('cmd \<times> 'rep RespPayload option) list" where
  "task_turn js app version peer elapsed written s fr (Opening (Inl e)) =
     (Finished (Err (Generator e)), fr, s, [])"
| "task_turn js app version peer elapsed written s fr (Opening (Inr nonce)) =
     (if silent fr \<and> \<not> elapsed then (Opening (Inr nonce), fr, s, [])
      else let config = conn_config version peer
      in case read_hello js fr of
        (Err (e, why), fr1) \<Rightarrow> (Greeting (refusal_hello config nonce why) (Err e), fr1, s, [])
      | (Ok hello, fr1) \<Rightarrow>
          (Greeting (answer_hello config nonce hello)
             (Ok \<lparr>result_accepted = (proto_major hello = server_major config),
                  negotiated_minor = min (proto_minor hello) (server_minor config),
                  client_hello = hello\<rparr>), fr1, s, []))"
| "task_turn js app version peer elapsed written s fr (Greeting sh outcome) =
     (if \<not> written \<and> reaches_stream js (FServerHello sh) then (Greeting sh outcome, fr, s, [])
      else case (outcome, send_frame js (FServerHello sh) fr) of
        (Err e, (_, fr1)) \<Rightarrow> (Finished (Err e), fr1, s, [])
      | (Ok _, (Err e, fr1)) \<Rightarrow> (Finished (Err e), fr1, s, [])
      | (Ok shake, (Ok _, fr1)) \<Rightarrow>
          (if \<not> result_accepted shake then Finished (Ok ()) else Waiting, fr1, s, []))"
| "task_turn js app version peer elapsed written s fr Waiting =
     (if silent fr \<and> \<not> elapsed then (Waiting, fr, s, [])
      else case recv_frame js fr of
        (Some (Ok (Some (FRequest req))), fr1) \<Rightarrow> (Requested req, fr1, s, [])
      | (_, fr1) \<Rightarrow> (Finished (Ok ()), fr1, s, []))"
| "task_turn js app version peer elapsed written s fr (Requested req) =
     (case app_validate app (req_cmd req) of
        Inl msg \<Rightarrow>
          (Answering \<lparr>resp_id = req_id req, resp_payload = erro invalid_params msg False\<rparr>, fr, s, [])
      | Inr _ \<Rightarrow> (Dispatching req (app_dispatch app (req_cmd req)), fr, s, []))"
| "task_turn js app version peer elapsed written s fr (Dispatching req fut) =
     (case app_poll app s fut of
        (Inl payload, s1) \<Rightarrow>
          (Answering \<lparr>resp_id = req_id req, resp_payload = payload\<rparr>, fr, s1, [(req_cmd req, Some payload)])
      | (Inr fut', s1) \<Rightarrow>
          if elapsed
          then (Answering \<lparr>resp_id = req_id req, resp_payload = timeout_payload\<rparr>, fr, s1, [(req_cmd req, None)])
          else (Dispatching req fut', fr, s1, []))"
| "task_turn js app version peer elapsed written s fr (Answering resp) =
     (if \<not> written \<and> reaches_stream js (FResponse resp) then (Answering resp, fr, s, [])
      else case send_frame js (FResponse resp) fr of
        (Err e, fr1) \<Rightarrow> (Finished (Err e), fr1, s, [])
      | (Ok _, fr1) \<Rightarrow> (Waiting, fr1, s, []))"
| "task_turn js app version peer elapsed written s fr (Finished r) = (Finished r, fr, s, [])"

section \<open>The daemon\<close>

text \<open>
  The daemon is its accept loop, its tasks in the order they were spawned, and the application's
  state.  \<open>dispatched\<close> is the history of dispatches that came to an end, in the order they did,
  with the task each belongs to.
\<close>

record ('c, 's, 'f, 'cmd, 'rep) daemon =
  accepting :: bool
  loop :: loop_state
  tasks :: "('c, 'f, 'cmd, 'rep) task list"
  app_state :: 's
  dispatched :: "(nat \<times> 'cmd \<times> 'rep RespPayload option) list"

definition daemon_start :: "'s \<Rightarrow> ('c, 's, 'f, 'cmd, 'rep) daemon" where
  "daemon_start s = \<lparr>accepting = True, loop = loop_start, tasks = [], app_state = s, dispatched = []\<rparr>"

text \<open>
  What happens next: a turn of the accept loop, with what the generator and the stream of a
  connection it serves hold, or a turn of a task, with whether its deadline has passed and whether
  what it writes has been taken.
\<close>

datatype 'c event =
    Loop "'c turn" "io_error + nonce" framer
  | Turn nat bool bool

fun enabled :: "'c event \<Rightarrow> ('c, 's, 'f, 'cmd, 'rep) daemon \<Rightarrow> bool" where
  "enabled (Loop t generator fr) d = accepting d"
| "enabled (Turn i elapsed written) d = (i < length (tasks d))"

fun perform :: "('cmd, 'rep) serde \<Rightarrow> ('s, 'f, 'cmd, 'rep) shared_app \<Rightarrow> string \<Rightarrow> 'c event \<Rightarrow>
    ('c, 's, 'f, 'cmd, 'rep) daemon \<Rightarrow> ('c, 's, 'f, 'cmd, 'rep) daemon" where
  "perform js app version (Loop t generator fr) d =
     (if t = Shutdown \<or> t = StreamEnd then d\<lparr>accepting := False\<rparr>
      else let (as, st) = loop_turn t (loop d)
           in d\<lparr>loop := st,
                tasks := tasks d @ map (spawn_task generator fr) (concat (map served_conn as))\<rparr>)"
| "perform js app version (Turn i elapsed written) d =
     (let t = tasks d ! i;
          (ph, fr, s, ends) = task_turn js app version (task_peer t) elapsed written (app_state d) (stream t) (phase t)
      in d\<lparr>tasks := (tasks d)[i := t\<lparr>stream := fr, phase := ph\<rparr>], app_state := s,
           dispatched := dispatched d @ map (Pair i) ends\<rparr>)"

inductive daemon_step :: "('cmd, 'rep) serde \<Rightarrow> ('s, 'f, 'cmd, 'rep) shared_app \<Rightarrow> string \<Rightarrow>
    ('c, 's, 'f, 'cmd, 'rep) daemon \<Rightarrow> 'c event \<Rightarrow> ('c, 's, 'f, 'cmd, 'rep) daemon \<Rightarrow> bool"
  for js app version where
  step: "enabled e d \<Longrightarrow> daemon_step js app version d e (perform js app version e d)"

inductive daemon_runs :: "('cmd, 'rep) serde \<Rightarrow> ('s, 'f, 'cmd, 'rep) shared_app \<Rightarrow> string \<Rightarrow>
    ('c, 's, 'f, 'cmd, 'rep) daemon \<Rightarrow> 'c event list \<Rightarrow> ('c, 's, 'f, 'cmd, 'rep) daemon \<Rightarrow> bool"
  for js app version d where
  starts: "daemon_runs js app version d [] d"
| goes_on: "daemon_runs js app version d es d' \<Longrightarrow> daemon_step js app version d' e d'' \<Longrightarrow>
     daemon_runs js app version d (es @ [e]) d''"

inductive_cases daemon_stepE: "daemon_step js app version d e d'"
inductive_simps daemon_step_simp: "daemon_step js app version d e d'"

section \<open>A task and its connection\<close>

text \<open>
  What the rest of a connection does from a phase on, in terms of \<open>Connection\<close>, for an application
  that answers at once.
\<close>

definition after_answer :: "('cmd, 'rep) serde \<Rightarrow> ('s, 'cmd, 'rep) app \<Rightarrow> framer \<Rightarrow> 'rep Response \<Rightarrow> 's \<Rightarrow>
    ('s, 'cmd) served_conn" where
  "after_answer js app fr resp s =
     (case send_frame js (FResponse resp) fr of
        (Err e, fr1) \<Rightarrow> (Err e, fr1, s, [])
      | (Ok _, fr1) \<Rightarrow> serve_requests js app s fr1)"

definition having_run :: "'cmd list \<Rightarrow> ('s, 'cmd) served_conn \<Rightarrow> ('s, 'cmd) served_conn" where
  "having_run cmds served = (case served of (r, fr, s, cmds') \<Rightarrow> (r, fr, s, cmds @ cmds'))"

fun rest_of_task :: "('cmd, 'rep) serde \<Rightarrow> ('s, 'cmd, 'rep) app \<Rightarrow> string \<Rightarrow> PeerCheck \<Rightarrow> 's \<Rightarrow> framer \<Rightarrow>
    ('f, 'cmd, 'rep) phase \<Rightarrow> ('s, 'cmd) served_conn" where
  "rest_of_task js app version peer s fr (Opening generator) =
     handle_conn_with_generator js app version peer generator s fr"
| "rest_of_task js app version peer s fr (Greeting sh outcome) =
     (case (outcome, send_frame js (FServerHello sh) fr) of
        (Err e, (_, fr1)) \<Rightarrow> (Err e, fr1, s, [])
      | (Ok _, (Err e, fr1)) \<Rightarrow> (Err e, fr1, s, [])
      | (Ok shake, (Ok _, fr1)) \<Rightarrow>
          if \<not> result_accepted shake then (Ok (), fr1, s, []) else serve_requests js app s fr1)"
| "rest_of_task js app version peer s fr Waiting = serve_requests js app s fr"
| "rest_of_task js app version peer s fr (Requested req) =
     (case answer_request app s (req_cmd req) of
        (payload, s1, cmds) \<Rightarrow>
          having_run cmds (after_answer js app fr \<lparr>resp_id = req_id req, resp_payload = payload\<rparr> s1))"
| "rest_of_task js app version peer s fr (Dispatching req fut) =
     (case dispatch app s (req_cmd req) (command_timeout app (req_cmd req)) of
        (answer, s1) \<Rightarrow>
          having_run [req_cmd req]
            (after_answer js app fr \<lparr>resp_id = req_id req, resp_payload = payload_of answer\<rparr> s1))"
| "rest_of_task js app version peer s fr (Answering resp) = after_answer js app fr resp s"
| "rest_of_task js app version peer s fr (Finished r) = (r, fr, s, [])"

text \<open>An application that gives the answers of a list, whatever it is asked.\<close>

definition replay :: "('s, 'f, 'cmd, 'rep) shared_app \<Rightarrow> ('rep RespPayload option list, 'cmd, 'rep) app" where
  "replay app = \<lparr>validate = app_validate app, command_timeout = (\<lambda>_. 0),
     dispatch = (\<lambda>answers _ _. case answers of [] \<Rightarrow> (None, []) | a # as \<Rightarrow> (a, as))\<rparr>"

lemma replay_simps [simp]:
  "validate (replay app) = app_validate app"
  "dispatch (replay app) (a # as) c n = (a, as)"
  by (simp_all add: replay_def)

lemma having_run_nil [simp]: "having_run [] x = x"
  by (cases x) (simp add: having_run_def)

lemma having_run_append [simp]: "having_run xs (having_run ys x) = having_run (xs @ ys) x"
  by (cases x) (simp add: having_run_def)

lemma serve_requests_phase:
  "serve_requests js app s fr =
     (case recv_frame js fr of
        (Some (Ok (Some (FRequest req))), fr1) \<Rightarrow> rest_of_task js app version peer s fr1 (Requested req)
      | (_, fr1) \<Rightarrow> (Ok (), fr1, s, []))"
  by (subst serve_requests.simps)
    (simp add: after_answer_def having_run_def split: prod.splits sum.splits option.splits Frame.splits)

text \<open>A turn of a task takes nothing from what its connection comes to.\<close>

lemma task_turn_rest:
  assumes "task_turn js app version peer elapsed written s fr ph = (ph', fr', s', ends)"
  shows "rest_of_task js (replay app) version peer (map snd ends @ answers) fr ph =
    having_run (map fst ends) (rest_of_task js (replay app) version peer answers fr' ph')"
  using assms
proof (cases ph)
  case (Opening generator)
  then show ?thesis using assms
    by (cases generator)
      (auto simp: handle_conn_with_generator_def handle_conn_with_nonce_def server_handshake_def Let_def
          conn_config_def
        split: prod.splits sum.splits if_splits)
next
  case (Greeting sh outcome)
  then show ?thesis using assms by (auto split: prod.splits sum.splits if_splits)
next
  case Waiting
  then show ?thesis using assms serve_requests_phase [of js "replay app" answers fr version peer]
    by (auto split: prod.splits option.splits sum.splits Frame.splits if_splits)
next
  case (Requested req)
  then show ?thesis using assms
    by (auto simp: answer_request_def payload_of_def split: sum.splits prod.splits option.splits)
next
  case (Dispatching req fut)
  then show ?thesis using assms
    by (auto simp: payload_of_def split: prod.splits sum.splits if_splits)
next
  case (Answering resp)
  then show ?thesis using assms by (auto simp: after_answer_def split: prod.splits sum.splits if_splits)
qed auto

section \<open>Histories\<close>

text \<open>The dispatches of one task: the commands, and the answers.\<close>

definition cmds_of :: "nat \<Rightarrow> ('c, 's, 'f, 'cmd, 'rep) daemon \<Rightarrow> 'cmd list" where
  "cmds_of i d = map (\<lambda>x. fst (snd x)) (filter (\<lambda>x. fst x = i) (dispatched d))"

definition answers_of :: "nat \<Rightarrow> ('c, 's, 'f, 'cmd, 'rep) daemon \<Rightarrow> 'rep RespPayload option list" where
  "answers_of i d = map (\<lambda>x. snd (snd x)) (filter (\<lambda>x. fst x = i) (dispatched d))"

text \<open>
  What ties a task to its connection: with the answers it was given so far and any to come, the
  connection it was spawned for comes to what the task has done and will do.
\<close>

definition keeps_connection :: "('cmd, 'rep) serde \<Rightarrow> ('s, 'f, 'cmd, 'rep) shared_app \<Rightarrow> string \<Rightarrow>
    'cmd list \<Rightarrow> 'rep RespPayload option list \<Rightarrow> ('c, 'f, 'cmd, 'rep) task \<Rightarrow> bool" where
  "keeps_connection js app version cmds answers t \<longleftrightarrow>
     (\<forall>more_answers. handle_conn_with_generator js (replay app) version (task_peer t) (task_generator t)
          (answers @ more_answers) (first_stream t) =
        having_run cmds (rest_of_task js (replay app) version (task_peer t) more_answers (stream t) (phase t))) \<and>
     (\<exists>bs. sent (stream t) = sent (first_stream t) @ bs)"

lemma send_frame_grows: "send_frame js f fr = (r, fr') \<Longrightarrow> \<exists>bs. sent fr' = sent fr @ bs"
  by (auto dest: send_frame_cases)

lemma task_turn_sends:
  assumes "task_turn js app version peer elapsed written s fr ph = (ph', fr', s', ends)"
  shows "\<exists>bs. sent fr' = sent fr @ bs"
  using assms
  by (cases "(js, app, version, peer, elapsed, written, s, fr, ph)" rule: task_turn.cases)
    (auto simp: Let_def split: prod.splits sum.splits if_splits option.splits Frame.splits
      dest!: read_hello_sent send_frame_grows)

lemma keeps_connection_start: "keeps_connection js app version [] [] (spawn_task generator fr conn)"
  by (simp add: keeps_connection_def spawn_task_def)

lemma keeps_connection_turn:
  assumes "keeps_connection js app version cmds answers t"
    and "task_turn js app version (task_peer t) elapsed written s (stream t) (phase t) = (ph, fr, s', ends)"
  shows "keeps_connection js app version (cmds @ map fst ends) (answers @ map snd ends)
    (t\<lparr>stream := fr, phase := ph\<rparr>)"
  using assms(1) task_turn_rest [OF assms(2)] task_turn_sends [OF assms(2)]
  by (auto simp: keeps_connection_def)

definition daemon_invariant :: "('cmd, 'rep) serde \<Rightarrow> ('s, 'f, 'cmd, 'rep) shared_app \<Rightarrow> string \<Rightarrow>
    ('c, 's, 'f, 'cmd, 'rep) daemon \<Rightarrow> bool" where
  "daemon_invariant js app version d \<longleftrightarrow>
     (\<forall>x\<in>set (dispatched d). fst x < length (tasks d)) \<and>
     (\<forall>i<length (tasks d). keeps_connection js app version (cmds_of i d) (answers_of i d) (tasks d ! i))"

lemma no_history:
  assumes "\<forall>x\<in>set (dispatched d). fst x < n" and "n \<le> i"
  shows "cmds_of i d = []" and "answers_of i d = []"
  using assms by (auto simp: cmds_of_def answers_of_def filter_empty_conv)

lemma invariant_loop:
  fixes d :: "('c, 's, 'f, 'cmd, 'rep) daemon"
  assumes "daemon_invariant js app version d"
  shows "daemon_invariant js app version (perform js app version (Loop t generator fr) d)"
proof (cases "t = Shutdown \<or> t = StreamEnd")
  case True
  then show ?thesis using assms by (simp add: daemon_invariant_def cmds_of_def answers_of_def)
next
  case False
  obtain as st where turn: "loop_turn t (loop d) = (as, st)" by fastforce
  define ts :: "('c, 'f, 'cmd, 'rep) task list" where
    "ts = map (spawn_task generator fr) (concat (map served_conn as))"
  define d' where "d' = d\<lparr>loop := st, tasks := tasks d @ ts\<rparr>"
  have new: "keeps_connection js app version [] [] t" if "t \<in> set ts" for t
    using that by (auto simp: ts_def keeps_connection_start)
  have same: "cmds_of i d' = cmds_of i d" "answers_of i d' = answers_of i d" for i
    by (simp_all add: d'_def cmds_of_def answers_of_def)
  have "daemon_invariant js app version d'"
    unfolding daemon_invariant_def same
  proof (intro conjI ballI allI impI)
    fix i assume i: "i < length (tasks d')"
    show "keeps_connection js app version (cmds_of i d) (answers_of i d) (tasks d' ! i)"
    proof (cases "i < length (tasks d)")
      case True
      then show ?thesis using assms by (simp add: daemon_invariant_def d'_def nth_append)
    next
      case False
      then show ?thesis
        using assms i new no_history [of d "length (tasks d)" i]
        by (simp add: daemon_invariant_def d'_def nth_append)
    qed
  qed (use assms in \<open>auto simp: daemon_invariant_def d'_def\<close>)
  then show ?thesis using False turn by (simp add: d'_def ts_def)
qed

lemma perform_turn_history:
  assumes "task_turn js app version (task_peer (tasks d ! i)) elapsed written (app_state d)
      (stream (tasks d ! i)) (phase (tasks d ! i)) = (ph, fr, s, ends)"
    and "d' = perform js app version (Turn i elapsed written) d"
  shows "tasks d' = (tasks d)[i := (tasks d ! i)\<lparr>stream := fr, phase := ph\<rparr>]" and "app_state d' = s"
    and "dispatched d' = dispatched d @ map (Pair i) ends" and "accepting d' = accepting d" and "loop d' = loop d"
    and "cmds_of k d' = cmds_of k d @ (if k = i then map fst ends else [])"
    and "answers_of k d' = answers_of k d @ (if k = i then map snd ends else [])"
  using assms by (simp_all add: Let_def cmds_of_def answers_of_def filter_map o_def)

lemma invariant_turn:
  assumes inv: "daemon_invariant js app version d" and i: "i < length (tasks d)"
  shows "daemon_invariant js app version (perform js app version (Turn i elapsed written) d)"
    (is "daemon_invariant _ _ _ ?d'")
proof -
  obtain ph fr s ends where turn: "task_turn js app version (task_peer (tasks d ! i)) elapsed written (app_state d)
      (stream (tasks d ! i)) (phase (tasks d ! i)) = (ph, fr, s, ends)"
    by (cases "task_turn js app version (task_peer (tasks d ! i)) elapsed written (app_state d)
      (stream (tasks d ! i)) (phase (tasks d ! i))")
  note after = perform_turn_history [OF turn refl]
  have "keeps_connection js app version (cmds_of k ?d') (answers_of k ?d') (tasks ?d' ! k)"
    if "k < length (tasks d)" for k
  proof (cases "k = i")
    case True
    then show ?thesis
      unfolding after using keeps_connection_turn [OF _ turn] inv i by (simp add: daemon_invariant_def)
  next
    case False
    then show ?thesis unfolding after using inv that by (simp add: daemon_invariant_def)
  qed
  moreover have "\<forall>x\<in>set (dispatched ?d'). fst x < length (tasks ?d')"
    unfolding after using inv i by (auto simp: daemon_invariant_def)
  ultimately show ?thesis unfolding daemon_invariant_def by (simp add: after(1) del: perform.simps)
qed

lemma daemon_runs_invariant:
  "daemon_runs js app version (daemon_start s0) es d \<Longrightarrow> daemon_invariant js app version d"
proof (induction rule: daemon_runs.induct)
  case starts
  then show ?case by (simp add: daemon_invariant_def daemon_start_def)
next
  case (goes_on es d' e d'')
  from goes_on.hyps(2) have "enabled e d'" "d'' = perform js app version e d'"
    unfolding daemon_step_simp by simp_all
  then show ?case using goes_on.IH invariant_loop invariant_turn by (cases e) (auto simp del: perform.simps)
qed

text \<open>What a task has still to do only adds to what it has done.\<close>

lemma serve_requests_sends: "serve_requests js app s fr = (r, fr', s', cmds) \<Longrightarrow> \<exists>bs. sent fr' = sent fr @ bs"
  by (blast dest: serve_requests_prefix [OF _ refl])

lemma after_answer_sends: "after_answer js app fr resp s = (r, fr', s', cmds) \<Longrightarrow> \<exists>bs. sent fr' = sent fr @ bs"
  by (auto simp: after_answer_def split: prod.splits sum.splits
      dest!: send_frame_grows serve_requests_sends)

lemma having_run_iff:
  "having_run cmds served = (r, fr, s, all) \<longleftrightarrow> (\<exists>cmds'. served = (r, fr, s, cmds') \<and> all = cmds @ cmds')"
  by (cases served) (auto simp: having_run_def)

lemma rest_of_task_sends:
  assumes "rest_of_task js app version peer s fr ph = (r, fr', s', cmds)"
  shows "\<exists>bs. sent fr' = sent fr @ bs"
  using assms
proof (cases ph)
  case (Opening generator)
  then show ?thesis using conn_dispatches assms by fastforce
next
  case (Greeting sh outcome)
  then show ?thesis using assms
    by (auto split: prod.splits sum.splits if_splits dest!: send_frame_grows serve_requests_sends)
qed (auto simp: having_run_iff split: prod.splits dest: serve_requests_sends after_answer_sends)

lemma task_kept:
  assumes "daemon_runs js app version (daemon_start s0) es d" and "i < length (tasks d)"
  shows "keeps_connection js app version (cmds_of i d) (answers_of i d) (tasks d ! i)"
  using daemon_runs_invariant [OF assms(1)] assms(2) by (simp add: daemon_invariant_def)

lemma connections_alone:
  assumes "daemon_runs js app version (daemon_start s0) es d" and "i < length (tasks d)" and "t = tasks d ! i"
    and "handle_conn_with_generator js (replay app) version (task_peer t) (task_generator t)
      (answers_of i d) (first_stream t) = (r, fr, left, cmds)"
  shows "(\<exists>more. cmds = cmds_of i d @ more) \<and> (\<exists>more. sent fr = sent (stream t) @ more) \<and>
    (\<forall>result. phase t = Finished result \<longrightarrow>
       r = result \<and> fr = stream t \<and> left = [] \<and> cmds = cmds_of i d)"
proof -
  have "having_run (cmds_of i d) (rest_of_task js (replay app) version (task_peer t) [] (stream t) (phase t)) =
      (r, fr, left, cmds)"
    using task_kept [OF assms(1,2)] assms(3,4) by (simp add: keeps_connection_def) (metis append_Nil2)
  then obtain cmds' where
    rest: "rest_of_task js (replay app) version (task_peer t) [] (stream t) (phase t) = (r, fr, left, cmds')"
    and "cmds = cmds_of i d @ cmds'" unfolding having_run_iff by blast
  then show ?thesis using rest_of_task_sends [OF rest] by auto
qed

section \<open>Who is served\<close>

definition loop_turns :: "'c event list \<Rightarrow> 'c turn list" where
  "loop_turns es = concat (map (\<lambda>e. case e of Loop t _ _ \<Rightarrow> [t] | Turn _ _ _ \<Rightarrow> []) es)"

definition served_by :: "('c, 's, 'f, 'cmd, 'rep) daemon \<Rightarrow> ('c \<times> PeerCheck) list" where
  "served_by d = map (\<lambda>t. (task_conn t, task_peer t)) (tasks d)"

lemma loop_turns_snoc [simp]:
  "loop_turns (es @ [Loop t generator fr]) = loop_turns es @ [t]"
  "loop_turns (es @ [Turn i elapsed written]) = loop_turns es"
  by (simp_all add: loop_turns_def)

lemma before_end_snoc:
  "before_end (ts @ [t]) =
     before_end ts @ (if Shutdown \<in> set ts \<or> StreamEnd \<in> set ts \<or> t = Shutdown \<or> t = StreamEnd then [] else [t])"
  by (induction ts) (auto simp: before_end_def)

lemma map_update_same: "f x = f (xs ! i) \<Longrightarrow> map f (xs[i := x]) = map f xs"
  by (cases "i < length xs") (simp_all add: map_update list_update_beyond, metis list_update_id nth_map)

lemma served_by_turn: "served_by (perform js app version (Turn i elapsed written) d) = served_by d"
  by (simp add: served_by_def Let_def map_update_same split: prod.splits)

lemma served_by_loop:
  assumes "\<not> (t = Shutdown \<or> t = StreamEnd)"
  shows "served_by (perform js app version (Loop t generator fr) d) = served_by d @ admitted_conn t"
proof -
  obtain as st where "loop_turn t (loop d) = (as, st)" by fastforce
  then show ?thesis
    using assms turn_served [of t "loop d"] by (simp add: served_by_def o_def spawn_task_def)
qed

lemma perform_accepting:
  "accepting (perform js app version e d) \<longleftrightarrow>
     accepting d \<and> (case e of Loop t _ _ \<Rightarrow> t \<noteq> Shutdown \<and> t \<noteq> StreamEnd | Turn _ _ _ \<Rightarrow> True)"
  by (cases e) (auto simp: Let_def split: prod.splits)

lemma daemon_serves:
  "daemon_runs js app version (daemon_start s0) es d \<Longrightarrow>
     served_by d = concat (map admitted_conn (before_end (loop_turns es))) \<and>
     (accepting d \<longleftrightarrow> Shutdown \<notin> set (loop_turns es) \<and> StreamEnd \<notin> set (loop_turns es))"
proof (induction rule: daemon_runs.induct)
  case starts
  then show ?case by (simp add: served_by_def daemon_start_def loop_turns_def before_end_def)
next
  case (goes_on es d' e d'')
  from goes_on.hyps(2) have e: "enabled e d'" "d'' = perform js app version e d'"
    unfolding daemon_step_simp by simp_all
  show ?case
  proof (cases e)
    case (Loop t generator fr)
    show ?thesis
    proof (cases "t = Shutdown \<or> t = StreamEnd")
      case True
      then show ?thesis using goes_on.IH e Loop by (auto simp: before_end_snoc served_by_def)
    next
      case False
      then show ?thesis using goes_on.IH e Loop
        by (auto simp: before_end_snoc served_by_loop perform_accepting simp del: perform.simps)
    qed
  next
    case (Turn i elapsed written)
    then show ?thesis using goes_on.IH e
      by (simp add: served_by_turn perform_accepting del: perform.simps)
  qed
qed

section \<open>Turns left\<close>

text \<open>
  The waits a peer can end, or a deadline.  \<open>heard\<close> counts what arrives before the peer falls
  silent for longer than the deadline; what would arrive later is never read.
\<close>

definition heard :: "framer \<Rightarrow> nat" where
  "heard fr = length (takeWhile (\<lambda>a. a \<noteq> Silent) (inbound fr))"

text \<open>
  How many turns in which its time is up and its writes are taken a task can still take: nothing
  else makes this grow, and each such turn takes one away.
\<close>

fun turns_left :: "framer \<Rightarrow> ('f, 'cmd, 'rep) phase \<Rightarrow> nat" where
  "turns_left fr (Opening _) = 4 * heard fr + 3"
| "turns_left fr (Greeting _ (Inl _)) = 1"
| "turns_left fr (Greeting _ (Inr _)) = 4 * heard fr + 2"
| "turns_left fr Waiting = 4 * heard fr + 1"
| "turns_left fr (Requested _) = 4 * heard fr + 4"
| "turns_left fr (Dispatching _ _) = 4 * heard fr + 3"
| "turns_left fr (Answering _) = 4 * heard fr + 2"
| "turns_left fr (Finished _) = 0"

lemma turns_left_0: "turns_left fr ph = 0 \<longleftrightarrow> (\<exists>r. ph = Finished r)"
  by (cases "(fr, ph)" rule: turns_left.cases) auto

lemma turns_left_bound: "turns_left fr ph \<le> 4 * heard fr + 4"
  by (cases "(fr, ph)" rule: turns_left.cases) simp_all

lemma heard_send: "send_frame js f fr = (r, fr') \<Longrightarrow> heard fr' = heard fr"
  by (auto simp: heard_def dest: send_frame_cases)

lemma heard_request:
  "recv_frame js fr = (Some (Ok (Some f)), fr') \<Longrightarrow> heard fr = Suc (heard fr')"
  by (auto simp: heard_def recv_frame_some)

lemma heard_hello: "read_hello js fr = (Ok hello, fr') \<Longrightarrow> heard fr = Suc (heard fr')"
  by (auto simp: heard_def read_hello_ok)

lemma task_turn_left:
  assumes "task_turn js app version peer elapsed written s fr ph = (ph', fr', s', ends)"
  shows "turns_left fr' ph' \<le> turns_left fr ph - (if elapsed \<and> written then 1 else 0)"
  using assms
  by (cases "(js, app, version, peer, elapsed, written, s, fr, ph)" rule: task_turn.cases)
    (auto simp: Let_def split: prod.splits sum.splits if_splits option.splits Frame.splits
      dest: heard_send heard_request heard_hello)

lemma turn_phase:
  assumes "i < length (tasks d)" and "d' = perform js app version e d"
  shows "i < length (tasks d') \<and>
    turns_left (stream (tasks d' ! i)) (phase (tasks d' ! i)) \<le>
    turns_left (stream (tasks d ! i)) (phase (tasks d ! i)) - (if e = Turn i True True then 1 else 0)"
proof (cases e)
  case (Loop t generator fr)
  then show ?thesis using assms by (auto simp: Let_def nth_append split: prod.splits)
next
  case (Turn k elapsed written)
  obtain ph fr s ends where turn: "task_turn js app version (task_peer (tasks d ! k)) elapsed written (app_state d)
      (stream (tasks d ! k)) (phase (tasks d ! k)) = (ph, fr, s, ends)"
    by (cases "task_turn js app version (task_peer (tasks d ! k)) elapsed written (app_state d)
      (stream (tasks d ! k)) (phase (tasks d ! k))")
  note after = perform_turn_history [OF turn assms(2) [unfolded Turn]]
  show ?thesis
    using assms(1) task_turn_left [OF turn] by (cases "k = i") (auto simp: after(1) Turn split: if_splits)
qed

lemma runs_turns_left:
  "daemon_runs js app version d es d' \<Longrightarrow> i < length (tasks d) \<Longrightarrow>
     i < length (tasks d') \<and>
     turns_left (stream (tasks d' ! i)) (phase (tasks d' ! i)) \<le>
     turns_left (stream (tasks d ! i)) (phase (tasks d ! i)) - length (filter (\<lambda>e. e = Turn i True True) es)"
proof (induction rule: daemon_runs.induct)
  case (goes_on es d1 e d2)
  from goes_on.hyps(2) have "d2 = perform js app version e d1"
    unfolding daemon_step_simp by simp
  from turn_phase [OF _ this, of i] goes_on.IH [OF goes_on.prems] show ?case by auto
qed simp

text \<open>The frame a task is writing.\<close>

fun writing :: "('f, 'cmd, 'rep) phase \<Rightarrow> ('cmd, 'rep) Frame option" where
  "writing (Greeting sh _) = Some (FServerHello sh)"
| "writing (Answering resp) = Some (FResponse resp)"
| "writing _ = None"

lemma task_turn_holds:
  assumes "writing ph = Some f" and "reaches_stream js f"
  shows "task_turn js app version peer elapsed False s fr ph = (ph, fr, s, [])"
  using assms by (cases ph) auto

lemma turn_holds:
  assumes "i < length (tasks d)" and "writing (phase (tasks d ! i)) = Some f" and "reaches_stream js f"
    and "\<forall>elapsed. e \<noteq> Turn i elapsed True"
  shows "i < length (tasks (perform js app version e d)) \<and> tasks (perform js app version e d) ! i = tasks d ! i"
proof (cases e)
  case (Loop t generator fr)
  then show ?thesis using assms(1) by (auto simp: Let_def nth_append split: prod.splits)
next
  case (Turn k elapsed written)
  show ?thesis
  proof (cases "k = i")
    case True
    then have e: "e = Turn i elapsed False" using assms(4) Turn by auto
    from perform_turn_history(1) [OF task_turn_holds [OF assms(2,3)] refl]
    show ?thesis unfolding e using assms(1) by simp
  next
    case False
    then show ?thesis using assms(1) Turn by (simp add: Let_def split: prod.splits)
  qed
qed

lemma runs_hold:
  assumes "daemon_runs js app version d es d'" and "i < length (tasks d)"
    and "writing (phase (tasks d ! i)) = Some f" and "reaches_stream js f"
    and "\<forall>elapsed. Turn i elapsed True \<notin> set es"
  shows "i < length (tasks d') \<and> tasks d' ! i = tasks d ! i"
  using assms
proof (induction rule: daemon_runs.induct)
  case (goes_on es d1 e d2)
  from goes_on.hyps(2) have e: "d2 = perform js app version e d1"
    unfolding daemon_step_simp by simp
  have same: "i < length (tasks d1) \<and> tasks d1 ! i = tasks d ! i"
    using goes_on.IH goes_on.prems by simp
  then show ?case
    using turn_holds [of i d1 f js e] goes_on.prems e by auto
qed simp

section \<open>An application that answers at once\<close>

text \<open>One after the other: every dispatch by itself, from the state the one before left.\<close>

fun serial :: "('s, 'f, 'cmd, 'rep) shared_app \<Rightarrow> 's \<Rightarrow> (nat \<times> 'cmd \<times> 'rep RespPayload option) list \<Rightarrow> 's \<Rightarrow> bool" where
  "serial app s [] s' = (s = s')"
| "serial app s ((i, cmd, answer) # log) s' =
     (case app_poll app s (app_dispatch app cmd) of
        (Inl payload, s1) \<Rightarrow> answer = Some payload \<and> serial app s1 log s'
      | _ \<Rightarrow> False)"

definition at_once :: "('s, 'f, 'cmd, 'rep) shared_app \<Rightarrow> bool" where
  "at_once app \<longleftrightarrow> (\<forall>s cmd. isl (fst (app_poll app s (app_dispatch app cmd))))"

lemma serial_append: "serial app s (xs @ ys) s' \<longleftrightarrow> (\<exists>s1. serial app s xs s1 \<and> serial app s1 ys s')"
  by (induction xs arbitrary: s) (auto split: prod.splits sum.splits)

definition first_poll :: "('s, 'f, 'cmd, 'rep) shared_app \<Rightarrow> ('f, 'cmd, 'rep) phase \<Rightarrow> bool" where
  "first_poll app ph \<longleftrightarrow> (\<forall>req fut. ph = Dispatching req fut \<longrightarrow> fut = app_dispatch app (req_cmd req))"

lemma at_once_ready: "at_once app \<Longrightarrow> app_poll app s (app_dispatch app cmd) \<noteq> (Inr fut, s')"
  unfolding at_once_def by (metis fst_conv sum.disc(2))

lemma task_turn_serial:
  assumes "at_once app" and "first_poll app ph"
    and "task_turn js app version peer elapsed written s fr ph = (ph', fr', s', ends)"
  shows "first_poll app ph' \<and> serial app s (map (Pair i) ends) s'"
  using assms
  by (cases "(js, app, version, peer, elapsed, written, s, fr, ph)" rule: task_turn.cases)
    (auto simp: first_poll_def at_once_ready Let_def split: prod.splits sum.splits if_splits option.splits Frame.splits)

lemma runs_serial:
  "daemon_runs js app version (daemon_start s0) es d \<Longrightarrow> at_once app \<Longrightarrow>
     (\<forall>t\<in>set (tasks d). first_poll app (phase t)) \<and> serial app s0 (dispatched d) (app_state d)"
proof (induction rule: daemon_runs.induct)
  case starts
  then show ?case by (simp add: daemon_start_def)
next
  case (goes_on es d' e d'')
  from goes_on.hyps(2) have e: "enabled e d'" "d'' = perform js app version e d'"
    unfolding daemon_step_simp by simp_all
  show ?case
  proof (cases e)
    case (Loop t generator fr)
    then show ?thesis using goes_on.IH [OF goes_on.prems] e
      by (auto simp: Let_def spawn_task_def first_poll_def split: prod.splits)
  next
    case (Turn i elapsed written)
    obtain ph fr s ends where turn: "task_turn js app version (task_peer (tasks d' ! i)) elapsed written (app_state d')
        (stream (tasks d' ! i)) (phase (tasks d' ! i)) = (ph, fr, s, ends)"
      by (cases "task_turn js app version (task_peer (tasks d' ! i)) elapsed written (app_state d')
        (stream (tasks d' ! i)) (phase (tasks d' ! i))")
    note after = perform_turn_history [OF turn e(2) [unfolded Turn]]
    have "first_poll app (phase (tasks d' ! i))"
      using goes_on.IH [OF goes_on.prems] e(1) Turn by simp
    from task_turn_serial [OF goes_on.prems this turn, of i] show ?thesis
      using goes_on.IH [OF goes_on.prems] set_update_subset_insert [of "tasks d'" i]
      by (fastforce simp: after serial_append)
  qed
qed

section \<open>The Linux daemon\<close>

lemma served_index:
  assumes "served_by d = concat (map admitted_conn ts)" and "i < length (tasks d)"
  shows "(task_conn (tasks d ! i), task_peer (tasks d ! i)) \<in> set (concat (map admitted_conn ts))"
  unfolding assms(1) [symmetric] served_by_def using assms(2) by auto

lemma linux_task_peer:
  assumes bind: "linux_bind (endpoint a policy) h = (Ok l, h')"
    and run: "daemon_runs js app version (daemon_start s0) es d"
    and turns: "before_end (loop_turns es) = map (incoming_turn l getsockopt) xs"
    and i: "i < length (tasks d)"
  shows "Inr (task_conn (tasks d ! i)) \<in> set (map snd xs) \<and>
    (\<exists>p pid uid gid. policy = Some p \<and> getsockopt (task_conn (tasks d ! i)) = Inr (pid, uid, gid) \<and>
       admits p uid gid \<and>
       check_subject (task_peer (tasks d ! i)) = subject_of \<lparr>cred_pid = pid, cred_uid = uid, cred_gid = gid\<rparr>)"
proof -
  have "served_by d = concat (map admitted_conn (map (incoming_turn l getsockopt) xs))"
    using daemon_serves [OF run] turns by simp
  from served_index [OF this i] obtain now x where x: "(now, x) \<in> set xs"
    "(task_conn (tasks d ! i), task_peer (tasks d ! i)) \<in> set (admitted_conn (incoming_turn l getsockopt (now, x)))"
    by (auto simp del: incoming_turn.simps)
  have "linux_policy l = policy" using linux_bind_policy [OF bind] by simp
  with incoming_peer [OF x(2)] x(1) show ?thesis by force
qed

lemma dispatched_of:
  assumes "daemon_runs js app version (daemon_start s0) es d" and "(i, cmd, answer) \<in> set (dispatched d)"
  shows "i < length (tasks d)" and "cmd \<in> set (cmds_of i d)"
  using daemon_runs_invariant [OF assms(1)] assms(2) by (force simp: daemon_invariant_def cmds_of_def)+

text \<open>What a task has dispatched so far.\<close>

lemma task_dispatches:
  assumes "daemon_runs js app version (daemon_start s0) es d" and "i < length (tasks d)" and "cmds_of i d \<noteq> []"
  shows "\<exists>b hello rest more. inbound (first_stream (tasks d ! i)) = Arrives b # rest \<and>
    from_slice js b = Some (FHello hello) \<and> proto_major hello = PROTOCOL_MAJOR \<and>
    cmds_of i d @ more = valid_cmds (replay app) (map (request_of js) (takeWhile (is_request js) rest))"
proof -
  obtain r fr left cmds where alone: "handle_conn_with_generator js (replay app) version (task_peer (tasks d ! i))
      (task_generator (tasks d ! i)) (answers_of i d) (first_stream (tasks d ! i)) = (r, fr, left, cmds)"
    by (cases "handle_conn_with_generator js (replay app) version (task_peer (tasks d ! i))
      (task_generator (tasks d ! i)) (answers_of i d) (first_stream (tasks d ! i))")
  from connections_alone [OF assms(1,2) refl this] obtain more where more: "cmds = cmds_of i d @ more" by blast
  from conn_dispatches [OF alone] more assms(3) show ?thesis by fastforce
qed

lemma dispatched_sent:
  assumes "daemon_runs js app version (daemon_start s0) es d" and "(i, cmd, answer) \<in> set (dispatched d)"
  shows "i < length (tasks d) \<and> cmd \<in> set (cmds_of i d) \<and> is_ok (app_validate app cmd) \<and>
    (\<exists>b hello rest more. inbound (first_stream (tasks d ! i)) = Arrives b # rest \<and>
       from_slice js b = Some (FHello hello) \<and> proto_major hello = PROTOCOL_MAJOR \<and>
       cmds_of i d @ more = valid_cmds (replay app) (map (request_of js) (takeWhile (is_request js) rest)))"
proof -
  note d = dispatched_of [OF assms]
  then have "cmds_of i d \<noteq> []" by auto
  note sent = task_dispatches [OF assms(1) d(1) this]
  then have "is_ok (app_validate app cmd)"
    using d(2) by (auto simp: valid_cmds_def) (metis (mono_tags, lifting) Un_iff mem_Collect_eq replay_simps(1) set_append set_filter)
  then show ?thesis using d sent by blast
qed

section \<open>Properties\<close>

text \<open>
  C6: connections do not disturb each other.  Whatever the order in which the accept loop and the
  tasks take their turns, and however dispatches overlap, what a connection has dispatched and
  written so far is the beginning of what the code of one connection does by itself when its
  dispatches are answered as they were here; and when its task has finished it is all of it: the
  result, the stream it leaves, the commands in order, with every answer used.
\<close>

theorem daemon_connections_alone:
  assumes "daemon_runs js app version (daemon_start s0) es d" and "i < length (tasks d)" and "t = tasks d ! i"
    and "handle_conn_with_generator js (replay app) version (task_peer t) (task_generator t)
      (answers_of i d) (first_stream t) = (r, fr, left, cmds)"
  shows "(\<exists>more. cmds = cmds_of i d @ more) \<and> (\<exists>more. sent fr = sent (stream t) @ more) \<and>
    (\<forall>result. phase t = Finished result \<longrightarrow>
       r = result \<and> fr = stream t \<and> left = [] \<and> cmds = cmds_of i d)"
  by (rule connections_alone [OF assms])

text \<open>
  C4: whatever runs at once, every command the Linux daemon dispatches comes from a process whose
  credentials the kernel vouched for and the application's policy names, over a connection the
  listener accepted, is one that validation passed, and comes after a hello of the daemon's major
  version, in the order the process sent them and none twice.
\<close>

theorem daemon_commands_authorised:
  assumes "linux_bind (endpoint a policy) h = (Ok l, h')"
    and "daemon_runs js app version (daemon_start s0) es d"
    and "before_end (loop_turns es) = map (incoming_turn l getsockopt) xs"
    and "(i, cmd, answer) \<in> set (dispatched d)"
  shows "i < length (tasks d) \<and> cmd \<in> set (cmds_of i d) \<and> is_ok (app_validate app cmd) \<and>
    Inr (task_conn (tasks d ! i)) \<in> set (map snd xs) \<and>
    (\<exists>p pid uid gid. policy = Some p \<and> getsockopt (task_conn (tasks d ! i)) = Inr (pid, uid, gid) \<and>
       admits p uid gid \<and>
       check_subject (task_peer (tasks d ! i)) = subject_of \<lparr>cred_pid = pid, cred_uid = uid, cred_gid = gid\<rparr>) \<and>
    (\<exists>b hello rest more. inbound (first_stream (tasks d ! i)) = Arrives b # rest \<and>
       from_slice js b = Some (FHello hello) \<and> proto_major hello = PROTOCOL_MAJOR \<and>
       cmds_of i d @ more = valid_cmds (replay app) (map (request_of js) (takeWhile (is_request js) rest)))"
  using dispatched_sent [OF assms(2,4)] linux_task_peer [OF assms(1-3)] by blast

text \<open>
  C10: the daemon keeps to its part of the protocol on every connection at every moment.  What it
  has written is nothing, or one server hello and then responses, one for each of the first
  requests that arrived, in their order and under their numbers; responses follow only a hello
  that accepts.
\<close>

theorem daemon_session_type:
  assumes "daemon_runs js app version (daemon_start s0) es d" and "i < length (tasks d)" and "t = tasks d ! i"
  shows "sent (stream t) = sent (first_stream t) \<or>
    (\<exists>sh rs more. sent (stream t) = sent (first_stream t) @ wire js (FServerHello sh # map FResponse rs) \<and>
       serializes js (FServerHello sh # map FResponse rs) \<and> (rs \<noteq> [] \<longrightarrow> accepted sh) \<and>
       map resp_id rs @ more =
         map (\<lambda>a. req_id (request_of js a)) (takeWhile (is_request js) (tl (inbound (first_stream t)))))"
proof -
  obtain r fr left cmds where alone: "handle_conn_with_generator js (replay app) version (task_peer t)
      (task_generator t) (answers_of i d) (first_stream t) = (r, fr, left, cmds)"
    by (cases "handle_conn_with_generator js (replay app) version (task_peer t)
      (task_generator t) (answers_of i d) (first_stream t)")
  from connections_alone [OF assms this] obtain more where all: "sent fr = sent (stream t) @ more" by blast
  obtain bs where now: "sent (stream t) = sent (first_stream t) @ bs"
    using task_kept [OF assms(1,2)] assms(3) by (auto simp: keeps_connection_def)
  show ?thesis
  proof (cases bs)
    case (Cons b bs')
    then obtain sh rs ys where w: "bs @ more = wire js (FServerHello sh # map FResponse rs)"
      "serializes js (FServerHello sh # map FResponse rs)" "rs \<noteq> [] \<longrightarrow> accepted sh"
      "map resp_id rs @ ys =
         map (\<lambda>a. req_id (request_of js a)) (takeWhile (is_request js) (tl (inbound (first_stream t))))"
      using conn_session_type [OF alone] all now by auto
    define k where "k = length bs'"
    have "bs = take (Suc k) (bs @ more)" by (simp add: k_def Cons)
    also have "\<dots> = wire js (FServerHello sh # map FResponse (take k rs))"
      unfolding w(1) by (simp add: wire_def take_map)
    finally have "sent (stream t) = sent (first_stream t) @ wire js (FServerHello sh # map FResponse (take k rs))"
      using now by simp
    moreover have "serializes js (FServerHello sh # map FResponse (take k rs))"
      using w(2) by (auto simp: serializes_def list_all_iff dest: in_set_takeD)
    moreover have "map resp_id (take k rs) @ map resp_id (drop k rs) @ ys =
        map (\<lambda>a. req_id (request_of js a)) (takeWhile (is_request js) (tl (inbound (first_stream t))))"
      by (simp flip: w(4) map_append append_assoc)
    moreover have "take k rs \<noteq> [] \<longrightarrow> accepted sh" using w(3) by auto
    ultimately show ?thesis by blast
  qed (use now in simp)
qed

text \<open>
  C11: what ends a connection and what does not.  Whatever else runs and however long the
  application takes, a task is done after as many turns in which its time is up and the peer takes
  what is written as it has waits left: four for each arrival before the peer falls silent, and
  four more; the silence itself is one of them, however much the peer would send after it.  The
  writes have no deadline: while the peer does not take the server's hello or a response, the
  task stays where it is, for as long as the daemon runs.
\<close>

theorem daemon_connection_ends:
  assumes "daemon_runs js app version d es d'" and "i < length (tasks d)"
  shows "(4 * length (takeWhile (\<lambda>a. a \<noteq> Silent) (inbound (stream (tasks d ! i)))) + 4 \<le>
        length (filter (\<lambda>e. e = Turn i True True) es) \<longrightarrow>
      (\<exists>r. phase (tasks d' ! i) = Finished r)) \<and>
    (\<forall>f b. writing (phase (tasks d ! i)) = Some f \<and> to_vec js f = Some b \<and> length b \<le> MAX_FRAME_BYTES \<and>
        (\<forall>elapsed. Turn i elapsed True \<notin> set es) \<longrightarrow>
      tasks d' ! i = tasks d ! i)"
proof (intro conjI impI allI)
  assume "4 * length (takeWhile (\<lambda>a. a \<noteq> Silent) (inbound (stream (tasks d ! i)))) + 4 \<le>
    length (filter (\<lambda>e. e = Turn i True True) es)"
  then show "\<exists>r. phase (tasks d' ! i) = Finished r"
    using runs_turns_left [OF assms] turns_left_bound [of "stream (tasks d ! i)" "phase (tasks d ! i)"]
      turns_left_0 [of "stream (tasks d' ! i)" "phase (tasks d' ! i)"] by (simp add: heard_def)
next
  fix f b assume "writing (phase (tasks d ! i)) = Some f \<and> to_vec js f = Some b \<and> length b \<le> MAX_FRAME_BYTES \<and>
    (\<forall>elapsed. Turn i elapsed True \<notin> set es)"
  then show "tasks d' ! i = tasks d ! i"
    using runs_hold [OF assms] by (simp add: reaches_stream_def)
qed

text \<open>
  Dispatches that answer at once are serialized.  Then the application cannot tell that it
  serves several connections: its state and all its answers are those of the same commands given
  to it one after the other, in the order their dispatches ended.
\<close>

theorem daemon_serial:
  assumes "daemon_runs js app version (daemon_start s0) es d" and "at_once app"
  shows "serial app s0 (dispatched d) (app_state d)"
  using runs_serial [OF assms] by (rule conjunct2)

section \<open>An example\<close>

text \<open>
  Two connections of the same user to an application that counts, their turns interleaved; the
  first of them does not take its greeting at once.
\<close>

fun schedule :: "('cmd, 'rep) serde \<Rightarrow> ('s, 'f, 'cmd, 'rep) shared_app \<Rightarrow> string \<Rightarrow> 'c event list \<Rightarrow>
    ('c, 's, 'f, 'cmd, 'rep) daemon \<Rightarrow> ('c, 's, 'f, 'cmd, 'rep) daemon option" where
  "schedule js app version [] d = Some d"
| "schedule js app version (e # es) d =
     (if enabled e d then schedule js app version es (perform js app version e d) else None)"

lemma schedule_runs:
  "daemon_runs js app version d0 es0 d \<Longrightarrow> schedule js app version es d = Some d' \<Longrightarrow>
     daemon_runs js app version d0 (es0 @ es) d'"
proof (induction es arbitrary: es0 d)
  case (Cons e es)
  from Cons.prems(2) have e: "enabled e d" "schedule js app version es (perform js app version e d) = Some d'"
    by (simp_all split: if_splits)
  have "daemon_runs js app version d0 (es0 @ [e]) (perform js app version e d)"
    using Cons.prems(1) e(1) by (blast intro: daemon_runs.goes_on daemon_step.step)
  from Cons.IH [OF this e(2)] show ?case by simp
qed simp

definition counting_app :: "(nat, unit, unit, unit) shared_app" where
  "counting_app = \<lparr>app_validate = (\<lambda>_. Inr ()), app_dispatch = (\<lambda>_. ()),
     app_poll = (\<lambda>s _. (Inl (RespOk ()), s + 1))\<rparr>"

definition echo_accepted :: "'c \<Rightarrow> PeerCheck \<Rightarrow> 'c event" where
  "echo_accepted conn peer = Loop (Accepted conn peer) (Inr echo_nonce) echo_framer"

definition example_events :: "'c \<Rightarrow> PeerCheck \<Rightarrow> 'c event list" where
  "example_events conn peer = [echo_accepted conn peer, echo_accepted conn peer] @
     [Turn 0 True True, Turn 0 True False] @
     map (\<lambda>i. Turn i True True) [1, 1, 0, 1, 0, 0, 1, 1, 0, 0, 1, 0, 1, 0, 1, 0, 1, 0, 1, 0, 1, 0, 1, 0, 1, 0, 1, 0, 1, 0, 1, 0, 1]"

definition echo_stream :: "arrival list \<Rightarrow> bytes list \<Rightarrow> framer" where
  "echo_stream as bs = \<lparr>inbound = as, sent = bs, send_fault = (\<lambda>_. None)\<rparr>"

definition echo_answer :: "unit Response" where
  "echo_answer = \<lparr>resp_id = 5, resp_payload = RespOk ()\<rparr>"

lemma echo_written:
  "to_vec (echo_serde_for peer) (FServerHello (echo_greeting_for peer)) = Some [1]" "to_vec (echo_serde_for peer) (FResponse echo_answer) = Some [3]"
  by (simp_all add: echo_serde_for_def table_serde_def echo_answer_def)

definition echo_accepts :: ServerHandshakeResult where
  "echo_accepts = \<lparr>result_accepted = True, negotiated_minor = 1, client_hello = echo_hello\<rparr>"

lemma echo_turns:
  "task_turn (echo_serde_for peer) counting_app ''9.9.9'' peer True wr s echo_framer (Opening (Inr echo_nonce)) =
     (Greeting (echo_greeting_for peer) (Ok echo_accepts), echo_stream [Arrives [2], Ends] [], s, [])"
  "task_turn (echo_serde_for peer) counting_app ''9.9.9'' peer True False s (echo_stream [Arrives [2], Ends] [])
       (Greeting (echo_greeting_for peer) (Ok echo_accepts)) =
     (Greeting (echo_greeting_for peer) (Ok echo_accepts), echo_stream [Arrives [2], Ends] [], s, [])"
  "task_turn (echo_serde_for peer) counting_app ''9.9.9'' peer True True s (echo_stream [Arrives [2], Ends] [])
       (Greeting (echo_greeting_for peer) (Ok echo_accepts)) =
     (Waiting, echo_stream [Arrives [2], Ends] [[1]], s, [])"
  "task_turn (echo_serde_for peer) counting_app ''9.9.9'' peer True wr s (echo_stream [Arrives [2], Ends] [[1]]) Waiting =
     (Requested \<lparr>req_id = 5, req_cmd = ()\<rparr>, echo_stream [Ends] [[1]], s, [])"
  "task_turn (echo_serde_for peer) counting_app ''9.9.9'' peer True wr s fr (Requested \<lparr>req_id = 5, req_cmd = ()\<rparr>) =
     (Dispatching \<lparr>req_id = 5, req_cmd = ()\<rparr> (), fr, s, [])"
  "task_turn (echo_serde_for peer) counting_app ''9.9.9'' peer True wr s fr (Dispatching \<lparr>req_id = 5, req_cmd = ()\<rparr> ()) =
     (Answering echo_answer, fr, s + 1, [((), Some (RespOk ()))])"
  "task_turn (echo_serde_for peer) counting_app ''9.9.9'' peer True True s (echo_stream [Ends] [[1]]) (Answering echo_answer) =
     (Waiting, echo_stream [Ends] [[1], [3]], s, [])"
  "task_turn (echo_serde_for peer) counting_app ''9.9.9'' peer True wr s (echo_stream [Ends] [[1], [3]]) Waiting =
     (Finished (Ok ()), echo_stream [] [[1], [3]], s, [])"
proof -
  have "read_hello (echo_serde_for peer) echo_framer = (Ok echo_hello, echo_stream [Arrives [2], Ends] [])"
    unfolding read_hello_ok by (simp add: echo_framer_def fresh_framer_def echo_stream_def echo_reads_for)
  then show "task_turn (echo_serde_for peer) counting_app ''9.9.9'' peer True wr s echo_framer (Opening (Inr echo_nonce)) =
     (Greeting (echo_greeting_for peer) (Ok echo_accepts), echo_stream [Arrives [2], Ends] [], s, [])"
    by (simp add: Let_def echo_greeting_for_def echo_accepts_def conn_config_def echo_hello_def
        PROTOCOL_MAJOR_def PROTOCOL_MINOR_def)
qed (simp_all add: recv_frame_def echo_stream_def echo_reads_for counting_app_def echo_answer_def silent_def
      reaches_stream_def echo_accepts_def send_frame_def echo_written(1) echo_written(2) [unfolded echo_answer_def]
      MAX_FRAME_BYTES_def)

definition example_daemon :: "'c \<Rightarrow> PeerCheck \<Rightarrow> ('c, nat, unit, unit, unit) daemon" where
  "example_daemon conn peer = the (schedule (echo_serde_for peer) counting_app ''9.9.9'' (example_events conn peer) (daemon_start 0))"

definition example_task :: "'c \<Rightarrow> PeerCheck \<Rightarrow> framer \<Rightarrow> (unit, unit, unit) phase \<Rightarrow> ('c, unit, unit, unit) task" where
  "example_task conn peer fr ph = \<lparr>task_conn = conn, task_peer = peer, task_generator = Inr echo_nonce,
     first_stream = echo_framer, stream = fr, phase = ph\<rparr>"

lemma example_task_simps:
  "spawn_task (Inr echo_nonce) echo_framer (conn, peer) = example_task conn peer echo_framer (Opening (Inr echo_nonce))"
  "(example_task conn peer fr ph)\<lparr>stream := fr', phase := ph'\<rparr> = example_task conn peer fr' ph'"
  "stream (example_task conn peer fr ph) = fr" "phase (example_task conn peer fr ph) = ph" "task_peer (example_task conn peer fr ph) = peer"
  by (simp_all add: example_task_def spawn_task_def)

lemma schedule_turn:
  assumes "i < length ts"
    and "task_turn js app version (task_peer (ts ! i)) elapsed written s (stream (ts ! i)) (phase (ts ! i)) = (ph, fr, s', ends)"
  shows "schedule js app version (Turn i elapsed written # es)
      \<lparr>accepting = a, loop = l, tasks = ts, app_state = s, dispatched = log\<rparr> =
    schedule js app version es
      \<lparr>accepting = a, loop = l, tasks = ts[i := (ts ! i)\<lparr>stream := fr, phase := ph\<rparr>], app_state = s',
       dispatched = log @ map (Pair i) ends\<rparr>"
  using assms by simp

definition example_end :: "'c \<Rightarrow> PeerCheck \<Rightarrow> ('c, unit, unit, unit) task" where
  "example_end conn peer = example_task conn peer (echo_stream [] [[1], [3]]) (Finished (Ok ()))"

lemma example_accepts:
  "schedule (echo_serde_for peer) counting_app ''9.9.9'' (echo_accepted conn peer # echo_accepted conn peer # es) (daemon_start 0) =
     schedule (echo_serde_for peer) counting_app ''9.9.9'' es
       \<lparr>accepting = True, loop = loop_start, tasks = replicate 2 (example_task conn peer echo_framer (Opening (Inr echo_nonce))),
        app_state = 0, dispatched = []\<rparr>"
  by (simp add: echo_accepted_def daemon_start_def example_task_simps loop_start_def numeral_2_eq_2)

lemma example_result:
  "schedule (echo_serde_for peer) counting_app ''9.9.9'' (example_events conn peer) (daemon_start 0) =
     Some \<lparr>accepting = True, loop = loop_start, tasks = [example_end conn peer, example_end conn peer], app_state = 2,
       dispatched = [(1, (), Some (RespOk ())), (0, (), Some (RespOk ()))]\<rparr>"
  by (simp add: example_events_def example_accepts schedule_turn echo_turns example_task_simps example_end_def
      numeral_2_eq_2 del: task_turn.simps(1-7) schedule.simps(2))

lemma example_runs: "daemon_runs (echo_serde_for peer) counting_app ''9.9.9'' (daemon_start 0) (example_events conn peer) (example_daemon conn peer)"
  using schedule_runs [OF daemon_runs.starts example_result] by (simp add: example_daemon_def example_result)

lemma example_daemon_parts:
  "tasks (example_daemon conn peer) = [example_end conn peer, example_end conn peer]" "app_state (example_daemon conn peer) = 2"
  "dispatched (example_daemon conn peer) = [(1, (), Some (RespOk ())), (0, (), Some (RespOk ()))]"
  by (simp_all add: example_daemon_def example_result)

lemma example_index:
  "0 < length (tasks (example_daemon conn peer))" "tasks (example_daemon conn peer) ! 0 = example_end conn peer"
  by (simp_all add: example_daemon_parts)

lemma example_end_parts:
  "task_peer (example_end conn peer) = peer" "task_conn (example_end conn peer) = conn"
  "task_generator (example_end conn peer) = Inr echo_nonce"
  "first_stream (example_end conn peer) = echo_framer" "stream (example_end conn peer) = echo_stream [] [[1], [3]]"
  "phase (example_end conn peer) = Finished (Ok ())"
  by (simp_all add: example_end_def example_task_def)

text \<open>The same with the connection and the peer of the examples of \<open>Server\<close> and \<open>Connection\<close>.\<close>

abbreviation linux_daemon :: "(nat, nat, unit, unit, unit) daemon" where
  "linux_daemon \<equiv> example_daemon 7 echo_peer"

abbreviation linux_events :: "nat event list" where "linux_events \<equiv> example_events 7 echo_peer"

lemmas linux_runs = example_runs [of echo_peer "7 :: nat", folded echo_serde_def]

lemma example_turn:
  assumes "linux_policy l = Some (allow_uid 7 default_policy)"
  shows "incoming_turn l example_getsockopt (now, Inr 7) = Accepted 7 echo_peer"
proof -
  have "map fst (admitted_conn (incoming_turn l example_getsockopt (now, Inr 7))) = [7]"
    unfolding incoming_admitted assms
    by (simp add: linux_admitted_def example_getsockopt_def admits_def allow_uid_def default_policy_def)
  then obtain peer where turn: "incoming_turn l example_getsockopt (now, Inr 7) = Accepted 7 peer"
    by (cases "incoming_turn l example_getsockopt (now, Inr 7)") (auto simp del: incoming_turn.simps)
  have "subject_of \<lparr>cred_pid = 1, cred_uid = 7, cred_gid = 0\<rparr> = ''pid=1 uid=7 gid=0''"
    by code_simp
  then have "peer = echo_peer"
    using incoming_peer [of 7 peer l example_getsockopt now "Inr 7"] turn
    by (auto simp: example_getsockopt_def echo_peer_def simp del: incoming_turn.simps)
  then show ?thesis using turn by simp
qed

theorem daemon_connections_alone_witness:
  "\<exists>r fr left cmds. handle_conn_with_generator echo_serde (replay counting_app) ''9.9.9'' echo_peer (Inr echo_nonce)
      (answers_of 0 linux_daemon) echo_framer = (r, fr, left, cmds) \<and>
    r = Ok () \<and> fr = echo_stream [] [[1], [3]] \<and> left = [] \<and> cmds = cmds_of 0 linux_daemon"
proof -
  obtain r fr left cmds where alone: "handle_conn_with_generator echo_serde (replay counting_app) ''9.9.9''
      echo_peer (Inr echo_nonce) (answers_of 0 linux_daemon) echo_framer = (r, fr, left, cmds)"
    by (cases "handle_conn_with_generator echo_serde (replay counting_app) ''9.9.9''
      echo_peer (Inr echo_nonce) (answers_of 0 linux_daemon) echo_framer")
  from daemon_connections_alone [OF linux_runs example_index(1) refl, unfolded example_index example_end_parts, OF this]
  show ?thesis using alone by simp
qed

theorem daemon_commands_authorised_witness:
  "\<exists>l h'. linux_bind (endpoint ''/r/s'' (Some (allow_uid 7 default_policy)))
       (example_host [''/r'' \<mapsto> \<lparr>kind = Directory, node_uid = 0, node_gid = 0, node_mode = 0, content = []\<rparr>] 0) = (Ok l, h') \<and>
     before_end (loop_turns linux_events) = map (incoming_turn l example_getsockopt) [(0, Inr 7), (1, Inr 7)] \<and>
     (0, (), Some (RespOk ())) \<in> set (dispatched linux_daemon) \<and>
     () \<in> set (cmds_of 0 linux_daemon) \<and> Inr (task_conn (tasks linux_daemon ! 0)) \<in> set [Inr 7, Inr 7 :: io_error + nat]"
proof -
  obtain l h' where bind: "linux_bind (endpoint ''/r/s'' (Some (allow_uid 7 default_policy)))
       (example_host [''/r'' \<mapsto> \<lparr>kind = Directory, node_uid = 0, node_gid = 0, node_mode = 0, content = []\<rparr>] 0) = (Ok l, h')"
    using example_bind_ok [of "Some (allow_uid 7 default_policy)"] by (auto simp: is_ok_iff prod_eq_iff)
  then have pol: "linux_policy l = Some (allow_uid 7 default_policy)" using linux_bind_policy by fastforce
  have "loop_turns linux_events = [Accepted 7 echo_peer, Accepted 7 echo_peer]"
    by (simp add: loop_turns_def example_events_def echo_accepted_def)
  then have turns: "before_end (loop_turns linux_events) = map (incoming_turn l example_getsockopt) [(0, Inr 7), (1, Inr 7)]"
    by (simp add: before_end_def example_turn [OF pol] del: incoming_turn.simps)
  have ran: "(0, (), Some (RespOk ())) \<in> set (dispatched linux_daemon)"
    by (simp add: example_daemon_parts)
  show ?thesis
    using daemon_commands_authorised [OF bind linux_runs turns ran] bind turns ran by (intro exI conjI) auto
qed

theorem daemon_session_type_witness:
  "\<exists>sh rs more. sent (stream (example_end (7 :: nat) echo_peer)) = sent echo_framer @ wire echo_serde (FServerHello sh # map FResponse rs) \<and>
     accepted sh \<and> map resp_id rs @ more =
       map (\<lambda>a. req_id (request_of echo_serde a)) (takeWhile (is_request echo_serde) (tl (inbound echo_framer)))"
proof -
  have "sent (stream (example_end (7 :: nat) echo_peer)) = [[1], [3]]" by (simp add: example_end_parts echo_stream_def)
  moreover have "sent echo_framer = []" by (simp add: echo_framer_def fresh_framer_def)
  ultimately show ?thesis
    using daemon_session_type [OF linux_runs example_index(1) refl, unfolded example_index example_end_parts(4)]
    by (auto simp: wire_def Cons_eq_map_conv)
qed

text \<open>
  A task that ends after its greeting was not taken for one turn, and one that is held by a peer
  that never takes it.
\<close>

lemma example_part:
  "daemon_runs echo_serde counting_app ''9.9.9''
     \<lparr>accepting = True, loop = loop_start,
      tasks = replicate 2 (example_task (7 :: nat) echo_peer echo_framer (Opening (Inr echo_nonce))), app_state = 0 :: nat,
      dispatched = []\<rparr> (drop 2 linux_events) linux_daemon"
proof -
  have "schedule echo_serde counting_app ''9.9.9'' (drop 2 linux_events)
     \<lparr>accepting = True, loop = loop_start,
      tasks = replicate 2 (example_task (7 :: nat) echo_peer echo_framer (Opening (Inr echo_nonce))), app_state = 0 :: nat,
      dispatched = []\<rparr> = Some linux_daemon"
    using example_accepts [of echo_peer "7 :: nat" "drop 2 linux_events"] example_result [of echo_peer "7 :: nat"]
    by (simp add: echo_serde_def example_events_def example_daemon_def del: schedule.simps)
  from schedule_runs [OF daemon_runs.starts this] show ?thesis by simp
qed

definition held_daemon :: "(nat, nat, unit, unit, unit) daemon" where
  "held_daemon = \<lparr>accepting = True, loop = loop_start,
     tasks = [example_task 7 echo_peer (echo_stream [Arrives [2], Ends] []) (Greeting (echo_greeting_for echo_peer) (Ok echo_accepts))],
     app_state = 0, dispatched = []\<rparr>"

lemma held_runs: "\<exists>d. daemon_runs echo_serde counting_app ''9.9.9'' held_daemon (replicate n (Turn 0 True False)) d"
proof (induction n)
  case (Suc n)
  then obtain d where d: "daemon_runs echo_serde counting_app ''9.9.9'' held_daemon (replicate n (Turn 0 True False)) d" ..
  have "0 < length (tasks held_daemon)" "writing (phase (tasks held_daemon ! 0)) = Some (FServerHello (echo_greeting_for echo_peer))"
    by (simp_all add: held_daemon_def example_task_simps)
  moreover have "reaches_stream echo_serde (FServerHello (echo_greeting_for echo_peer) :: (unit, unit) Frame)"
    using echo_written(1) [of echo_peer] by (simp add: reaches_stream_def echo_serde_def MAX_FRAME_BYTES_def)
  ultimately have "0 < length (tasks d)" using runs_hold [OF d] by auto
  then have "daemon_step echo_serde counting_app ''9.9.9'' d (Turn 0 True False)
      (perform echo_serde counting_app ''9.9.9'' (Turn 0 True False) d)"
    by (intro daemon_step.step) simp
  from daemon_runs.goes_on [OF d this] show ?case unfolding replicate_Suc replicate_append_same by (rule exI)
qed (auto intro: daemon_runs.starts)

theorem daemon_connection_ends_witness:
  "(\<exists>r. phase (tasks linux_daemon ! 1) = Finished r) \<and>
   (\<forall>n. \<exists>d. daemon_runs echo_serde counting_app ''9.9.9'' held_daemon (replicate n (Turn 0 True False)) d \<and>
      tasks d ! 0 = tasks held_daemon ! 0)"
proof -
  let ?d = "\<lparr>accepting = True, loop = loop_start,
      tasks = replicate 2 (example_task (7 :: nat) echo_peer echo_framer (Opening (Inr echo_nonce))), app_state = 0 :: nat,
      dispatched = [] :: (nat \<times> unit \<times> unit RespPayload option) list\<rparr>"
  have "1 < length (tasks ?d)" by simp
  moreover have "4 * length (takeWhile (\<lambda>a. a \<noteq> Silent) (inbound (stream (tasks ?d ! 1)))) + 4 \<le>
      length (filter (\<lambda>e. e = Turn 1 True True) (drop 2 linux_events))"
    by (simp add: example_task_simps echo_framer_def fresh_framer_def example_events_def)
  ultimately have "\<exists>r. phase (tasks linux_daemon ! 1) = Finished r"
    using daemon_connection_ends [OF example_part, of 1] by blast
  moreover have "\<exists>d. daemon_runs echo_serde counting_app ''9.9.9'' held_daemon (replicate n (Turn 0 True False)) d \<and>
      tasks d ! 0 = tasks held_daemon ! 0" for n
  proof -
    obtain d where d: "daemon_runs echo_serde counting_app ''9.9.9'' held_daemon (replicate n (Turn 0 True False)) d"
      using held_runs by blast
    have held: "0 < length (tasks held_daemon)" "writing (phase (tasks held_daemon ! 0)) = Some (FServerHello (echo_greeting_for echo_peer))"
      "to_vec echo_serde (FServerHello (echo_greeting_for echo_peer) :: (unit, unit) Frame) = Some [1]"
      "length [1 :: u8] \<le> MAX_FRAME_BYTES"
      "\<forall>elapsed. Turn 0 elapsed True \<notin> set (replicate n (Turn 0 True False) :: nat event list)"
      using echo_written(1) [of echo_peer] by (auto simp: held_daemon_def example_task_simps echo_serde_def MAX_FRAME_BYTES_def)
    show ?thesis using daemon_connection_ends [OF d held(1)] held(2-5) d by blast
  qed
  ultimately show ?thesis by blast
qed

theorem daemon_serial_witness:
  "serial counting_app 0 (dispatched linux_daemon) (app_state linux_daemon)"
  by (rule daemon_serial [OF linux_runs]) (simp add: at_once_def counting_app_def)

end
