(* ===== verification/RequirementBlob.thy ===== *)
theory RequirementBlob
  imports Prelude
begin

text \<open>
  The reader of a compiled code requirement:
  \<open>toolkit/dovetail_privileged_daemon/rust/src/requirement_blob.rs\<close>.  The reader walks a
  byte string with a position, every read is bounds checked, and a clause is read by recursion
  on the nesting depth, which \<open>MAX_DEPTH\<close> bounds.  The second half of the theory writes the
  layout the reader expects down as functions into bytes and proves that the reader inverts
  them.
\<close>

section \<open>Data\<close>

definition MAGIC :: u32 where "MAGIC = 0xFADE0C00"
definition EXPRESSION_FORM :: u32 where "EXPRESSION_FORM = 1"
definition MAX_DEPTH :: nat where "MAX_DEPTH = 64"

datatype comparison = CmpExists | CmpEquals bytes | CmpOther

datatype clause =
    And clause clause
  | Or clause clause
  | CNot clause
  | CTrue
  | GenericAnchor
  | Identifier bytes
  | CdHash bytes
  | LeafField bytes comparison
  | LeafExtension bytes comparison
  | IntermediateExtension bytes comparison
  | COther

text \<open>One value for each \<open>anyhow\<close> message of the file.\<close>

datatype parse_error =
    NotARequirement
  | LengthMismatch
  | UnknownForm
  | TrailingBytes
  | Truncated
  | UnknownComparison u32
  | TooDeep
  | UnknownOpcode u32

record reader =
  blob :: bytes
  at :: nat

type_synonym 'a read = "parse_error + ('a \<times> reader)"

section \<open>The reader\<close>

text \<open>\<open>usize\<close> is 64 bits wide on the targets of the daemon.\<close>

definition take_bytes :: "nat \<Rightarrow> reader \<Rightarrow> bytes read" where
  "take_bytes count r =
     (let end = at r + count
      in if end < 2 ^ 64 \<and> end \<le> length (blob r)
         then Ok (take count (drop (at r) (blob r)), r\<lparr>at := end\<rparr>)
         else Err Truncated)"

definition read_word :: "reader \<Rightarrow> u32 read" where
  "read_word r = and_then (take_bytes 4 r) (\<lambda>(bs, r'). Ok (from_be_bytes bs, r'))"

definition read_data :: "reader \<Rightarrow> bytes read" where
  "read_data r =
     and_then (read_word r) (\<lambda>(w, r1). let count = unat w in
     and_then (take_bytes count r1) (\<lambda>(bs, r2).
     and_then (take_bytes ((4 - count mod 4) mod 4) r2) (\<lambda>(_, r3). Ok (bs, r3))))"

definition read_comparison :: "reader \<Rightarrow> comparison read" where
  "read_comparison r =
     and_then (read_word r) (\<lambda>(op, r1).
       if op = 0 then Ok (CmpExists, r1)
       else if op = 1 then and_then (read_data r1) (\<lambda>(d, r2). Ok (CmpEquals d, r2))
       else if op = 14 then Ok (CmpOther, r1)
       else if 2 \<le> op \<and> op \<le> 8 then and_then (read_data r1) (\<lambda>(_, r2). Ok (CmpOther, r2))
       else if 9 \<le> op \<and> op \<le> 13 then and_then (take_bytes 8 r1) (\<lambda>(_, r2). Ok (CmpOther, r2))
       else Err (UnknownComparison op))"

text \<open>The inner \<open>match (op, slot)\<close> of the certificate opcodes.\<close>

definition field_clause :: "u32 \<Rightarrow> u32 \<Rightarrow> bytes \<Rightarrow> comparison \<Rightarrow> clause" where
  "field_clause op slot field compared =
     (if op = 11 \<and> slot = 0 then LeafField field compared
      else if op = 14 \<and> slot = 0 then LeafExtension field compared
      else if op = 14 \<and> slot = 1 then IntermediateExtension field compared
      else COther)"

text \<open>The opcodes whose clause holds no further clause; the last one is the error of \<open>match\<close>.\<close>

definition read_leaf :: "u32 \<Rightarrow> reader \<Rightarrow> clause read" where
  "read_leaf op r =
     (if op = 1 then Ok (CTrue, r)
      else if op = 2 then and_then (read_data r) (\<lambda>(d, r1). Ok (Identifier d, r1))
      else if op = 8 then and_then (read_data r) (\<lambda>(d, r1). Ok (CdHash d, r1))
      else if op \<in> {11, 14, 17, 22} then
        and_then (read_word r) (\<lambda>(slot, r1).
        and_then (read_data r1) (\<lambda>(field, r2).
        and_then (read_comparison r2) (\<lambda>(compared, r3).
          Ok (field_clause op slot field compared, r3))))
      else if op = 15 then Ok (GenericAnchor, r)
      else if op \<in> {0, 3, 13, 21, 23} then Ok (COther, r)
      else if op \<in> {12, 20} then and_then (read_word r) (\<lambda>(_, r1). Ok (COther, r1))
      else if op \<in> {18, 19} then and_then (read_data r) (\<lambda>(_, r1). Ok (COther, r1))
      else if op = 4 then
        and_then (read_word r) (\<lambda>(_, r1). and_then (read_data r1) (\<lambda>(_, r2). Ok (COther, r2)))
      else if op = 5 then
        and_then (read_data r) (\<lambda>(_, r1). and_then (read_data r1) (\<lambda>(_, r2). Ok (COther, r2)))
      else if op \<in> {10, 16} then
        and_then (read_data r) (\<lambda>(_, r1).
        and_then (read_comparison r1) (\<lambda>(_, r2). Ok (COther, r2)))
      else Err (UnknownOpcode op))"

text \<open>
  \<open>Reader::clause\<close>; \<open>Reader::boxed\<close> is the call at \<open>depth + 1\<close>.  Nothing bounds the number
  of clauses but the bytes left: the recursion terminates because the depth is bounded.
\<close>

function read_clause :: "nat \<Rightarrow> reader \<Rightarrow> clause read" where
  "read_clause depth r =
     (if depth < MAX_DEPTH then
        and_then (read_word r) (\<lambda>(op, r1).
          if op = 6 then
            and_then (read_clause (depth + 1) r1) (\<lambda>(a, r2).
            and_then (read_clause (depth + 1) r2) (\<lambda>(b, r3). Ok (And a b, r3)))
          else if op = 7 then
            and_then (read_clause (depth + 1) r1) (\<lambda>(a, r2).
            and_then (read_clause (depth + 1) r2) (\<lambda>(b, r3). Ok (Or a b, r3)))
          else if op = 9 then
            and_then (read_clause (depth + 1) r1) (\<lambda>(a, r2). Ok (CNot a, r2))
          else read_leaf op r1)
      else Err TooDeep)"
  by pat_completeness auto
termination
  by (relation "measure (\<lambda>(depth, r). MAX_DEPTH - depth)") auto

declare read_clause.simps [simp del]

definition parse_requirement :: "bytes \<Rightarrow> parse_error + clause" where
  "parse_requirement b =
     and_then (read_word \<lparr>blob = b, at = 0\<rparr>) (\<lambda>(magic, r1).
     and_then (ensure (magic = MAGIC) NotARequirement) (\<lambda>_.
     and_then (read_word r1) (\<lambda>(size, r2).
     and_then (ensure (unat size = length b) LengthMismatch) (\<lambda>_.
     and_then (read_word r2) (\<lambda>(form, r3).
     and_then (ensure (form = EXPRESSION_FORM) UnknownForm) (\<lambda>_.
     and_then (read_clause 0 r3) (\<lambda>(c, r4).
     and_then (ensure (at r4 = length b) TrailingBytes) (\<lambda>_. Ok c))))))))"

section \<open>Every read stays inside the blob and makes progress\<close>

definition advanced :: "nat \<Rightarrow> reader \<Rightarrow> reader \<Rightarrow> bool" where
  "advanced n r r' \<longleftrightarrow> blob r' = blob r \<and> at r + n \<le> at r' \<and> at r' \<le> length (blob r)"

lemma advanced_trans: "advanced m r r' \<Longrightarrow> advanced n r' r'' \<Longrightarrow> advanced (m + n) r r''"
  by (auto simp: advanced_def)

lemma advanced_mono: "advanced m r r' \<Longrightarrow> n \<le> m \<Longrightarrow> advanced n r r'"
  by (auto simp: advanced_def)

lemma advanced_step: "advanced m r r' \<Longrightarrow> advanced n r' r'' \<Longrightarrow> advanced m r r''"
  by (auto simp: advanced_def)

lemma take_bytes_advanced: "take_bytes n r = Ok (bs, r') \<Longrightarrow> advanced n r r'"
  by (auto simp: take_bytes_def advanced_def Let_def split: if_splits)

lemma read_word_advanced: "read_word r = Ok (w, r') \<Longrightarrow> advanced 4 r r'"
  by (auto simp: read_word_def dest: take_bytes_advanced)

lemma read_data_advanced: "read_data r = Ok (d, r') \<Longrightarrow> advanced 4 r r'"
  by (auto simp: read_data_def Let_def
      dest!: read_word_advanced take_bytes_advanced intro: advanced_step)

lemmas read_advanced = take_bytes_advanced read_word_advanced read_data_advanced

lemma read_comparison_advanced: "read_comparison r = Ok (c, r') \<Longrightarrow> advanced 4 r r'"
  by (auto simp: read_comparison_def split: if_splits
      dest!: read_advanced intro: advanced_step)

lemma read_leaf_advanced:
  assumes "advanced 4 r0 r" and "read_leaf op r = Ok (c, r')"
  shows "advanced 4 r0 r'"
  using assms
  by (auto simp: read_leaf_def split: if_splits
      dest!: read_advanced read_comparison_advanced intro: advanced_step)

text \<open>
  The successful runs of the clause reader, as one equation and as an induction rule; every
  property of a clause that was read goes through the latter.
\<close>

lemma read_clause_ok:
  "read_clause depth r = Ok (c, r') \<longleftrightarrow>
     depth < MAX_DEPTH \<and>
     (\<exists>op r1. read_word r = Ok (op, r1) \<and>
        (if op = 6 then \<exists>a b r2. read_clause (Suc depth) r1 = Ok (a, r2) \<and>
             read_clause (Suc depth) r2 = Ok (b, r') \<and> c = And a b
         else if op = 7 then \<exists>a b r2. read_clause (Suc depth) r1 = Ok (a, r2) \<and>
             read_clause (Suc depth) r2 = Ok (b, r') \<and> c = Or a b
         else if op = 9 then \<exists>a. read_clause (Suc depth) r1 = Ok (a, r') \<and> c = CNot a
         else read_leaf op r1 = Ok (c, r')))"
proof (cases "read_word r")
  case (Inl e)
  then show ?thesis by (simp add: read_clause.simps [of depth r])
next
  case (Inr p)
  then obtain op r1 where w: "read_word r = Ok (op, r1)" by (cases p) auto
  show ?thesis by (auto simp: read_clause.simps [of depth r] w)
qed

lemma read_clause_ok_induct [consumes 1, case_names And Or Not Leaf]:
  assumes "read_clause depth r = Ok (c, r')"
    and And: "\<And>depth r r1 a r2 b r'. depth < MAX_DEPTH \<Longrightarrow> read_word r = Ok (6, r1) \<Longrightarrow>
      P (Suc depth) r1 a r2 \<Longrightarrow> P (Suc depth) r2 b r' \<Longrightarrow> P depth r (And a b) r'"
    and Or: "\<And>depth r r1 a r2 b r'. depth < MAX_DEPTH \<Longrightarrow> read_word r = Ok (7, r1) \<Longrightarrow>
      P (Suc depth) r1 a r2 \<Longrightarrow> P (Suc depth) r2 b r' \<Longrightarrow> P depth r (Or a b) r'"
    and Not: "\<And>depth r r1 a r'. depth < MAX_DEPTH \<Longrightarrow> read_word r = Ok (9, r1) \<Longrightarrow>
      P (Suc depth) r1 a r' \<Longrightarrow> P depth r (CNot a) r'"
    and Leaf: "\<And>depth r op r1 c r'. depth < MAX_DEPTH \<Longrightarrow> read_word r = Ok (op, r1) \<Longrightarrow>
      op \<notin> {6, 7, 9} \<Longrightarrow> read_leaf op r1 = Ok (c, r') \<Longrightarrow> P depth r c r'"
  shows "P depth r c r'"
  using assms(1)
proof (induction "MAX_DEPTH - depth" arbitrary: depth r c r' rule: less_induct)
  case less
  from less.prems obtain op r1 where d: "depth < MAX_DEPTH" and w: "read_word r = Ok (op, r1)"
    by (auto simp: read_clause_ok [of depth r])
  then have IH: "P (Suc depth) s x s'" if "read_clause (Suc depth) s = Ok (x, s')" for s x s'
    using less.hyps that by (simp add: diff_less_mono2)
  consider "op = 6" | "op = 7" | "op = 9" | "op \<notin> {6, 7, 9}" by blast
  then show ?case
    using less.prems d w
    by cases (auto simp: read_clause_ok [of depth r] intro: And Or Not Leaf IH)
qed

lemma read_clause_advanced: "read_clause depth r = Ok (c, r') \<Longrightarrow> advanced 4 r r'"
  by (induction rule: read_clause_ok_induct)
    (blast dest: read_word_advanced intro: advanced_step read_leaf_advanced)+

section \<open>What a clause that was read looks like\<close>

fun clause_depth :: "clause \<Rightarrow> nat" where
  "clause_depth (And a b) = Suc (max (clause_depth a) (clause_depth b))"
| "clause_depth (Or a b) = Suc (max (clause_depth a) (clause_depth b))"
| "clause_depth (CNot a) = Suc (clause_depth a)"
| "clause_depth _ = 1"

fun clause_nodes :: "clause \<Rightarrow> nat" where
  "clause_nodes (And a b) = Suc (clause_nodes a + clause_nodes b)"
| "clause_nodes (Or a b) = Suc (clause_nodes a + clause_nodes b)"
| "clause_nodes (CNot a) = Suc (clause_nodes a)"
| "clause_nodes _ = 1"

lemma read_leaf_shape: "read_leaf op r = Ok (c, r') \<Longrightarrow> clause_depth c = 1 \<and> clause_nodes c = 1"
  by (auto simp: read_leaf_def field_clause_def split: if_splits)

lemma read_clause_depth:
  "read_clause depth r = Ok (c, r') \<Longrightarrow> depth + clause_depth c \<le> MAX_DEPTH"
  by (induction rule: read_clause_ok_induct) (auto dest: read_leaf_shape)

lemma read_clause_nodes:
  "read_clause depth r = Ok (c, r') \<Longrightarrow> advanced (4 * clause_nodes c) r r'"
proof (induction rule: read_clause_ok_induct)
  case (And depth r r1 a r2 b r')
  then have "advanced (4 + (4 * clause_nodes a + 4 * clause_nodes b)) r r'"
    by (blast intro: advanced_trans dest: read_word_advanced)
  then show ?case by (rule advanced_mono) simp
next
  case (Or depth r r1 a r2 b r')
  then have "advanced (4 + (4 * clause_nodes a + 4 * clause_nodes b)) r r'"
    by (blast intro: advanced_trans dest: read_word_advanced)
  then show ?case by (rule advanced_mono) simp
next
  case (Not depth r r1 a r')
  then have "advanced (4 + 4 * clause_nodes a) r r'"
    by (blast intro: advanced_trans dest: read_word_advanced)
  then show ?case by (rule advanced_mono) simp
next
  case (Leaf depth r op r1 c r')
  then show ?case
    using read_leaf_shape [OF Leaf(4)] read_leaf_advanced [OF read_word_advanced [OF Leaf(2)] Leaf(4)]
    by simp
qed

lemma parse_requirement_ok:
  "parse_requirement b = Ok c \<longleftrightarrow>
     (\<exists>r1 r2 r3 r4 size.
        read_word \<lparr>blob = b, at = 0\<rparr> = Ok (MAGIC, r1) \<and>
        read_word r1 = Ok (size, r2) \<and> unat size = length b \<and>
        read_word r2 = Ok (EXPRESSION_FORM, r3) \<and>
        read_clause 0 r3 = Ok (c, r4) \<and> at r4 = length b)"
  by (auto simp: parse_requirement_def)

section \<open>The layout the reader expects\<close>

definition layout_data :: "bytes \<Rightarrow> bytes" where
  "layout_data d =
     to_be_bytes (of_nat (length d)) @ d @ replicate ((4 - length d mod 4) mod 4) 0"

fun layout_comparison :: "comparison \<Rightarrow> bytes" where
  "layout_comparison CmpExists = to_be_bytes 0"
| "layout_comparison (CmpEquals d) = to_be_bytes 1 @ layout_data d"
| "layout_comparison CmpOther = to_be_bytes 14"

fun layout_clause :: "clause \<Rightarrow> bytes" where
  "layout_clause (And a b) = to_be_bytes 6 @ layout_clause a @ layout_clause b"
| "layout_clause (Or a b) = to_be_bytes 7 @ layout_clause a @ layout_clause b"
| "layout_clause (CNot a) = to_be_bytes 9 @ layout_clause a"
| "layout_clause CTrue = to_be_bytes 1"
| "layout_clause GenericAnchor = to_be_bytes 15"
| "layout_clause (Identifier d) = to_be_bytes 2 @ layout_data d"
| "layout_clause (CdHash d) = to_be_bytes 8 @ layout_data d"
| "layout_clause (LeafField f c) =
     to_be_bytes 11 @ to_be_bytes 0 @ layout_data f @ layout_comparison c"
| "layout_clause (LeafExtension f c) =
     to_be_bytes 14 @ to_be_bytes 0 @ layout_data f @ layout_comparison c"
| "layout_clause (IntermediateExtension f c) =
     to_be_bytes 14 @ to_be_bytes 1 @ layout_data f @ layout_comparison c"
| "layout_clause COther = to_be_bytes 0"

definition layout_requirement :: "clause \<Rightarrow> bytes" where
  "layout_requirement c =
     to_be_bytes MAGIC @ to_be_bytes (of_nat (12 + length (layout_clause c))) @
     to_be_bytes EXPRESSION_FORM @ layout_clause c"

text \<open>
  \<open>reads p bs x\<close>: wherever the unread part of the blob begins with \<open>bs\<close>, the reader \<open>p\<close>
  returns \<open>x\<close> and stands right after \<open>bs\<close>.
\<close>

definition unread :: "reader \<Rightarrow> bytes" where "unread r = drop (at r) (blob r)"

definition skip :: "nat \<Rightarrow> reader \<Rightarrow> reader" where "skip n r = r\<lparr>at := at r + n\<rparr>"

definition inside :: "reader \<Rightarrow> bool" where
  "inside r \<longleftrightarrow> at r \<le> length (blob r) \<and> length (blob r) < 2 ^ 64"

definition reads :: "(reader \<Rightarrow> 'a read) \<Rightarrow> bytes \<Rightarrow> 'a \<Rightarrow> bool" where
  "reads p bs x \<longleftrightarrow> (\<forall>r t. inside r \<longrightarrow> unread r = bs @ t \<longrightarrow> p r = Ok (x, skip (length bs) r))"

lemma skip_skip [simp]: "skip n (skip m r) = skip (m + n) r"
  by (simp add: skip_def add.assoc)

lemma unread_skip: "unread r = bs @ t \<Longrightarrow> unread (skip (length bs) r) = t"
  by (simp add: unread_def skip_def) (metis append_eq_conv_conj drop_drop add.commute)

lemma inside_skip: "inside r \<Longrightarrow> unread r = bs @ t \<Longrightarrow> inside (skip (length bs) r)"
  by (auto simp: inside_def unread_def skip_def dest!: arg_cong [where f = length])

lemmas at_unread = unread_skip inside_skip

lemma readsD: "reads p bs x \<Longrightarrow> inside r \<Longrightarrow> unread r = bs @ t \<Longrightarrow> p r = Ok (x, skip (length bs) r)"
  by (simp add: reads_def)

lemma reads_bind:
  assumes "reads p bs x" and "reads (f x) cs y"
  shows "reads (\<lambda>r. and_then (p r) (\<lambda>(x, r'). f x r')) (bs @ cs) y"
  unfolding reads_def
proof (intro allI impI)
  fix r t assume r: "inside r" "unread r = (bs @ cs) @ t"
  then have r': "unread r = bs @ (cs @ t)" by simp
  show "and_then (p r) (\<lambda>(x, r'). f x r') = Ok (y, skip (length (bs @ cs)) r)"
    using readsD [OF assms(1) r(1) r'] readsD [OF assms(2) inside_skip [OF r(1) r'] unread_skip [OF r']]
    by simp
qed

lemma reads_return: "reads (\<lambda>r. Ok (x, r)) [] x"
  by (simp add: reads_def skip_def)

lemma reads_map:
  assumes "reads p bs x"
  shows "reads (\<lambda>r. and_then (p r) (\<lambda>(x, r'). Ok (g x, r'))) bs (g x)"
  using reads_bind [OF assms reads_return, of g] by simp

lemma reads_take: "length bs = n \<Longrightarrow> reads (take_bytes n) bs bs"
  unfolding reads_def
proof (intro allI impI)
  fix r t assume n: "length bs = n" and r: "inside r" "unread r = bs @ t"
  then have "take n (drop (at r) (blob r)) = bs" by (simp add: unread_def)
  moreover have "length (unread r) = n + length t" by (simp add: r(2) n)
  then have "at r + n \<le> length (blob r)"
    using r(1) by (auto simp: unread_def inside_def)
  ultimately show "take_bytes n r = Ok (bs, skip (length bs) r)"
    using r(1) n by (simp add: take_bytes_def Let_def skip_def inside_def)
qed

lemma reads_word: "reads read_word (to_be_bytes w) w"
proof -
  have "reads (take_bytes 4) (to_be_bytes w) (to_be_bytes w)" by (rule reads_take) simp
  from reads_map [OF this, of from_be_bytes] show ?thesis
    by (simp add: read_word_def [abs_def])
qed

lemma reads_data:
  assumes "length d < 2 ^ 32"
  shows "reads read_data (layout_data d) d"
proof -
  have n: "unat (of_nat (length d) :: u32) = length d"
    using assms by (simp add: unat_of_nat)
  define pad :: bytes where "pad = replicate ((4 - length d mod 4) mod 4) 0"
  have p: "length pad = (4 - length d mod 4) mod 4" by (simp add: pad_def)
  have "reads (\<lambda>r. and_then (take_bytes (length d) r) (\<lambda>(bs, r2).
      and_then (take_bytes ((4 - length d mod 4) mod 4) r2) (\<lambda>(_, r3). Ok (bs, r3)))) (d @ pad) d"
    by (rule reads_bind [OF reads_take [OF refl]], rule reads_map [OF reads_take [OF p], of "\<lambda>_. d"])
  then have "reads read_data (to_be_bytes (of_nat (length d)) @ (d @ pad)) d"
    unfolding read_data_def [abs_def] Let_def
    by (intro reads_bind [OF reads_word]) (simp add: n)
  then show ?thesis by (simp add: layout_data_def pad_def)
qed

fun comparison_fits :: "comparison \<Rightarrow> bool" where
  "comparison_fits (CmpEquals d) = (length d < 2 ^ 32)"
| "comparison_fits _ = True"

fun data_fits :: "clause \<Rightarrow> bool" where
  "data_fits (And a b) = (data_fits a \<and> data_fits b)"
| "data_fits (Or a b) = (data_fits a \<and> data_fits b)"
| "data_fits (CNot a) = data_fits a"
| "data_fits (Identifier d) = (length d < 2 ^ 32)"
| "data_fits (CdHash d) = (length d < 2 ^ 32)"
| "data_fits (LeafField f c) = (length f < 2 ^ 32 \<and> comparison_fits c)"
| "data_fits (LeafExtension f c) = (length f < 2 ^ 32 \<and> comparison_fits c)"
| "data_fits (IntermediateExtension f c) = (length f < 2 ^ 32 \<and> comparison_fits c)"
| "data_fits _ = True"

lemma reads_comparison:
  "comparison_fits c \<Longrightarrow> reads read_comparison (layout_comparison c) c"
proof (cases c)
  case CmpExists
  have "reads read_comparison (to_be_bytes 0 @ []) CmpExists"
    unfolding read_comparison_def [abs_def]
    by (rule reads_bind [OF reads_word]) (simp add: reads_return)
  then show ?thesis using CmpExists by simp
next
  case (CmpEquals d)
  moreover assume "comparison_fits c"
  ultimately have "reads read_data (layout_data d) d" by (simp add: reads_data)
  from reads_map [OF this, of CmpEquals]
  have "reads read_comparison (to_be_bytes 1 @ layout_data d) (CmpEquals d)"
    unfolding read_comparison_def [abs_def]
    by (intro reads_bind [OF reads_word]) simp
  then show ?thesis using CmpEquals by simp
next
  case CmpOther
  have "reads read_comparison (to_be_bytes 14 @ []) CmpOther"
    unfolding read_comparison_def [abs_def]
    by (rule reads_bind [OF reads_word]) (simp add: reads_return)
  then show ?thesis using CmpOther by simp
qed

lemma reads_field:
  assumes "length f < 2 ^ 32" and "comparison_fits c" and "op \<in> {11, 14, 17, 22}"
  shows "reads (read_leaf op) (to_be_bytes slot @ layout_data f @ layout_comparison c)
    (field_clause op slot f c)"
proof -
  have "reads (\<lambda>r. and_then (read_word r) (\<lambda>(slot, r1).
        and_then (read_data r1) (\<lambda>(field, r2).
        and_then (read_comparison r2) (\<lambda>(compared, r3).
          Ok (field_clause op slot field compared, r3)))))
      (to_be_bytes slot @ layout_data f @ layout_comparison c) (field_clause op slot f c)"
    by (rule reads_bind [OF reads_word], rule reads_bind [OF reads_data [OF assms(1)]],
        rule reads_map [OF reads_comparison [OF assms(2)]])
  then show ?thesis
    using assms(3) by (auto simp: read_leaf_def [abs_def])
qed

text \<open>The part of \<open>read_clause\<close> after the opcode, for the proofs below.\<close>

definition clause_body :: "nat \<Rightarrow> u32 \<Rightarrow> reader \<Rightarrow> clause read" where
  "clause_body depth op r1 =
     (if op = 6 then
        and_then (read_clause (depth + 1) r1) (\<lambda>(a, r2).
        and_then (read_clause (depth + 1) r2) (\<lambda>(b, r3). Ok (And a b, r3)))
      else if op = 7 then
        and_then (read_clause (depth + 1) r1) (\<lambda>(a, r2).
        and_then (read_clause (depth + 1) r2) (\<lambda>(b, r3). Ok (Or a b, r3)))
      else if op = 9 then
        and_then (read_clause (depth + 1) r1) (\<lambda>(a, r2). Ok (CNot a, r2))
      else read_leaf op r1)"

lemma reads_clause_body:
  assumes "reads (clause_body depth op) bs c" and "depth < MAX_DEPTH"
  shows "reads (read_clause depth) (to_be_bytes op @ bs) c"
proof -
  have "reads (\<lambda>r. and_then (read_word r) (\<lambda>(op, r1). clause_body depth op r1)) (to_be_bytes op @ bs) c"
    by (rule reads_bind [OF reads_word]) (use assms in simp)
  then show ?thesis
    using assms(2) by (simp add: reads_def read_clause.simps clause_body_def)
qed

lemma reads_leaf:
  assumes "reads (read_leaf op) bs c" and "op \<notin> {6, 7, 9}" and "depth < MAX_DEPTH"
  shows "reads (read_clause depth) (to_be_bytes op @ bs) c"
  using assms by (intro reads_clause_body) (auto simp: clause_body_def [abs_def])

lemma reads_data_leaf:
  assumes "length d < 2 ^ 32" and "depth < MAX_DEPTH"
  shows "reads (read_clause depth) (to_be_bytes 2 @ layout_data d) (Identifier d)"
    and "reads (read_clause depth) (to_be_bytes 8 @ layout_data d) (CdHash d)"
  using reads_map [OF reads_data [OF assms(1)], of Identifier]
    reads_map [OF reads_data [OF assms(1)], of CdHash] assms(2)
  by (auto intro!: reads_leaf simp: read_leaf_def [abs_def])

lemma reads_constant_leaf:
  assumes "depth < MAX_DEPTH"
  shows "reads (read_clause depth) (to_be_bytes 1) CTrue"
    and "reads (read_clause depth) (to_be_bytes 15) GenericAnchor"
    and "reads (read_clause depth) (to_be_bytes 0) COther"
  using reads_leaf [of 1 "[]" CTrue depth] reads_leaf [of 15 "[]" GenericAnchor depth]
    reads_leaf [of 0 "[]" COther depth] assms
  by (simp_all add: read_leaf_def [abs_def] reads_return)

lemma reads_pair:
  assumes "reads p bs a" and "reads p cs b"
  shows "reads (\<lambda>r1. and_then (p r1) (\<lambda>(a, r2). and_then (p r2) (\<lambda>(b, r3). Ok (g a b, r3))))
    (bs @ cs) (g a b)"
  by (rule reads_bind [OF assms(1)], rule reads_map [OF assms(2)])

lemma reads_clause:
  "data_fits c \<Longrightarrow> depth + clause_depth c \<le> MAX_DEPTH \<Longrightarrow>
     reads (read_clause depth) (layout_clause c) c"
proof (induction c arbitrary: depth)
  case (And a b)
  then have "reads (clause_body depth 6) (layout_clause a @ layout_clause b) (And a b)"
    unfolding clause_body_def [abs_def] by (auto intro!: reads_pair)
  with And.prems show ?case by (simp add: reads_clause_body)
next
  case (Or a b)
  then have "reads (clause_body depth 7) (layout_clause a @ layout_clause b) (Or a b)"
    unfolding clause_body_def [abs_def] by (auto intro!: reads_pair)
  with Or.prems show ?case by (simp add: reads_clause_body)
next
  case (CNot a)
  then have "reads (clause_body depth 9) (layout_clause a) (CNot a)"
    unfolding clause_body_def [abs_def] by (auto intro!: reads_map)
  with CNot.prems show ?case by (simp add: reads_clause_body)
next
  case (LeafField f c)
  then show ?case
    using reads_leaf [OF reads_field [of f c 11 0]] by (simp add: field_clause_def)
next
  case (LeafExtension f c)
  then show ?case
    using reads_leaf [OF reads_field [of f c 14 0]] by (simp add: field_clause_def)
next
  case (IntermediateExtension f c)
  then show ?case
    using reads_leaf [OF reads_field [of f c 14 1]] by (simp add: field_clause_def)
qed (simp_all add: reads_data_leaf reads_constant_leaf)

section \<open>Properties\<close>

text \<open>
  C26: the reader of compiled requirements inverts the blob layout: whatever clause is laid out,
  with its data below the 32-bit length field and its nesting within the depth bound, is what
  the reader returns, with no byte left over.
\<close>

theorem parse_layout_roundtrip:
  assumes "data_fits c" and "clause_depth c \<le> MAX_DEPTH"
    and "12 + length (layout_clause c) < 2 ^ 32"
  shows "parse_requirement (layout_requirement c) = Ok c"
proof -
  define n where "n = 12 + length (layout_clause c)"
  define b where "b = layout_requirement c"
  define r where "r = \<lparr>blob = b, at = 0\<rparr>"
  have n: "length b = n" by (simp add: b_def layout_requirement_def n_def)
  have "n < 2 ^ 32" using assms(3) by (simp add: n_def)
  then have len: "unat (of_nat n :: u32) = n" by (simp add: unat_of_nat)
  have r0: "inside r" "unread r = to_be_bytes MAGIC @ to_be_bytes (of_nat n) @
      to_be_bytes EXPRESSION_FORM @ layout_clause c @ []"
    using assms(3) n by (simp_all add: r_def inside_def unread_def b_def layout_requirement_def n_def)
  note w1 = readsD [OF reads_word r0] and s1 = inside_skip [OF r0] unread_skip [OF r0(2)]
  note w2 = readsD [OF reads_word s1] and s2 = inside_skip [OF s1] unread_skip [OF s1(2)]
  note w3 = readsD [OF reads_word s2] and s3 = inside_skip [OF s2] unread_skip [OF s2(2)]
  have "reads (read_clause 0) (layout_clause c) c"
    using assms by (intro reads_clause) simp_all
  note w4 = readsD [OF this s3]
  have "parse_requirement b = Ok c"
    unfolding parse_requirement_ok r_def [symmetric]
    using w1 w2 w3 w4 len n by (auto simp: skip_def r_def n_def)
  then show ?thesis by (simp add: b_def)
qed

theorem parse_layout_roundtrip_witness:
  "parse_requirement (layout_requirement (Or (CdHash [1, 2, 3]) (And GenericAnchor (Identifier [7]))))
     = Ok (Or (CdHash [1, 2, 3]) (And GenericAnchor (Identifier [7])))"
  by (rule parse_layout_roundtrip) (simp_all add: MAX_DEPTH_def layout_data_def)

text \<open>
  C27: whatever the reader accepts is read within the blob: every clause costs at least one word,
  so the blob bounds the size of the clause, and the nesting stays within the depth bound.
\<close>

theorem parse_bounds:
  assumes "parse_requirement b = Ok c"
  shows "12 + 4 * clause_nodes c \<le> length b \<and> clause_depth c \<le> MAX_DEPTH \<and> length b < 2 ^ 32"
proof -
  obtain r1 r2 r3 r4 size where w: "read_word \<lparr>blob = b, at = 0\<rparr> = Ok (MAGIC, r1)"
    "read_word r1 = Ok (size, r2)" "read_word r2 = Ok (EXPRESSION_FORM, r3)"
    "read_clause 0 r3 = Ok (c, r4)" and l: "unat size = length b"
    using assms unfolding parse_requirement_ok by blast
  from w have "advanced (4 + (4 + (4 + 4 * clause_nodes c))) \<lparr>blob = b, at = 0\<rparr> r4"
    by (blast intro: advanced_trans dest: read_word_advanced read_clause_nodes)
  then have "12 + 4 * clause_nodes c \<le> length b" by (simp add: advanced_def)
  moreover have "clause_depth c \<le> MAX_DEPTH" using read_clause_depth [OF w(4)] by simp
  moreover have "length b < 2 ^ 32" using unsigned_less [of size, where ?'a = nat] l by simp
  ultimately show ?thesis by blast
qed

lemma parse_generic_anchor:
  "parse_requirement [0xFA, 0xDE, 0x0C, 0x00, 0, 0, 0, 16, 0, 0, 0, 1, 0, 0, 0, 15] = Ok GenericAnchor"
  by (simp add: parse_requirement_def read_word_def take_bytes_def read_clause.simps read_leaf_def
      MAGIC_def EXPRESSION_FORM_def MAX_DEPTH_def ensure_def)

theorem parse_bounds_witness:
  "let b = [0xFA :: u8, 0xDE, 0x0C, 0x00, 0, 0, 0, 16, 0, 0, 0, 1, 0, 0, 0, 15]
   in 12 + 4 * clause_nodes GenericAnchor \<le> length b \<and> clause_depth GenericAnchor \<le> MAX_DEPTH \<and>
      length b < 2 ^ 32"
  unfolding Let_def by (rule parse_bounds [OF parse_generic_anchor])

lemma take_bytes_extend:
  "take_bytes n r = Ok (bs, r') \<Longrightarrow>
     take_bytes n (r\<lparr>blob := blob r @ x\<rparr>) = Ok (bs, r'\<lparr>blob := blob r' @ x\<rparr>)"
  by (auto simp: take_bytes_def Let_def split: if_splits)

lemma read_word_extend:
  "read_word r = Ok (w, r') \<Longrightarrow>
     read_word (r\<lparr>blob := blob r @ x\<rparr>) = Ok (w, r'\<lparr>blob := blob r' @ x\<rparr>)"
  by (auto simp: read_word_def dest: take_bytes_extend [where x = x])

text \<open>
  The reader consumes the whole blob it is given, and the length field it checks is part of
  the blob: no byte string that continues an accepted one is accepted, it is refused as a length
  mismatch.
\<close>

theorem parse_prefix_free:
  assumes "parse_requirement b = Ok c" and "x \<noteq> []"
  shows "parse_requirement (b @ x) = Err LengthMismatch"
proof -
  obtain r1 r2 size where w: "read_word \<lparr>blob = b, at = 0\<rparr> = Ok (MAGIC, r1)"
    "read_word r1 = Ok (size, r2)" and l: "unat size = length b"
    using assms(1) unfolding parse_requirement_ok by blast
  have "read_word \<lparr>blob = b @ x, at = 0\<rparr> = Ok (MAGIC, r1\<lparr>blob := blob r1 @ x\<rparr>)"
    using read_word_extend [OF w(1), of x] by simp
  moreover note read_word_extend [OF w(2), of x]
  moreover have "unat size \<noteq> length (b @ x)" using l assms(2) by simp
  ultimately show ?thesis by (simp add: parse_requirement_def ensure_def)
qed

theorem parse_prefix_free_witness:
  "parse_requirement ([0xFA, 0xDE, 0x0C, 0x00, 0, 0, 0, 16, 0, 0, 0, 1, 0, 0, 0, 15] @ [0]) = Err LengthMismatch"
  by (rule parse_prefix_free [OF parse_generic_anchor]) simp

end
