(* ===== verification/RequirementCompile.thy ===== *)
theory RequirementCompile
  imports CoreFoundation
begin

text \<open>
  The compiler of requirement texts,
  \<open>toolkit/dovetail_privileged_daemon/rust/src/requirement_compile.rs\<close>: three foreign
  constructors in a row, each result checked and owned, and the bytes of the last one copied out.
\<close>

definition UTF8 :: "32 word" where "UTF8 = 0x08000100"

text \<open>
  The foreign functions the file declares.  Each may look at everything called before it (the
  log), so nothing is assumed about their being functions of their arguments.
\<close>

record requirement_api =
  CFStringCreateWithBytes :: "cf_log \<Rightarrow> string \<Rightarrow> 32 word \<Rightarrow> cf_ref"
  SecRequirementCreateWithString :: "cf_log \<Rightarrow> cf_ref \<Rightarrow> os_status \<times> cf_ref"
  SecRequirementCopyData :: "cf_log \<Rightarrow> cf_ref \<Rightarrow> os_status \<times> cf_ref"
  CFDataGetBytePtr :: "cf_log \<Rightarrow> cf_ref \<Rightarrow> bytes option"
  CFDataGetLength :: "cf_log \<Rightarrow> cf_ref \<Rightarrow> nat"

datatype compile_error = CallFailed string os_status | EmptyData

definition owned :: "os_status \<Rightarrow> cf_ref \<Rightarrow> string \<Rightarrow> compile_error + cf_ref" where
  "owned status object call = and_then (ensure (status = 0 \<and> object \<noteq> 0) (CallFailed call status)) (\<lambda>_. Ok object)"

text \<open>
  \<open>CFDataGetBytePtr\<close> returns a pointer: null, or one to the bytes that can be read there, of
  which \<open>from_raw_parts\<close> takes the first \<open>length\<close>.
\<close>

definition read_data_object :: "requirement_api \<Rightarrow> cf_ref \<Rightarrow> (compile_error, bytes) cf" where
  "read_data_object api data log =
     (case CFDataGetBytePtr api log data of
        None \<Rightarrow> (Err EmptyData, cf_used data log)
      | Some memory \<Rightarrow>
          let log = cf_used data log; count = CFDataGetLength api log data
          in (Ok (take count memory), cf_used data log))"

definition copy_requirement :: "requirement_api \<Rightarrow> cf_ref \<Rightarrow> (compile_error, bytes) cf" where
  "copy_requirement api requirement log =
     (let (status, data) = SecRequirementCopyData api log requirement;
          log = cf_made data (cf_used requirement log)
      in case owned status data ''SecRequirementCopyData'' of
           Err e \<Rightarrow> (Err e, log)
         | Ok data \<Rightarrow> with_owned data (read_data_object api data) log)"

definition create_requirement :: "requirement_api \<Rightarrow> cf_ref \<Rightarrow> (compile_error, bytes) cf" where
  "create_requirement api text log =
     (let (status, requirement) = SecRequirementCreateWithString api log text;
          log = cf_made requirement (cf_used text log)
      in case owned status requirement ''SecRequirementCreateWithString'' of
           Err e \<Rightarrow> (Err e, log)
         | Ok requirement \<Rightarrow> with_owned requirement (copy_requirement api requirement) log)"

definition compile_requirement :: "requirement_api \<Rightarrow> string \<Rightarrow> (compile_error, bytes) cf" where
  "compile_requirement api text log =
     (let string = CFStringCreateWithBytes api log text UTF8; log = cf_made string log
      in case owned 0 string ''CFStringCreateWithBytes'' of
           Err e \<Rightarrow> (Err e, log)
         | Ok string \<Rightarrow> with_owned string (create_requirement api string) log)"

section \<open>Ownership\<close>

text \<open>
  Apple documents that the out parameter is set on success only; it is null before the call.
\<close>

definition api_sets_on_success :: "requirement_api \<Rightarrow> bool" where
  "api_sets_on_success api \<longleftrightarrow>
     (\<forall>log x status object. SecRequirementCreateWithString api log x = (status, object) \<longrightarrow>
        status \<noteq> 0 \<longrightarrow> object = 0) \<and>
     (\<forall>log x status object. SecRequirementCopyData api log x = (status, object) \<longrightarrow>
        status \<noteq> 0 \<longrightarrow> object = 0)"

lemma owned_ok [simp]: "owned status x call = Ok y \<longleftrightarrow> status = 0 \<and> x \<noteq> 0 \<and> y = x"
  by (auto simp: owned_def)

lemma owned_err [simp]:
  "owned status x call = Err e \<longleftrightarrow> (status = 0 \<longrightarrow> x = 0) \<and> e = CallFailed call status"
  by (auto simp: owned_def)

lemma read_data_object_clean: "cf_clean (x # live) (read_data_object api x)"
  by (auto simp: cf_clean_def read_data_object_def Let_def split: option.splits)

lemma api_null:
  assumes "api_sets_on_success api" and "status \<noteq> 0"
  shows "SecRequirementCreateWithString api log x = (status, object) \<Longrightarrow> object = 0"
    and "SecRequirementCopyData api log x = (status, object) \<Longrightarrow> object = 0"
  using assms unfolding api_sets_on_success_def by blast+

lemma copy_requirement_clean:
  assumes "api_sets_on_success api"
  shows "cf_clean (x # live) (copy_requirement api x)"
  by (auto simp: cf_clean_def copy_requirement_def Let_def split: prod.splits sum.splits
      intro!: with_owned_clean read_data_object_clean dest: api_null(2) [OF assms])

lemma create_requirement_clean:
  assumes "api_sets_on_success api"
  shows "cf_clean (x # live) (create_requirement api x)"
  by (auto simp: cf_clean_def create_requirement_def Let_def split: prod.splits sum.splits
      intro!: with_owned_clean copy_requirement_clean [OF assms] dest: api_null(1) [OF assms])

text \<open>
  C32: on every path through the compiler of requirements, errors included, each object the
  frameworks handed out is used only while it is owned and is released exactly once: the log
  never uses or releases what is not owned, and ends owning nothing.
\<close>

theorem compile_requirement_releases:
  assumes "api_sets_on_success api"
  shows "cf_owned [] (snd (compile_requirement api text [])) = Some []"
  using assms
  by (auto simp: compile_requirement_def Let_def split: sum.splits
      intro!: with_owned_clean create_requirement_clean)

definition example_requirement_api :: "bytes \<Rightarrow> requirement_api" where
  "example_requirement_api compiled =
     \<lparr>CFStringCreateWithBytes = (\<lambda>log text encoding. 1),
      SecRequirementCreateWithString = (\<lambda>log x. (0, 2)),
      SecRequirementCopyData = (\<lambda>log x. (0, 3)),
      CFDataGetBytePtr = (\<lambda>log x. Some compiled),
      CFDataGetLength = (\<lambda>log x. length compiled)\<rparr>"

lemma example_api_sets_on_success [simp]: "api_sets_on_success (example_requirement_api b)"
  by (simp add: api_sets_on_success_def example_requirement_api_def)

theorem compile_requirement_releases_witness:
  "cf_owned [] (snd (compile_requirement (example_requirement_api [7]) ''always'' [])) = Some []"
  by (rule compile_requirement_releases) simp

lemma compile_requirement_example [simp]:
  "fst (compile_requirement (example_requirement_api b) text []) = Ok b"
  by (simp add: compile_requirement_def create_requirement_def copy_requirement_def
      read_data_object_def example_requirement_api_def owned_def ensure_def Let_def)

end
