(* ===== verification/RequirementStrength.thy ===== *)
theory RequirementStrength
  imports RequirementBlob RequirementCompile
begin

text \<open>
  The judgement that a code requirement is narrow enough for the privileged channel,
  \<open>toolkit/dovetail_privileged_daemon/rust/src/requirement_strength.rs\<close>.  A compiled
  requirement is a boolean formula over facts about a code signature; the code multiplies it out
  into alternatives, each a set of facts packed in a byte, and accepts no requirement with a
  negation or the constant.  The theorems compare that analysis
  with the meaning of the formula.
\<close>

section \<open>The judgement\<close>

definition byte_string :: "string \<Rightarrow> bytes" where "byte_string = map of_char"

definition TEAM_FIELD :: bytes where "TEAM_FIELD = byte_string ''subject.OU''"
definition APP_STORE_OID :: bytes where
  "APP_STORE_OID = [0x2a, 0x86, 0x48, 0x86, 0xf7, 0x63, 0x64, 0x06, 0x01, 0x09]"
definition DEVELOPER_ID_CA_OID :: bytes where
  "DEVELOPER_ID_CA_OID = [0x2a, 0x86, 0x48, 0x86, 0xf7, 0x63, 0x64, 0x06, 0x02, 0x06]"
definition DEVELOPER_ID_LEAF_OID :: bytes where
  "DEVELOPER_ID_LEAF_OID = [0x2a, 0x86, 0x48, 0x86, 0xf7, 0x63, 0x64, 0x06, 0x01, 0x0d]"

definition PINNED :: u8 where "PINNED = 1"
definition ANCHORED :: u8 where "ANCHORED = 2"
definition NAMED :: u8 where "NAMED = 4"
definition TEAM :: u8 where "TEAM = 8"
definition APP_STORE :: u8 where "APP_STORE = 16"
definition DEVELOPER_ID_CA :: u8 where "DEVELOPER_ID_CA = 32"
definition DEVELOPER_ID_LEAF :: u8 where "DEVELOPER_ID_LEAF = 64"
definition DEVELOPER_ID :: u8 where
  "DEVELOPER_ID = TEAM OR DEVELOPER_ID_CA OR DEVELOPER_ID_LEAF"

lemmas fact_bits = PINNED_def ANCHORED_def NAMED_def TEAM_def APP_STORE_def DEVELOPER_ID_CA_def
  DEVELOPER_ID_LEAF_def

fun fact :: "clause \<Rightarrow> u8" where
  "fact (CdHash _) = PINNED"
| "fact GenericAnchor = ANCHORED"
| "fact (Identifier i) = (if i \<noteq> [] then NAMED else 0)"
| "fact (LeafField field (CmpEquals team)) = (if field = TEAM_FIELD \<and> team \<noteq> [] then TEAM else 0)"
| "fact (LeafExtension oid CmpExists) =
     (if oid = APP_STORE_OID then APP_STORE
      else if oid = DEVELOPER_ID_LEAF_OID then DEVELOPER_ID_LEAF else 0)"
| "fact (IntermediateExtension oid CmpExists) =
     (if oid = DEVELOPER_ID_CA_OID then DEVELOPER_ID_CA else 0)"
| "fact _ = 0"

text \<open>\<open>sort_unstable\<close> and \<open>dedup\<close>, which drops consecutive equal elements.\<close>

fun alternatives :: "clause \<Rightarrow> u8 list" where
  "alternatives (And left right) =
     remdups_adj (sort (concat (map (\<lambda>l. map (\<lambda>r. l OR r) (alternatives right)) (alternatives left))))"
| "alternatives (Or left right) = remdups_adj (sort (alternatives left @ alternatives right))"
| "alternatives other = remdups_adj (sort [fact other])"

fun loosened :: "clause \<Rightarrow> bool" where
  "loosened CTrue = True"
| "loosened (CNot _) = True"
| "loosened (And left right) = (loosened left \<or> loosened right)"
| "loosened (Or left right) = (loosened left \<or> loosened right)"
| "loosened _ = False"

definition admits_only_the_product :: "u8 \<Rightarrow> bool" where
  "admits_only_the_product facts =
     (let signed_by_the_product = facts AND DEVELOPER_ID = DEVELOPER_ID \<or> facts AND APP_STORE \<noteq> 0;
          identified = facts AND (ANCHORED OR NAMED) = (ANCHORED OR NAMED)
      in facts AND PINNED \<noteq> 0 \<or> identified \<and> signed_by_the_product)"

definition is_strong :: "clause \<Rightarrow> bool" where
  "is_strong compiled \<longleftrightarrow>
     \<not> loosened compiled \<and> list_all admits_only_the_product (alternatives compiled)"

datatype strength_error =
    DoesNotCompile string compile_error
  | Unreadable parse_error
  | TooWeak string

definition ensure_strong :: "requirement_api \<Rightarrow> string \<Rightarrow> strength_error + unit" where
  "ensure_strong api requirement =
     and_then (map_err (DoesNotCompile requirement) (fst (compile_requirement api requirement [])))
       (\<lambda>compiled. and_then (map_err Unreadable (parse_requirement compiled))
       (\<lambda>c. ensure (is_strong c) (TooWeak requirement)))"

section \<open>What a requirement means\<close>

text \<open>
  The operating system decides the leaves of a requirement for the code it looks at; \<open>holds\<close>
  gives its answers, and the connectives have their usual meaning.
\<close>

fun satisfied :: "(clause \<Rightarrow> bool) \<Rightarrow> clause \<Rightarrow> bool" where
  "satisfied holds (And a b) \<longleftrightarrow> satisfied holds a \<and> satisfied holds b"
| "satisfied holds (Or a b) \<longleftrightarrow> satisfied holds a \<or> satisfied holds b"
| "satisfied holds (CNot a) \<longleftrightarrow> \<not> satisfied holds a"
| "satisfied holds CTrue \<longleftrightarrow> True"
| "satisfied holds leaf \<longleftrightarrow> holds leaf"

fun leaves :: "clause \<Rightarrow> clause set" where
  "leaves (And a b) = leaves a \<union> leaves b"
| "leaves (Or a b) = leaves a \<union> leaves b"
| "leaves (CNot a) = leaves a"
| "leaves CTrue = {}"
| "leaves leaf = {leaf}"

text \<open>The clauses a clause is written with, itself among them.\<close>

fun subclauses :: "clause \<Rightarrow> clause set" where
  "subclauses (And a b) = insert (And a b) (subclauses a \<union> subclauses b)"
| "subclauses (Or a b) = insert (Or a b) (subclauses a \<union> subclauses b)"
| "subclauses (CNot a) = insert (CNot a) (subclauses a)"
| "subclauses other = {other}"

text \<open>
  What the README promises of an admitted peer, over the leaves that hold of it: a pinned code
  hash, or Apple's anchor, a named identifier and one of the two signatures of the product.
\<close>

definition product_evidence :: "clause set \<Rightarrow> bool" where
  "product_evidence S \<longleftrightarrow>
     (\<exists>h. CdHash h \<in> S) \<or>
     GenericAnchor \<in> S \<and> (\<exists>i. i \<noteq> [] \<and> Identifier i \<in> S) \<and>
       ((\<exists>t. t \<noteq> [] \<and> LeafField TEAM_FIELD (CmpEquals t) \<in> S) \<and>
          IntermediateExtension DEVELOPER_ID_CA_OID CmpExists \<in> S \<and>
          LeafExtension DEVELOPER_ID_LEAF_OID CmpExists \<in> S \<or>
        LeafExtension APP_STORE_OID CmpExists \<in> S)"

section \<open>The alternatives are the disjunctive normal form\<close>

fun branches :: "clause \<Rightarrow> clause list list" where
  "branches (And a b) = concat (map (\<lambda>l. map (\<lambda>r. l @ r) (branches b)) (branches a))"
| "branches (Or a b) = branches a @ branches b"
| "branches leaf = [[leaf]]"

definition facts_of :: "clause list \<Rightarrow> u8" where
  "facts_of b = foldr (\<lambda>l m. fact l OR m) b 0"

lemma facts_of_simps [simp]:
  "facts_of [] = 0" "facts_of (l # b) = fact l OR facts_of b"
  "facts_of (b @ b') = facts_of b OR facts_of b'"
proof -
  show "facts_of (b @ b') = facts_of b OR facts_of b'"
    by (induction b) (simp_all add: facts_of_def or.assoc)
qed (simp_all add: facts_of_def)

lemma set_alternatives: "set (alternatives c) = facts_of ` set (branches c)"
proof (induction c)
  case (And a b)
  have "set (alternatives (And a b)) = {l OR r | l r. l \<in> set (alternatives a) \<and> r \<in> set (alternatives b)}"
    by auto
  also have "\<dots> = {facts_of l OR facts_of r | l r. l \<in> set (branches a) \<and> r \<in> set (branches b)}"
    unfolding And.IH by blast
  also have "\<dots> = facts_of ` {l @ r | l r. l \<in> set (branches a) \<and> r \<in> set (branches b)}"
    by (auto simp: image_iff simp del: facts_of_simps(3)) (metis facts_of_simps(3))+
  also have "{l @ r | l r. l \<in> set (branches a) \<and> r \<in> set (branches b)} = set (branches (And a b))"
    by auto
  finally show ?case .
qed (simp_all add: image_Un)

lemma branches_leaves: "\<not> loosened c \<Longrightarrow> b \<in> set (branches c) \<Longrightarrow> set b \<subseteq> leaves c"
  by (induction c arbitrary: b) fastforce+

lemma satisfied_branches:
  "\<not> loosened c \<Longrightarrow> satisfied holds c \<longleftrightarrow> (\<exists>b\<in>set (branches c). \<forall>l\<in>set b. holds l)"
proof (induction c)
  case (And a b)
  then show ?case by (auto simp: ball_Un)
next
  case (Or a b)
  then show ?case by (simp add: bex_Un)
qed simp_all

lemma facts_of_bit: "bit (facts_of b) n \<longleftrightarrow> (\<exists>l\<in>set b. bit (fact l) n)"
  by (induction b) (auto simp: bit_or_iff)

lemma bit_fact:
  "bit (fact l) 0 \<longleftrightarrow> (\<exists>h. l = CdHash h)"
  "bit (fact l) 1 \<longleftrightarrow> l = GenericAnchor"
  "bit (fact l) 2 \<longleftrightarrow> (\<exists>i. i \<noteq> [] \<and> l = Identifier i)"
  "bit (fact l) 3 \<longleftrightarrow> (\<exists>t. t \<noteq> [] \<and> l = LeafField TEAM_FIELD (CmpEquals t))"
  "bit (fact l) 4 \<longleftrightarrow> l = LeafExtension APP_STORE_OID CmpExists"
  "bit (fact l) 5 \<longleftrightarrow> l = IntermediateExtension DEVELOPER_ID_CA_OID CmpExists"
  "bit (fact l) 6 \<longleftrightarrow> l = LeafExtension DEVELOPER_ID_LEAF_OID CmpExists"
  by (cases l rule: fact.cases;
      force simp: fact_bits APP_STORE_OID_def DEVELOPER_ID_LEAF_OID_def)+

lemma and_mask_split:
  fixes m :: u8
  shows "m AND (a OR b) = (a OR b) \<longleftrightarrow> m AND a = a \<and> m AND b = b"
  by (auto simp: bit_eq_iff bit_and_iff bit_or_iff)

lemma and_bit_nonzero:
  fixes m :: u8
  shows "m AND 2 ^ n \<noteq> 0 \<longleftrightarrow> bit m n"
  by (simp add: and_exp_eq_0_iff_not_bit)

lemma and_bit_eq:
  fixes m :: u8
  shows "n < 8 \<Longrightarrow> m AND 2 ^ n = 2 ^ n \<longleftrightarrow> bit m n"
  by (auto simp: bit_eq_iff [of "m AND 2 ^ n"] bit_and_iff bit_exp_iff)

lemma admits_bits:
  "admits_only_the_product m \<longleftrightarrow>
     bit m 0 \<or> bit m 1 \<and> bit m 2 \<and> (bit m 3 \<and> bit m 5 \<and> bit m 6 \<or> bit m 4)"
  using and_bit_nonzero [of m 0] and_bit_nonzero [of m 4] and_bit_eq [of 1 m] and_bit_eq [of 2 m]
    and_bit_eq [of 3 m] and_bit_eq [of 5 m] and_bit_eq [of 6 m]
    and_mask_split [of m 2 4] and_mask_split [of m 8 "32 OR 64"] and_mask_split [of m 32 64]
  by (simp add: admits_only_the_product_def Let_def DEVELOPER_ID_def fact_bits)

lemma admits_facts: "admits_only_the_product (facts_of b) \<longleftrightarrow> product_evidence (set b)"
  unfolding admits_bits facts_of_bit bit_fact product_evidence_def by blast

lemma product_evidence_mono: "product_evidence S \<Longrightarrow> S \<subseteq> T \<Longrightarrow> product_evidence T"
  unfolding product_evidence_def by blast

section \<open>Properties\<close>

lemma loosened_subclauses:
  "loosened c \<longleftrightarrow> CTrue \<in> subclauses c \<or> (\<exists>negated. CNot negated \<in> subclauses c)"
  by (induction c) auto

lemma evidence_of_alternatives:
  assumes "\<not> loosened c"
  shows "is_strong c \<longleftrightarrow>
     (\<forall>holds. satisfied holds c \<longrightarrow> product_evidence {l \<in> leaves c. holds l})"
proof -
  have "is_strong c \<longleftrightarrow> (\<forall>b\<in>set (branches c). product_evidence (set b))"
    using assms by (simp add: is_strong_def list_all_iff set_alternatives admits_facts)
  also have "\<dots> \<longleftrightarrow> (\<forall>holds. satisfied holds c \<longrightarrow> product_evidence {l \<in> leaves c. holds l})"
  proof (intro iffI allI impI ballI)
    fix holds assume all: "\<forall>b\<in>set (branches c). product_evidence (set b)"
      and "satisfied holds c"
    then obtain b where b: "b \<in> set (branches c)" "\<forall>l\<in>set b. holds l"
      using satisfied_branches [OF assms] by blast
    then have "set b \<subseteq> {l \<in> leaves c. holds l}" using branches_leaves [OF assms] by blast
    then show "product_evidence {l \<in> leaves c. holds l}"
      using all b(1) product_evidence_mono by blast
  next
    fix b assume evidence: "\<forall>holds. satisfied holds c \<longrightarrow> product_evidence {l \<in> leaves c. holds l}"
      and b: "b \<in> set (branches c)"
    have "satisfied (\<lambda>l. l \<in> set b) c" using satisfied_branches [OF assms] b by blast
    then have "product_evidence {l \<in> leaves c. l \<in> set b}" using evidence by blast
    then show "product_evidence (set b)" by (rule product_evidence_mono) blast
  qed
  finally show ?thesis .
qed

text \<open>
  C1: the judgement is exact.  A requirement is strong precisely when neither a negation nor
  the constant occurs anywhere in it and, whatever the operating system answers about its
  leaves, code that satisfies it shows the evidence of the product among the leaves that hold of
  it.  A requirement with a negation or the constant is not strong even where its alternatives
  would show the evidence.
\<close>

theorem is_strong_exact:
  "is_strong c \<longleftrightarrow>
     (\<forall>x\<in>subclauses c. x \<noteq> CTrue \<and> (\<forall>negated. x \<noteq> CNot negated)) \<and>
     (\<forall>holds. satisfied holds c \<longrightarrow> product_evidence {l \<in> leaves c. holds l})"
proof (cases "loosened c")
  case True
  then show ?thesis using loosened_subclauses [of c] by (auto simp: is_strong_def)
next
  case False
  then show ?thesis
    using loosened_subclauses [of c] evidence_of_alternatives [OF False] by blast
qed

theorem is_strong_exact_witness:
  "let store = And (And GenericAnchor (Identifier [1])) (LeafExtension APP_STORE_OID CmpExists)
   in is_strong (Or (CdHash [9]) store) \<and>
      \<not> is_strong (Or (CdHash [9]) GenericAnchor) \<and>
      \<not> is_strong (And CTrue (CdHash [9]))"
proof -
  let ?store = "And (And GenericAnchor (Identifier [1])) (LeafExtension APP_STORE_OID CmpExists)"
  have "is_strong (Or (CdHash [9]) ?store)"
    by (rule is_strong_exact [THEN iffD2]) (auto simp: product_evidence_def)
  moreover have "\<not> product_evidence {l. l = GenericAnchor}" by (simp add: product_evidence_def)
  then have "\<not> is_strong (Or (CdHash [9]) GenericAnchor)"
    unfolding is_strong_exact
    by (auto intro!: exI [where x = "\<lambda>l. l = GenericAnchor"] simp: product_evidence_def)
  moreover have "\<not> is_strong (And CTrue (CdHash [9]))"
    unfolding is_strong_exact by auto
  ultimately show ?thesis by (simp add: Let_def)
qed

lemma is_strong_sound: "is_strong c \<Longrightarrow> satisfied holds c \<Longrightarrow> product_evidence {l \<in> leaves c. holds l}"
proof -
  assume "is_strong c" and s: "satisfied holds c"
  then have "\<not> loosened c" and all: "\<forall>b\<in>set (branches c). product_evidence (set b)"
    by (auto simp: is_strong_def list_all_iff set_alternatives admits_facts)
  then obtain b where b: "b \<in> set (branches c)" "\<forall>l\<in>set b. holds l" "set b \<subseteq> leaves c"
    using satisfied_branches [of c holds] branches_leaves [of c] s by blast
  then show ?thesis using all by (blast intro: product_evidence_mono)
qed

lemma ensure_strong_ok:
  "ensure_strong api text = Ok () \<longleftrightarrow>
     (\<exists>b c. fst (compile_requirement api text []) = Ok b \<and> parse_requirement b = Ok c \<and> is_strong c)"
  by (auto simp: ensure_strong_def)

text \<open>
  C2: a requirement text that the daemon accepts compiles to a blob the reader accepts, and no
  code satisfies the compiled requirement without the evidence of the product: a pinned code
  hash, or Apple's anchor with a named identifier and a signature of the product.
\<close>

theorem ensure_strong_sound:
  assumes "ensure_strong api text = Ok ()"
  shows "\<exists>b c. fst (compile_requirement api text []) = Ok b \<and> parse_requirement b = Ok c \<and>
     (\<forall>holds. satisfied holds c \<longrightarrow> product_evidence {l \<in> leaves c. holds l})"
  using assms is_strong_sound unfolding ensure_strong_ok by blast

definition pinned_blob :: bytes where
  "pinned_blob = [0xFA, 0xDE, 0x0C, 0x00, 0, 0, 0, 24, 0, 0, 0, 1, 0, 0, 0, 8, 0, 0, 0, 2, 9, 9, 0, 0]"

lemma parse_pinned_blob: "parse_requirement pinned_blob = Ok (CdHash [9, 9])"
  by (simp add: pinned_blob_def parse_requirement_def read_word_def read_data_def take_bytes_def
      read_clause.simps read_leaf_def MAGIC_def EXPRESSION_FORM_def MAX_DEPTH_def ensure_def Let_def)

lemma ensure_strong_pinned: "ensure_strong (example_requirement_api pinned_blob) text = Ok ()"
proof -
  have "is_strong (CdHash h)" for h
    by (simp add: is_strong_def admits_bits fact_bits)
  then show ?thesis by (simp add: ensure_strong_ok parse_pinned_blob)
qed

theorem ensure_strong_sound_witness:
  "\<exists>b c. fst (compile_requirement (example_requirement_api pinned_blob) ''pin'' []) = Ok b \<and>
     parse_requirement b = Ok c \<and>
     (\<forall>holds. satisfied holds c \<longrightarrow> product_evidence {l \<in> leaves c. holds l})"
  by (rule ensure_strong_sound [OF ensure_strong_pinned])

lemma distinct_remdups_adj: "sorted xs \<Longrightarrow> distinct (remdups_adj xs)"
  by (induction xs rule: remdups_adj.induct) (auto simp: less_le dest: order_antisym)

lemma facts_of_less: "facts_of b < 128"
proof -
  have "facts_of b = take_bit 7 (facts_of b)"
  proof (rule bit_eqI)
    fix n assume "possible_bit TYPE(8 word) n"
    then have "n < 8" by simp
    have "\<not> bit (fact l) 7" for l
      by (cases l rule: fact.cases) (auto simp: fact_bits)
    then have "\<not> bit (facts_of b) 7" by (simp add: facts_of_bit)
    then show "bit (facts_of b) n \<longleftrightarrow> bit (take_bit 7 (facts_of b)) n"
      using \<open>n < 8\<close> by (cases "n = 7") (auto simp: bit_take_bit_iff)
  qed
  then have "unat (facts_of b) < 2 ^ 7"
    by (metis take_bit_nat_less_exp unsigned_take_bit_eq)
  then show ?thesis by (simp add: word_less_nat_alt)
qed

text \<open>
  The analysis stays small however large the requirement: at most 128 alternatives are kept
  for any clause, sorted and without repetition, where multiplying out without the byte of facts
  would grow exponentially.
\<close>

theorem alternatives_small:
  "sorted (alternatives c) \<and> distinct (alternatives c) \<and> length (alternatives c) \<le> 128"
proof -
  have s: "sorted (alternatives c)" by (cases c) simp_all
  have d: "distinct (alternatives c)"
    by (cases c) (simp_all add: distinct_remdups_adj)
  have "set (map unat (alternatives c)) \<subseteq> {..<128}"
    using facts_of_less by (auto simp: set_alternatives word_less_nat_alt)
  then have "card (set (map unat (alternatives c))) \<le> 128"
    using card_mono [of "{..<128::nat}"] by fastforce
  moreover have "distinct (map unat (alternatives c))"
    using d by (simp add: distinct_map inj_on_def unsigned_word_eqI)
  ultimately have "length (alternatives c) \<le> 128" by (metis distinct_card length_map)
  then show ?thesis using s d by blast
qed

end
