(* ===== verification/PlistRequirement.thy ===== *)
theory PlistRequirement
  imports PeerPolicy RequirementStrength
begin

text \<open>
  Where the macOS daemon takes the code requirement of its peers from: \<open>plist_requirement.rs\<close>,
  \<open>plist_trust.rs\<close> and \<open>xpc_requirement\<close> of \<open>server.rs\<close>, all under
  \<open>toolkit/dovetail_privileged_daemon/rust/src\<close>.  The reader of property lists is the system's
  \<open>plutil\<close>: it is a parameter, which maps the path to the arguments it extracts, if any.
\<close>

section \<open>The trusted property list\<close>

definition closed_to_all_but_root :: "u32 \<Rightarrow> u32 \<Rightarrow> u32 \<Rightarrow> bool" where
  "closed_to_all_but_root uid gid mode \<longleftrightarrow> uid = 0 \<and> gid = 0 \<and> mode AND 0x12 = 0"

definition system_plist_is_trusted :: "string \<Rightarrow> host \<Rightarrow> bool \<times> host" where
  "system_plist_is_trusted path h =
     (case symlink_metadata path h of
        (Inl _, h') \<Rightarrow> (False, h')
      | (Inr meta, h') \<Rightarrow>
          (kind meta = RegularFile \<and>
           closed_to_all_but_root (node_uid meta) (node_gid meta) (node_mode meta), h'))"

section \<open>The requirement\<close>

definition REQUIREMENT_FLAG :: string where "REQUIREMENT_FLAG = ''--peer-requirement''"

datatype requirement_error =
    FlagWithoutValue
  | InPlist string requirement_error
  | NoRequirementDeclared
  | Weak strength_error

text \<open>\<open>any\<close> leaves the iterator right after the first argument that is the flag.\<close>

fun requirement_in :: "string list \<Rightarrow> requirement_error + string option" where
  "requirement_in [] = Ok None"
| "requirement_in (arg # arguments) =
     (if arg = REQUIREMENT_FLAG then
        (case arguments of [] \<Rightarrow> Err FlagWithoutValue | value # _ \<Rightarrow> Ok (Some value))
      else requirement_in arguments)"

text \<open>
  \<open>program_arguments\<close> runs \<open>plutil\<close> and parses its output; it is \<open>None\<close> when either fails.
\<close>

type_synonym plutil = "string \<Rightarrow> string list option"

definition PLUTIL :: string where "PLUTIL = ''/usr/bin/plutil''"

text \<open>
  \<open>run\<close> runs a program and gives what it printed, whatever its exit status; \<open>from_slice\<close> reads a
  JSON list of strings.
\<close>

definition program_arguments ::
  "(string \<Rightarrow> string list \<Rightarrow> bytes option) \<Rightarrow> (bytes \<Rightarrow> string list option) \<Rightarrow> plutil" where
  "program_arguments run from_slice plist =
     Option.bind (run PLUTIL [''-extract'', ''ProgramArguments'', ''json'', ''-o'', ''-'', plist]) from_slice"

definition requirement_in_plist :: "plutil \<Rightarrow> string \<Rightarrow> requirement_error + string option" where
  "requirement_in_plist plutil plist =
     (case plutil plist of None \<Rightarrow> Ok None | Some arguments \<Rightarrow> requirement_in arguments)"

definition requirement_declared_by ::
  "plutil \<Rightarrow> string \<Rightarrow> host \<Rightarrow> (requirement_error + string option) \<times> host" where
  "requirement_declared_by plutil system_plist h =
     (let (trusted, h') = system_plist_is_trusted system_plist h
      in if \<not> trusted then (Ok None, h')
         else (map_err (InPlist system_plist) (requirement_in_plist plutil system_plist), h'))"

definition argv_is_ignored :: "string list \<Rightarrow> string option \<Rightarrow> bool" where
  "argv_is_ignored arguments declared =
     (case ok (requirement_in arguments) of
        Some (Some argv) \<Rightarrow> Some argv \<noteq> declared
      | _ \<Rightarrow> False)"

text \<open>
  \<open>xpc_requirement\<close> returns the requirement to serve under, and whether the warning about the
  command line was written.
\<close>

definition chosen_requirement :: "string option \<Rightarrow> PeerPolicy option \<Rightarrow> string option" where
  "chosen_requirement declared policy =
     (case declared of
        Some r \<Rightarrow> Some r
      | None \<Rightarrow> Option.bind policy code_requirement)"

definition xpc_requirement ::
  "requirement_api \<Rightarrow> string list \<Rightarrow> string option \<Rightarrow> PeerPolicy option \<Rightarrow>
     bool \<times> (requirement_error + string)" where
  "xpc_requirement api args declared policy =
     (argv_is_ignored args declared,
      case chosen_requirement declared policy of
        None \<Rightarrow> Err NoRequirementDeclared
      | Some requirement \<Rightarrow>
          and_then (map_err Weak (ensure_strong api requirement)) (\<lambda>_. Ok requirement))"

text \<open>The first three steps of \<open>incoming\<close> on macOS, up to the listener.\<close>

definition served_requirement ::
  "requirement_api \<Rightarrow> plutil \<Rightarrow> string \<Rightarrow> string list \<Rightarrow> PeerPolicy option \<Rightarrow> host \<Rightarrow>
     requirement_error + string" where
  "served_requirement api plutil system_plist args policy h =
     and_then (fst (requirement_declared_by plutil system_plist h))
       (\<lambda>declared. snd (xpc_requirement api args declared policy))"

section \<open>Lemmas\<close>

lemma requirement_in_skip:
  "REQUIREMENT_FLAG \<notin> set before \<Longrightarrow> requirement_in (before @ rest) = requirement_in rest"
  by (induction before) auto

lemma requirement_in_split:
  obtains "REQUIREMENT_FLAG \<notin> set args"
  | before rest where "args = before @ REQUIREMENT_FLAG # rest" "REQUIREMENT_FLAG \<notin> set before"
  by (meson split_list_first)

lemma requirement_in_absent: "REQUIREMENT_FLAG \<notin> set args \<Longrightarrow> requirement_in args = Ok None"
  using requirement_in_skip [of args "[]"] by simp

lemma requirement_in_ok:
  "requirement_in args = Ok (Some r) \<Longrightarrow>
     \<exists>before after. args = before @ REQUIREMENT_FLAG # r # after \<and> REQUIREMENT_FLAG \<notin> set before"
  by (cases args rule: requirement_in_split)
    (auto simp: requirement_in_absent requirement_in_skip split: list.splits)

lemma requirement_in_err:
  "REQUIREMENT_FLAG \<notin> set before \<Longrightarrow>
     requirement_in (before @ [REQUIREMENT_FLAG]) = Err FlagWithoutValue"
  by (simp add: requirement_in_skip)

lemma mode_bits: "mode AND 0x12 = (0::u32) \<longleftrightarrow> \<not> bit mode 4 \<and> \<not> bit mode 1"
proof -
  have "mode AND 0x12 = 0 \<longleftrightarrow> mode AND 2 ^ 4 = 0 \<and> mode AND 2 ^ 1 = 0"
    using bit.conj_disj_distrib [of mode "2 ^ 4" "2 ^ 1"] by (simp add: or_eq_0_iff)
  then show ?thesis by (simp only: and_exp_eq_0_iff_not_bit)
qed

lemma trusted_node:
  "fst (system_plist_is_trusted path h) \<longleftrightarrow>
     fault h (moment h) = None \<and>
     (\<exists>n. files h path = Some n \<and> kind n = RegularFile \<and> node_uid n = 0 \<and> node_gid n = 0 \<and>
        \<not> bit (node_mode n) 4 \<and> \<not> bit (node_mode n) 1)"
  by (auto simp: system_plist_is_trusted_def symlink_metadata_def fs_op_def Let_def
      closed_to_all_but_root_def mode_bits split: option.splits sum.splits)

lemma declared_by_ok:
  "fst (requirement_declared_by plutil path h) = Ok (Some r) \<longleftrightarrow>
     fst (system_plist_is_trusted path h) \<and>
     (\<exists>args. plutil path = Some args \<and> requirement_in args = Ok (Some r))"
  by (auto simp: requirement_declared_by_def requirement_in_plist_def split: prod.splits option.splits)

lemma declared_by_untrusted:
  "\<not> fst (system_plist_is_trusted path h) \<Longrightarrow> fst (requirement_declared_by plutil path h) = Ok None"
  by (auto simp: requirement_declared_by_def split: prod.splits)

lemma declared_by_malformed:
  "fst (system_plist_is_trusted path h) \<Longrightarrow> plutil path = Some (before @ [REQUIREMENT_FLAG]) \<Longrightarrow>
     REQUIREMENT_FLAG \<notin> set before \<Longrightarrow>
     fst (requirement_declared_by plutil path h) = Err (InPlist path FlagWithoutValue)"
proof -
  assume t: "fst (system_plist_is_trusted path h)" "plutil path = Some (before @ [REQUIREMENT_FLAG])"
    and "REQUIREMENT_FLAG \<notin> set before"
  then have "requirement_in (before @ [REQUIREMENT_FLAG]) = Err FlagWithoutValue"
    by (simp add: requirement_in_err)
  with t show ?thesis
    by (auto simp: requirement_declared_by_def requirement_in_plist_def split: prod.splits)
qed

lemma xpc_requirement_ok:
  "snd (xpc_requirement api args declared policy) = Ok r \<longleftrightarrow>
     chosen_requirement declared policy = Some r \<and> ensure_strong api r = Ok ()"
  by (auto simp: xpc_requirement_def split: option.splits)

section \<open>Properties\<close>

text \<open>
  C7: the requirement the macOS daemon serves under is strong, and it was written by root or
  compiled in: it is the value after the flag in a property list that is a regular file, owned by
  root and wheel and writable by no one else, or else the one of the compiled policy.  The
  command line has no part in it.
\<close>

theorem served_requirement_sources:
  assumes "served_requirement api plutil path args policy h = Ok r"
  shows "ensure_strong api r = Ok () \<and>
    ((\<exists>n before after. files h path = Some n \<and> kind n = RegularFile \<and> node_uid n = 0 \<and> node_gid n = 0 \<and>
        \<not> bit (node_mode n) 4 \<and> \<not> bit (node_mode n) 1 \<and>
        plutil path = Some (before @ REQUIREMENT_FLAG # r # after)) \<or>
     (\<exists>p. policy = Some p \<and> code_requirement p = Some r)) \<and>
    (\<forall>args'. served_requirement api plutil path args' policy h = Ok r)"
proof -
  obtain declared where d: "fst (requirement_declared_by plutil path h) = Ok declared"
    and c: "chosen_requirement declared policy = Some r" and s: "ensure_strong api r = Ok ()"
    using assms by (auto simp: served_requirement_def xpc_requirement_ok)
  have "\<forall>args'. served_requirement api plutil path args' policy h = Ok r"
    using d c s by (simp add: served_requirement_def xpc_requirement_ok)
  moreover have "(\<exists>n before after. files h path = Some n \<and> kind n = RegularFile \<and> node_uid n = 0 \<and>
        node_gid n = 0 \<and> \<not> bit (node_mode n) 4 \<and> \<not> bit (node_mode n) 1 \<and>
        plutil path = Some (before @ REQUIREMENT_FLAG # r # after)) \<or>
     (\<exists>p. policy = Some p \<and> code_requirement p = Some r)"
  proof (cases declared)
    case None
    then show ?thesis using c by (auto simp: chosen_requirement_def bind_eq_Some_conv)
  next
    case (Some x)
    with c have "x = r" by (simp add: chosen_requirement_def)
    then show ?thesis
      using d Some by (auto simp: declared_by_ok trusted_node dest!: requirement_in_ok)
  qed
  ultimately show ?thesis using s by blast
qed

definition root_plist :: node where
  "root_plist = \<lparr>kind = RegularFile, node_uid = 0, node_gid = 0, node_mode = 0x1A4, content = []\<rparr>"

lemma example_trusted [simp]:
  "fst (system_plist_is_trusted p (example_host [p \<mapsto> root_plist] 0))"
  by (simp add: system_plist_is_trusted_def symlink_metadata_def fs_op_def example_host_def
      root_plist_def closed_to_all_but_root_def)

lemma served_example:
  "served_requirement (example_requirement_api pinned_blob)
     (\<lambda>q. Some [''/helper'', REQUIREMENT_FLAG, ''pin'']) p [''/helper''] None
     (example_host [p \<mapsto> root_plist] 0) = Ok ''pin''"
proof -
  have "fst (requirement_declared_by (\<lambda>q. Some [''/helper'', REQUIREMENT_FLAG, ''pin'']) p
      (example_host [p \<mapsto> root_plist] 0)) = Ok (Some ''pin'')"
    unfolding declared_by_ok by (simp add: REQUIREMENT_FLAG_def)
  then show ?thesis
    by (simp add: served_requirement_def xpc_requirement_ok chosen_requirement_def ensure_strong_pinned)
qed

theorem served_requirement_sources_witness:
  "let api = example_requirement_api pinned_blob; path = ''/p''; r = ''pin'';
       plutil = (\<lambda>q. Some [''/helper'', REQUIREMENT_FLAG, ''pin'']);
       h = example_host [''/p'' \<mapsto> root_plist] 0; policy = None
   in ensure_strong api r = Ok () \<and>
    ((\<exists>n before after. files h path = Some n \<and> kind n = RegularFile \<and> node_uid n = 0 \<and> node_gid n = 0 \<and>
        \<not> bit (node_mode n) 4 \<and> \<not> bit (node_mode n) 1 \<and>
        plutil path = Some (before @ REQUIREMENT_FLAG # r # after)) \<or>
     (\<exists>p. policy = Some p \<and> code_requirement p = Some r)) \<and>
    (\<forall>args'. served_requirement api plutil path args' policy h = Ok r)"
  unfolding Let_def by (rule served_requirement_sources [OF served_example])

text \<open>
  The two ways a property list fails are told apart.  One that root did not write is as good
  as absent, whatever it declares; a trusted one that ends in the flag stops the daemon, even
  when the compiled policy has a requirement.
\<close>

theorem plist_trust_decides:
  "(\<not> fst (system_plist_is_trusted path h) \<longrightarrow>
      served_requirement api plutil path args policy h =
      snd (xpc_requirement api args None policy)) \<and>
   (fst (system_plist_is_trusted path h) \<longrightarrow> plutil path = Some (before @ [REQUIREMENT_FLAG]) \<longrightarrow>
      REQUIREMENT_FLAG \<notin> set before \<longrightarrow>
      served_requirement api plutil path args policy h = Err (InPlist path FlagWithoutValue))"
  by (simp add: served_requirement_def declared_by_untrusted declared_by_malformed)

theorem plist_trust_decides_witness:
  "served_requirement (example_requirement_api []) (\<lambda>p. Some [''/helper'', REQUIREMENT_FLAG]) ''/p'' []
     None (example_host [''/p'' \<mapsto> root_plist] 0) = Err (InPlist ''/p'' FlagWithoutValue)"
  using plist_trust_decides [of "''/p''" "example_host [''/p'' \<mapsto> root_plist] 0"
      "example_requirement_api []" "\<lambda>p. Some [''/helper'', REQUIREMENT_FLAG]" "[]" None "[''/helper'']"]
  by (simp add: REQUIREMENT_FLAG_def)

end
