(* ===== verification/Mode.thy ===== *)
theory Mode
  imports Prelude
begin

text \<open>
  The command line and the exit codes of the daemon, \<open>mode.rs\<close>, \<open>exit_codes.rs\<close> and \<open>executar\<close> of
  \<open>lib.rs\<close> under \<open>toolkit/dovetail_privileged_daemon/rust/src\<close>.
\<close>

section \<open>Exit codes\<close>

definition OK :: int where "OK = 0"
definition UNKNOWN :: int where "UNKNOWN = 1"
definition FAILED :: int where "FAILED = 2"
definition STARTING :: int where "STARTING = 3"
definition STOPPED :: int where "STOPPED = 4"
definition NOT_INSTALLED :: int where "NOT_INSTALLED = 5"
definition NEEDS_ELEVATION :: int where "NEEDS_ELEVATION = 6"
definition SCM_ACCESS_DENIED :: int where "SCM_ACCESS_DENIED = 20"
definition REGISTER_FAILED :: int where "REGISTER_FAILED = 21"
definition MISSING_DEPENDENCY :: int where "MISSING_DEPENDENCY = 22"
definition START_TIMEOUT :: int where "START_TIMEOUT = 23"
definition START_FAILED :: int where "START_FAILED = 24"
definition UNSUPPORTED_PLATFORM :: int where "UNSUPPORTED_PLATFORM = 30"

lemmas exit_codes = OK_def UNKNOWN_def FAILED_def STARTING_def STOPPED_def NOT_INSTALLED_def
  NEEDS_ELEVATION_def SCM_ACCESS_DENIED_def REGISTER_FAILED_def MISSING_DEPENDENCY_def
  START_TIMEOUT_def START_FAILED_def UNSUPPORTED_PLATFORM_def

section \<open>Modes\<close>

datatype mode = Service | Foreground | Install | Uninstall | StopService | Repair | Status | Cleanup

definition mode_of_arg :: "string \<Rightarrow> mode option" where
  "mode_of_arg arg =
     (if arg = ''--install'' \<or> arg = ''--register-service'' then Some Install
      else if arg = ''--uninstall'' \<or> arg = ''--unregister-service'' then Some Uninstall
      else if arg = ''--stop-service'' \<or> arg = ''--stop'' then Some StopService
      else if arg = ''--repair'' then Some Repair
      else if arg = ''--status'' then Some Status
      else if arg = ''--cleanup'' then Some Cleanup
      else if arg = ''--foreground'' \<or> arg = ''--console'' then Some Foreground
      else None)"

fun mode_from_iter :: "string list \<Rightarrow> mode" where
  "mode_from_iter [] = Service"
| "mode_from_iter (arg # args) =
     (case mode_of_arg arg of Some m \<Rightarrow> m | None \<Rightarrow> mode_from_iter args)"

text \<open>\<open>from_args\<close> drops the program's own name.\<close>

definition mode_from_args :: "string list \<Rightarrow> mode" where
  "mode_from_args args = mode_from_iter (drop 1 args)"

fun log_file :: "mode \<Rightarrow> string option" where
  "log_file Service = Some ''helper.log''"
| "log_file Foreground = Some ''helper.log''"
| "log_file Install = Some ''install.log''"
| "log_file Uninstall = Some ''install.log''"
| "log_file StopService = Some ''install.log''"
| "log_file Repair = Some ''install.log''"
| "log_file Cleanup = Some ''install.log''"
| "log_file Status = None"

section \<open>The services of a platform\<close>

text \<open>
  What each platform's \<open>service\<close> module offers, over a world of its own; \<open>cleanup\<close> and
  \<open>run_foreground\<close> are the application's and the server's, of which \<open>executar\<close> only looks at
  whether they failed.
\<close>

record 'w backend =
  run_service :: "'w \<Rightarrow> int \<times> 'w"
  register_service :: "'w \<Rightarrow> int \<times> 'w"
  unregister_service :: "'w \<Rightarrow> int \<times> 'w"
  stop_service :: "'w \<Rightarrow> int \<times> 'w"
  repair_service :: "'w \<Rightarrow> int \<times> 'w"
  query_status :: "'w \<Rightarrow> int \<times> 'w"
  cleanup :: "'w \<Rightarrow> bool \<times> 'w"
  run_foreground :: "'w \<Rightarrow> bool \<times> 'w"

definition ok_or_failed :: "bool \<times> 'w \<Rightarrow> int \<times> 'w" where
  "ok_or_failed r = (if fst r then OK else FAILED, snd r)"

fun executar :: "'w backend \<Rightarrow> mode \<Rightarrow> 'w \<Rightarrow> int \<times> 'w" where
  "executar b Cleanup w = ok_or_failed (cleanup b w)"
| "executar b Foreground w = ok_or_failed (run_foreground b w)"
| "executar b Service w = run_service b w"
| "executar b Install w = register_service b w"
| "executar b Uninstall w = unregister_service b w"
| "executar b StopService w = stop_service b w"
| "executar b Repair w = repair_service b w"
| "executar b Status w = query_status b w"

definition run_daemon :: "'w backend \<Rightarrow> string list \<Rightarrow> 'w \<Rightarrow> int \<times> 'w" where
  "run_daemon b args w = executar b (mode_from_args args) w"

text \<open>The modes that change the machine, and a sequence of runs of the program, one after another.\<close>

definition changing :: "mode set" where "changing = {Install, Uninstall, StopService, Repair}"

fun run_modes :: "'w backend \<Rightarrow> mode list \<Rightarrow> 'w \<Rightarrow> 'w" where
  "run_modes b [] w = w"
| "run_modes b (m # ms) w = run_modes b ms (snd (executar b m w))"

section \<open>The contract of a platform\<close>

text \<open>
  Whether the process may change the system, and what of the world such changes show in.  An
  unprivileged process changes nothing, is told that it needs elevation unless there is nothing
  to change, and reading the status never changes anything.
\<close>

locale service_backend =
  fixes b :: "'w backend" and root :: "'w \<Rightarrow> bool" and machine :: "'w \<Rightarrow> 'm"
  assumes status_reads: "machine (snd (query_status b w)) = machine w"
    and status_privilege: "root (snd (query_status b w)) = root w"
    and register_user: "\<not> root w \<Longrightarrow> fst (register_service b w) = NEEDS_ELEVATION \<and>
      machine (snd (register_service b w)) = machine w \<and> \<not> root (snd (register_service b w))"
    and unregister_user: "\<not> root w \<Longrightarrow> fst (unregister_service b w) = NEEDS_ELEVATION \<and>
      machine (snd (unregister_service b w)) = machine w \<and> \<not> root (snd (unregister_service b w))"
    and stop_user: "\<not> root w \<Longrightarrow> fst (stop_service b w) = NEEDS_ELEVATION \<and>
      machine (snd (stop_service b w)) = machine w \<and> \<not> root (snd (stop_service b w))"
    and repair_user: "\<not> root w \<Longrightarrow> fst (repair_service b w) \<in> {NEEDS_ELEVATION, NOT_INSTALLED} \<and>
      machine (snd (repair_service b w)) = machine w \<and> \<not> root (snd (repair_service b w))"
begin

lemmas user_laws = register_user unregister_user stop_user repair_user

lemma user_run:
  assumes "\<not> root w" and "m \<in> insert Status changing"
  shows "machine (snd (executar b m w)) = machine w \<and> \<not> root (snd (executar b m w))"
proof -
  consider "m = Status" | "m = Install" | "m = Uninstall" | "m = StopService" | "m = Repair"
    using assms(2) by (auto simp: changing_def)
  then show ?thesis
    using user_laws [OF assms(1)] status_reads [of w] status_privilege [of w] assms(1)
    by cases simp_all
qed

lemma user_refused:
  assumes "\<not> root w" and "m \<in> changing"
  shows "fst (executar b m w) \<in> {NEEDS_ELEVATION, NOT_INSTALLED}"
proof -
  consider "m = Install" | "m = Uninstall" | "m = StopService" | "m = Repair"
    using assms(2) by (auto simp: changing_def)
  then show ?thesis using user_laws [OF assms(1)] by cases simp_all
qed

lemma user_runs:
  "\<not> root w \<Longrightarrow> set ms \<subseteq> insert Status changing \<Longrightarrow> machine (run_modes b ms w) = machine w"
proof (induction ms arbitrary: w)
  case (Cons m ms)
  then show ?case using user_run [of w m] by simp
qed simp

end

section \<open>Properties\<close>

lemma mode_from_iter_skip:
  "\<forall>a\<in>set before. mode_of_arg a = None \<Longrightarrow> mode_from_iter (before @ args) = mode_from_iter args"
  by (induction before) auto

text \<open>
  The first flag the daemon knows decides its mode, whatever comes before or after it, and
  without one it runs as a service.
\<close>

theorem first_flag_decides:
  "(\<forall>a\<in>set before. mode_of_arg a = None) \<Longrightarrow>
     mode_from_args (program # before @ after) =
     (case after of [] \<Rightarrow> Service
      | a # rest \<Rightarrow> (case mode_of_arg a of Some m \<Rightarrow> m | None \<Rightarrow> mode_from_args (program # rest)))"
  by (auto simp: mode_from_args_def mode_from_iter_skip split: list.splits option.splits)

theorem first_flag_decides_witness:
  "mode_from_args (''helper'' # [''-v''] @ [''--status'', ''--cleanup'']) =
     (case [''--status'', ''--cleanup''] of [] \<Rightarrow> Service
      | a # rest \<Rightarrow> (case mode_of_arg a of Some m \<Rightarrow> m | None \<Rightarrow> mode_from_args (''helper'' # rest)))"
  by (rule first_flag_decides) (simp add: mode_of_arg_def)

end
