(* ===== verification/MacService.thy ===== *)
theory MacService
  imports Mode PlistRequirement
begin

text \<open>
  The LaunchDaemon of the daemon, \<open>service/macos.rs\<close> under
  \<open>toolkit/dovetail_privileged_daemon/rust/src\<close>: a property list on the system's disk and the
  commands of \<open>launchctl\<close>.
\<close>

section \<open>The world\<close>

text \<open>
  The file system, the commands given to \<open>launchctl\<close> and what it answers, given the commands
  before: whether it succeeded and what it printed, or \<open>None\<close> when it did not start.
\<close>

record mac_world =
  mac_host :: host
  launchctl_calls :: "string list list"
  launchctl_answer :: "string list list \<Rightarrow> string list \<Rightarrow> (bool \<times> string) option"
  mac_exe :: "io_error + string"
  mac_foreground :: bool
  mac_cleanup :: bool

definition on_host :: "(host \<Rightarrow> 'a \<times> host) \<Rightarrow> mac_world \<Rightarrow> 'a \<times> mac_world" where
  "on_host act w = (let (r, h) = act (mac_host w) in (r, w\<lparr>mac_host := h\<rparr>))"

definition launchctl :: "string list \<Rightarrow> mac_world \<Rightarrow> (bool \<times> string) option \<times> mac_world" where
  "launchctl args w =
     (launchctl_answer w (launchctl_calls w) args, w\<lparr>launchctl_calls := launchctl_calls w @ [args]\<rparr>)"

section \<open>Helpers\<close>

definition DOMINIO :: string where "DOMINIO = ''system''"

definition plist_path :: "string \<Rightarrow> string" where
  "plist_path label = ''/Library/LaunchDaemons/'' @ label @ ''.plist''"

definition sou_root :: "mac_world \<Rightarrow> bool" where "sou_root w \<longleftrightarrow> euid (mac_host w) = 0"

definition permissoes_de_plist :: u32 where "permissoes_de_plist = 0x1A4"

definition executar_launchctl :: "string list \<Rightarrow> mac_world \<Rightarrow> bool \<times> mac_world" where
  "executar_launchctl args w =
     (case launchctl args w of
        (Some (good, _), w') \<Rightarrow> (good, w')
      | (None, w') \<Rightarrow> (False, w'))"

definition carregar :: "string \<Rightarrow> mac_world \<Rightarrow> bool \<times> mac_world" where
  "carregar label w =
     (let plist = plist_path label; (good, w') = executar_launchctl [''bootstrap'', DOMINIO, plist] w
      in if good then (True, w') else executar_launchctl [''load'', ''-w'', plist] w')"

definition service_target :: "string \<Rightarrow> string" where
  "service_target label = DOMINIO @ ''/'' @ label"

definition descarregar :: "string \<Rightarrow> mac_world \<Rightarrow> mac_world" where
  "descarregar label w =
     (let (good, w') = executar_launchctl [''bootout'', service_target label] w
      in if good then w' else snd (executar_launchctl [''unload'', ''-w'', plist_path label] w'))"

definition plist_para :: "string \<Rightarrow> string \<Rightarrow> string" where
  "plist_para label exe = concat (map (\<lambda>l. l @ [CHR 0x0A])
     [''<?xml version=\"1.0\" encoding=\"UTF-8\"?>'',
      ''<!DOCTYPE plist PUBLIC \"-//Apple//DTD PLIST 1.0//EN\" \"http://www.apple.com/DTDs/PropertyList-1.0.dtd\">'',
      ''<plist version=\"1.0\">'',
      ''<dict>'',
      ''    <key>Label</key>'',
      ''    <string>'' @ label @ ''</string>'',
      ''    <key>MachServices</key>'',
      ''    <dict>'',
      ''        <key>'' @ label @ ''</key>'',
      ''        <true/>'',
      ''    </dict>'',
      ''    <key>ProgramArguments</key>'',
      ''    <array>'',
      ''        <string>'' @ exe @ ''</string>'',
      ''        <string>--service</string>'',
      ''    </array>'',
      ''    <key>RunAtLoad</key>'',
      ''    <true/>'',
      ''    <key>KeepAlive</key>'',
      ''    <true/>'',
      ''    <key>ProcessType</key>'',
      ''    <string>Interactive</string>'',
      ''    <key>StandardOutPath</key>'',
      ''    <string>/var/log/'' @ label @ ''.log</string>'',
      ''    <key>StandardErrorPath</key>'',
      ''    <string>/var/log/'' @ label @ ''.log</string>'',
      ''</dict>'',
      ''</plist>''])"

definition interpretar_print :: "string \<Rightarrow> int" where
  "interpretar_print texto =
     (if contains ''state = running'' texto \<or> contains ''pid = '' texto then OK else STOPPED)"

section \<open>The operations\<close>

definition mac_register :: "string \<Rightarrow> mac_world \<Rightarrow> int \<times> mac_world" where
  "mac_register label w =
     (if \<not> sou_root w then (NEEDS_ELEVATION, w)
      else case mac_exe w of
        Inl e \<Rightarrow> (REGISTER_FAILED, w)
      | Inr exe \<Rightarrow>
          (let plist = plist_path label
           in case on_host (write_file plist (plist_para label exe)) w of
             (Inl e, w) \<Rightarrow> (REGISTER_FAILED, w)
           | (Inr _, w) \<Rightarrow>
               (case on_host (set_permissions plist permissoes_de_plist) w of
                  (Inl e, w) \<Rightarrow> (REGISTER_FAILED, w)
                | (Inr _, w) \<Rightarrow>
                    (let w = descarregar label w; (loaded, w) = carregar label w
                     in (if loaded then OK else REGISTER_FAILED, w)))))"

definition mac_unregister :: "string \<Rightarrow> mac_world \<Rightarrow> int \<times> mac_world" where
  "mac_unregister label w =
     (if \<not> sou_root w then (NEEDS_ELEVATION, w)
      else let w = descarregar label w
           in case on_host (remove_file (plist_path label)) w of
                (Inr _, w) \<Rightarrow> (OK, w)
              | (Inl e, w) \<Rightarrow> (if e = NotFound then OK else FAILED, w))"

definition mac_stop :: "string \<Rightarrow> mac_world \<Rightarrow> int \<times> mac_world" where
  "mac_stop label w = (if \<not> sou_root w then (NEEDS_ELEVATION, w) else (OK, descarregar label w))"

definition mac_repair :: "string \<Rightarrow> mac_world \<Rightarrow> int \<times> mac_world" where
  "mac_repair label w =
     (let (exists, w) = on_host (path_exists (plist_path label)) w
      in if \<not> exists then (NOT_INSTALLED, w)
         else if \<not> sou_root w then (NEEDS_ELEVATION, w)
         else let w = descarregar label w; (loaded, w) = carregar label w
              in (if loaded then OK else START_FAILED, w))"

definition mac_query :: "string \<Rightarrow> mac_world \<Rightarrow> int \<times> mac_world" where
  "mac_query label w =
     (let (exists, w) = on_host (path_exists (plist_path label)) w
      in if \<not> exists then (NOT_INSTALLED, w)
         else case launchctl [''print'', service_target label] w of
                (Some (True, texto), w) \<Rightarrow> (interpretar_print texto, w)
              | (Some (False, _), w) \<Rightarrow> (STOPPED, w)
              | (None, w) \<Rightarrow> (UNKNOWN, w))"

definition mac_run_service :: "mac_world \<Rightarrow> int \<times> mac_world" where
  "mac_run_service w = (if mac_foreground w then OK else FAILED, w)"

definition mac_backend :: "string \<Rightarrow> mac_world backend" where
  "mac_backend label =
     \<lparr>run_service = mac_run_service, register_service = mac_register label,
      unregister_service = mac_unregister label, stop_service = mac_stop label,
      repair_service = mac_repair label, query_status = mac_query label,
      cleanup = (\<lambda>w. (mac_cleanup w, w)), run_foreground = (\<lambda>w. (mac_foreground w, w))\<rparr>"

section \<open>Lemmas\<close>

text \<open>What changes of the world show in: the files, and the commands that are not queries.\<close>

definition mac_machine :: "mac_world \<Rightarrow> files \<times> string list list" where
  "mac_machine w = (files (mac_host w), filter (\<lambda>c. c \<noteq> [] \<and> hd c \<noteq> ''print'') (launchctl_calls w))"

lemma path_exists_files:
  "path_exists p h = (b, h') \<Longrightarrow> files h' = files h \<and> euid h' = euid h \<and> (b \<longrightarrow> files h p \<noteq> None)"
  by (cases "files h p") (auto simp: path_exists_def fs_op_def Let_def split: option.splits sum.splits prod.splits)

lemma on_host_exists:
  "on_host (path_exists p) w = (b, w') \<Longrightarrow>
     mac_machine w' = mac_machine w \<and> sou_root w' = sou_root w \<and> (b \<longrightarrow> files (mac_host w) p \<noteq> None)"
  using path_exists_files [of p "mac_host w"]
  by (auto simp: on_host_def mac_machine_def sou_root_def split: prod.splits)

lemma mac_query_reads:
  "mac_query label w = (c, w') \<Longrightarrow> mac_machine w' = mac_machine w \<and> sou_root w' = sou_root w"
  by (auto simp: mac_query_def launchctl_def split: prod.splits if_splits option.splits bool.splits
      dest!: on_host_exists)
    (auto simp: mac_machine_def sou_root_def)

lemma executar_files:
  "executar_launchctl args w = (good, w') \<Longrightarrow> mac_host w' = mac_host w"
  by (auto simp: executar_launchctl_def launchctl_def split: option.splits prod.splits)

lemma descarregar_host [simp]: "mac_host (descarregar label w) = mac_host w"
  by (auto simp: descarregar_def split: prod.splits dest!: executar_files)
    (metis executar_files prod.collapse)+

lemma carregar_host: "carregar label w = (good, w') \<Longrightarrow> mac_host w' = mac_host w"
  by (auto simp: carregar_def Let_def split: prod.splits if_splits dest!: executar_files)

interpretation mac: service_backend "mac_backend label" sou_root mac_machine for label
proof
  fix w :: mac_world
  obtain c w' where q: "mac_query label w = (c, w')" by fastforce
  show "mac_machine (snd (query_status (mac_backend label) w)) = mac_machine w"
    "sou_root (snd (query_status (mac_backend label) w)) = sou_root w"
    using mac_query_reads [OF q] q by (simp_all add: mac_backend_def)
next
  fix w :: mac_world
  assume user: "\<not> sou_root w"
  obtain b w' where e: "on_host (path_exists (plist_path label)) w = (b, w')" by fastforce
  show "fst (repair_service (mac_backend label) w) \<in> {NEEDS_ELEVATION, NOT_INSTALLED} \<and>
      mac_machine (snd (repair_service (mac_backend label) w)) = mac_machine w \<and>
      \<not> sou_root (snd (repair_service (mac_backend label) w))"
    using on_host_exists [OF e] user by (simp add: mac_backend_def mac_repair_def e)
qed (simp_all add: mac_backend_def mac_register_def mac_unregister_def mac_stop_def)

section \<open>Properties\<close>

text \<open>
  Without root the program changes nothing on macOS either: no file, and no \<open>launchctl\<close>
  command but the query, over any sequence of runs.
\<close>

theorem mac_user_changes_nothing:
  assumes "\<not> sou_root w" and "set ms \<subseteq> insert Status changing"
  shows "mac_machine (run_modes (mac_backend label) ms w) = mac_machine w \<and>
    (\<forall>m\<in>changing. fst (executar (mac_backend label) m w) \<in> {NEEDS_ELEVATION, NOT_INSTALLED})"
  using mac.user_runs [OF assms] mac.user_refused [OF assms(1)] by blast

definition example_mac :: "u32 \<Rightarrow> mac_world" where
  "example_mac uid = \<lparr>mac_host = example_host (\<lambda>_. None) uid, launchctl_calls = [],
     launchctl_answer = (\<lambda>_ _. Some (True, [])), mac_exe = Ok ''/h'', mac_foreground = True, mac_cleanup = True\<rparr>"

theorem mac_user_changes_nothing_witness:
  "let w = example_mac 501; ms = [Install, Status, Repair]
   in mac_machine (run_modes (mac_backend ''l'') ms w) = mac_machine w \<and>
    (\<forall>m\<in>changing. fst (executar (mac_backend ''l'') m w) \<in> {NEEDS_ELEVATION, NOT_INSTALLED})"
  unfolding Let_def
  by (rule mac_user_changes_nothing)
    (simp_all add: sou_root_def example_mac_def example_host_def changing_def)

lemma mac_register_ok:
  assumes "mac_register label w = (OK, w')"
  shows "\<exists>exe n. euid (mac_host w) = 0 \<and> mac_exe w = Ok exe \<and>
    files (mac_host w') (plist_path label) = Some n \<and> node_mode n = permissoes_de_plist \<and>
    content n = plist_para label exe \<and>
    (files (mac_host w) (plist_path label) = None \<longrightarrow>
       kind n = RegularFile \<and> node_uid n = euid (mac_host w) \<and> node_gid n = egid (mac_host w))"
proof -
  have root: "sou_root w"
    by (rule ccontr) (use assms in \<open>simp add: mac_register_def exit_codes\<close>)
  obtain exe where exe: "mac_exe w = Ok exe"
    using assms root by (auto simp: mac_register_def exit_codes split: sum.splits)
  define p where "p = plist_path label"
  obtain r1 h1 where wr: "write_file p (plist_para label exe) (mac_host w) = (r1, h1)" by fastforce
  have r1: "r1 = Ok ()"
    using assms root exe wr
    by (cases r1) (auto simp: mac_register_def on_host_def Let_def p_def exit_codes)
  obtain r2 h2 where sp: "set_permissions p permissoes_de_plist h1 = (r2, h2)" by fastforce
  have r2: "r2 = Ok ()"
    using assms root exe wr r1 sp
    by (cases r2) (auto simp: mac_register_def on_host_def Let_def p_def exit_codes)
  have host: "mac_host w' = h2"
    using assms root exe wr r1 sp r2
    by (auto simp: mac_register_def on_host_def Let_def p_def split: prod.splits dest!: carregar_host)
  obtain n1 where n1: "files h1 p = Some n1" "content n1 = plist_para label exe"
    "files (mac_host w) p = None \<longrightarrow>
      kind n1 = RegularFile \<and> node_uid n1 = euid (mac_host w) \<and> node_gid n1 = egid (mac_host w)"
    using wr r1
    by (auto simp: write_file_def fs_op_ok new_node_def split: option.splits if_splits)
  then have "files h2 p = Some (n1\<lparr>node_mode := permissoes_de_plist\<rparr>)"
    using sp r2 by (auto simp: set_permissions_def fs_op_ok)
  then show ?thesis using n1 host root exe by (auto simp: p_def sou_root_def)
qed

lemma mac_unregister_ok:
  assumes "mac_unregister label w = (OK, w')" and "fault (mac_host w) (moment (mac_host w)) = None"
  shows "files (mac_host w') (plist_path label) = None"
proof -
  have root: "sou_root w"
    by (rule ccontr) (use assms in \<open>simp add: mac_unregister_def exit_codes\<close>)
  obtain r h where rm: "remove_file (plist_path label) (mac_host w) = (r, h)" by fastforce
  have "mac_host w' = h"
    using assms(1) root rm by (auto simp: mac_unregister_def on_host_def Let_def split: sum.splits)
  moreover have "files h (plist_path label) = None"
  proof (cases r)
    case (Inl e)
    then have "e = NotFound"
      using assms(1) root rm
      by (auto simp: mac_unregister_def on_host_def Let_def exit_codes split: if_splits)
    then show ?thesis
      using rm Inl assms(2)
      by (auto simp: remove_file_def fs_op_err split: option.splits if_splits)
  next
    case (Inr u)
    then show ?thesis
      using rm by (auto simp: remove_file_def fs_op_ok split: option.splits if_splits)
  qed
  ultimately show ?thesis by simp
qed

text \<open>
  What root installs, the daemon trusts.  When the installation reports success and no file
  was there before, the property list names the program as it is, stands in the system's
  directory as a regular file of root and wheel, and passes the daemon's own test of the files it
  takes its requirement from, whatever the umask; and when a removal reports success, it is gone.
\<close>

theorem mac_install_is_trusted:
  "(mac_register label w = (OK, w') \<longrightarrow> files (mac_host w) (plist_path label) = None \<longrightarrow>
      egid (mac_host w) = 0 \<longrightarrow>
      (\<exists>exe n. mac_exe w = Ok exe \<and> files (mac_host w') (plist_path label) = Some n \<and>
         content n = plist_para label exe \<and> kind n = RegularFile \<and>
         closed_to_all_but_root (node_uid n) (node_gid n) (node_mode n))) \<and>
   (mac_unregister label w = (OK, w') \<longrightarrow> fault (mac_host w) (moment (mac_host w)) = None \<longrightarrow>
      files (mac_host w') (plist_path label) = None)"
proof (intro conjI impI)
  assume "mac_register label w = (OK, w')" "files (mac_host w) (plist_path label) = None"
    "egid (mac_host w) = 0"
  then show "\<exists>exe n. mac_exe w = Ok exe \<and> files (mac_host w') (plist_path label) = Some n \<and>
         content n = plist_para label exe \<and> kind n = RegularFile \<and>
         closed_to_all_but_root (node_uid n) (node_gid n) (node_mode n)"
    using mac_register_ok [of label w w']
    by (auto simp: closed_to_all_but_root_def permissoes_de_plist_def)
qed (rule mac_unregister_ok)

lemma example_mac_register:
  "fst (mac_register ''l'' (example_mac 0)) = OK"
proof -
  have load: "b" if "carregar ''l'' v = (b, v')" "launchctl_answer v = (\<lambda>_ _. Some (True, []))" for v b v'
    using that by (simp add: carregar_def executar_launchctl_def launchctl_def Let_def)
  have same: "launchctl_answer (descarregar ''l'' v) = launchctl_answer v" for v
    by (auto simp: descarregar_def executar_launchctl_def launchctl_def split: prod.splits option.splits)
  show ?thesis
    by (auto simp: mac_register_def sou_root_def example_mac_def example_host_def on_host_def
        write_file_def set_permissions_def fs_op_def Let_def same split: prod.splits dest!: load)
qed

theorem mac_install_is_trusted_witness:
  "\<exists>exe n. mac_exe (example_mac 0) = Ok exe \<and>
     files (mac_host (snd (mac_register ''l'' (example_mac 0)))) (plist_path ''l'') = Some n \<and>
     content n = plist_para ''l'' exe \<and> kind n = RegularFile \<and>
     closed_to_all_but_root (node_uid n) (node_gid n) (node_mode n)"
  by (rule mac_install_is_trusted [THEN conjunct1, rule_format])
    (use example_mac_register in \<open>simp_all add: prod_eq_iff example_mac_def example_host_def\<close>)

end
