(* ===== verification/MacDaemon.thy ===== *)
theory MacDaemon
  imports PlistRequirement MacService XpcChannel Server
begin

text \<open>
  The daemon on macOS: \<open>incoming\<close> and \<open>run\<close> of \<open>server.rs\<close> as they are compiled there.  The
  requirement comes from the installed plist or the compiled policy, the connections from the XPC
  listener made with it, and the accept loop serves them.
\<close>

section \<open>Definitions\<close>

definition xpc_peer :: "(nat \<Rightarrow> int) \<Rightarrow> XpcConnection \<Rightarrow> PeerCheck" where
  "xpc_peer pid conn =
     \<lparr>check_method = ''xpc+codesign'', check_subject = ''pid='' @ show_int (pid (raw conn))\<rparr>"

text \<open>
  What happens while the loop runs: an event of the listener, a look at the connections that wait,
  or the shutdown.  When the loop ends the listener is dropped.
\<close>

datatype mac_turn = Happens listener_event | Poll | Stop

fun mac_turns :: "(nat \<Rightarrow> int) \<Rightarrow> mac_turn list \<Rightarrow> xpc_world \<Rightarrow> XpcConnection turn list \<times> xpc_world" where
  "mac_turns pid [] w = ([], w)"
| "mac_turns pid (Happens e # ts) w = mac_turns pid ts (on_event e w)"
| "mac_turns pid (Poll # ts) w =
     (case accept w of
        (Pending, w1) \<Rightarrow> mac_turns pid ts w1
      | (Ready None, w1) \<Rightarrow> ([StreamEnd], drop_listener w1)
      | (Ready (Some conn), w1) \<Rightarrow>
          (let (turns, w2) = mac_turns pid ts w1 in (Accepted conn (xpc_peer pid conn) # turns, w2)))"
| "mac_turns pid (Stop # ts) w = ([Shutdown], drop_listener w)"

datatype mac_run_error =
    MacPrepareFailed
  | NoRequirement requirement_error
  | ListenFailed string

definition run_macos :: "bool \<Rightarrow> requirement_api \<Rightarrow> plutil \<Rightarrow> string \<Rightarrow> string list \<Rightarrow> PeerPolicy option \<Rightarrow>
    (nat \<Rightarrow> int) \<Rightarrow> mac_turn list \<Rightarrow> host \<Rightarrow> mac_run_error + XpcConnection action list \<times> xpc_world" where
  "run_macos prepared api plutil label args policy pid script h =
     and_then (ensure prepared MacPrepareFailed) (\<lambda>_.
     and_then (map_err NoRequirement (served_requirement api plutil (plist_path label) args policy h)) (\<lambda>r.
     and_then (map_err ListenFailed (mach_service label r)) (\<lambda>w.
       let (turns, w') = mac_turns pid script w in Ok (fst (accept_loop turns), w'))))"

section \<open>Lemmas\<close>

text \<open>What the loop sees of the listener is a run of a host that accepts and closes nothing.\<close>

lemma mac_turns_host:
  "mac_turns pid ts w = (turns, w') \<Longrightarrow>
     \<exists>ops. fold host_step ops (w, held) = (w', held @ map fst (concat (map admitted_conn turns))) \<and>
       (\<forall>e. Occurs e \<in> set ops \<longrightarrow> Happens e \<in> set ts)"
proof (induction pid ts w arbitrary: turns held rule: mac_turns.induct)
  case (1 pid w)
  then show ?case by (intro exI [of _ "[]"]) simp
next
  case (2 pid e ts w)
  then have "mac_turns pid ts (on_event e w) = (turns, w')" by simp
  from "2.IH" [OF this, of held] obtain ops where
    "fold host_step ops (on_event e w, held) = (w', held @ map fst (concat (map admitted_conn turns)))"
    "\<forall>e. Occurs e \<in> set ops \<longrightarrow> Happens e \<in> set ts" by (elim exE conjE)
  then show ?case by (intro exI [of _ "Occurs e # ops"]) auto
next
  case (3 pid ts w)
  obtain r w1 where a: "accept w = (r, w1)" by fastforce
  show ?case
  proof (cases r)
    case Pending
    with 3(3) a have "mac_turns pid ts w1 = (turns, w')" by simp
    from "3.IH"(1) [OF a [symmetric] Pending this, of held] obtain ops where
      "fold host_step ops (w1, held) = (w', held @ map fst (concat (map admitted_conn turns)))"
      "\<forall>e. Occurs e \<in> set ops \<longrightarrow> Happens e \<in> set ts" by (elim exE conjE)
    then show ?thesis using a Pending by (intro exI [of _ "Accept # ops"]) auto
  next
    case (Ready next_conn)
    show ?thesis
    proof (cases next_conn)
      case None
      with Ready 3(3) a show ?thesis by (intro exI [of _ "[Accept, DropListener]"]) auto
    next
      case (Some conn)
      obtain turns1 where t: "mac_turns pid ts w1 = (turns1, w')"
          "turns = Accepted conn (xpc_peer pid conn) # turns1"
        using Ready Some 3(3) a by (auto split: prod.splits)
      from "3.IH"(2) [OF a [symmetric] Ready Some t(1), of "held @ [conn]"] obtain ops where
        "fold host_step ops (w1, held @ [conn]) =
           (w', (held @ [conn]) @ map fst (concat (map admitted_conn turns1)))"
        "\<forall>e. Occurs e \<in> set ops \<longrightarrow> Happens e \<in> set ts" by (elim exE conjE)
      then show ?thesis using a Ready Some t(2) by (intro exI [of _ "Accept # ops"]) auto
    qed
  qed
next
  case (4 pid ts w)
  then show ?case by (intro exI [of _ "[DropListener]"]) auto
qed

lemma mac_turns_admit:
  "mac_turns pid ts w = (turns, w') \<Longrightarrow>
     concat (map admitted_conn (before_end turns)) = concat (map admitted_conn turns) \<and>
     (\<forall>conn peer. (conn, peer) \<in> set (concat (map admitted_conn turns)) \<longrightarrow> peer = xpc_peer pid conn)"
proof (induction pid ts w arbitrary: turns rule: mac_turns.induct)
  case (3 pid ts w)
  obtain r w1 where a: "accept w = (r, w1)" by fastforce
  show ?case
  proof (cases r)
    case Pending
    with 3(3) a show ?thesis using "3.IH"(1) [OF a [symmetric] Pending, of turns] by simp
  next
    case (Ready next_conn)
    show ?thesis
    proof (cases next_conn)
      case None
      with Ready 3(3) a show ?thesis by (auto simp: before_end_def)
    next
      case (Some conn)
      obtain turns1 where t: "mac_turns pid ts w1 = (turns1, w')"
          "turns = Accepted conn (xpc_peer pid conn) # turns1"
        using Ready Some 3(3) a by (auto split: prod.splits)
      show ?thesis
        using "3.IH"(2) [OF a [symmetric] Ready Some t(1)] t(2) by (auto simp: before_end_def)
    qed
  qed
qed (auto simp: before_end_def)

text \<open>The daemon that was installed, when it comes to choose its requirement.\<close>

lemma installed_declares_nothing:
  assumes reg: "mac_register label w = (OK, w')" and fresh: "files (mac_host w) (plist_path label) = None"
    and wheel: "egid (mac_host w) = 0"
    and same: "files h (plist_path label) = files (mac_host w') (plist_path label)"
    and reads: "\<And>exe n. mac_exe w = Ok exe \<Longrightarrow> files h (plist_path label) = Some n \<Longrightarrow>
      content n = plist_para label exe \<Longrightarrow>
      plutil (plist_path label) = Some [exe, ''--service''] \<and> exe \<noteq> REQUIREMENT_FLAG"
    and looks: "fault h (moment h) = None"
  shows "fst (system_plist_is_trusted (plist_path label) h)"
    and "fst (requirement_declared_by plutil (plist_path label) h) = Ok None"
proof -
  obtain exe n where n: "mac_exe w = Ok exe" "files h (plist_path label) = Some n" "content n = plist_para label exe"
      "node_mode n = permissoes_de_plist" "kind n = RegularFile" "node_uid n = 0" "node_gid n = 0"
    using mac_register_ok [OF reg] fresh wheel same by auto
  have "plutil (plist_path label) = Some [exe, ''--service'']" "exe \<noteq> REQUIREMENT_FLAG"
    using reads n(1-3) by blast+
  moreover have "requirement_in [exe, ''--service''] = Ok None"
    using calculation(2) by (simp add: REQUIREMENT_FLAG_def)
  moreover show "fst (system_plist_is_trusted (plist_path label) h)"
    unfolding trusted_node using n looks by (simp add: permissoes_de_plist_def bit_simps)
  ultimately show "fst (requirement_declared_by plutil (plist_path label) h) = Ok None"
    by (simp add: requirement_declared_by_def requirement_in_plist_def split: prod.splits)
qed

lemma macos_requires:
  assumes "run_macos prepared api plutil label args policy pid script h = Ok (actions, w)"
    and "(conn, peer) \<in> set (concat (map served_conn actions))"
    and "served_requirement api plutil (plist_path label) args policy h = Ok r"
  shows "before (SetRequirement (raw conn) r) (Resume (raw conn)) (calls w)"
proof -
  obtain w0 turns where w0: "mach_service label r = Ok w0" and t: "mac_turns pid script w0 = (turns, w)"
    and a: "actions = fst (accept_loop turns)"
    using assms(1,3) by (auto simp: run_macos_def case_prod_beta prod_eq_iff)
  have mem: "conn \<in> set (map fst (concat (map admitted_conn turns)))"
    using assms(2) loop_served [of turns] mac_turns_admit [OF t] by (force simp: a)
  obtain ops where ops: "fold host_step ops (w0, []) = (w, [] @ map fst (concat (map admitted_conn turns)))"
    using mac_turns_host [OF t, of "[]"] by (elim exE conjE)
  have "required r ops (w, map fst (concat (map admitted_conn turns)))"
    using run_host_required [OF mach_service_required [OF w0], of ops] ops by (simp add: run_host_def)
  then show ?thesis using mem unfolding required_def by auto
qed

section \<open>Properties\<close>

text \<open>
  The whole path on macOS.  Every connection the daemon serves comes from a peer that the
  system took the daemon's requirement for, before it could say anything; that requirement is one
  no code satisfies without the evidence of the product, and does not depend on the command line;
  the connection is served under the process it belongs to.
\<close>

theorem macos_serves_product:
  assumes "run_macos prepared api plutil label args policy pid script h = Ok (actions, w)"
    and "(conn, peer) \<in> set (concat (map served_conn actions))"
  shows "\<exists>r b c. Happens (NewPeer (raw conn) True) \<in> set script \<and>
    before (SetRequirement (raw conn) r) (Resume (raw conn)) (calls w) \<and>
    (\<forall>args'. served_requirement api plutil (plist_path label) args' policy h = Ok r) \<and>
    fst (compile_requirement api r []) = Ok b \<and> parse_requirement b = Ok c \<and>
    (\<forall>holds. satisfied holds c \<longrightarrow> product_evidence {l \<in> leaves c. holds l}) \<and>
    peer = xpc_peer pid conn"
proof -
  obtain r w0 turns where r: "served_requirement api plutil (plist_path label) args policy h = Ok r"
    and w0: "mach_service label r = Ok w0" and t: "mac_turns pid script w0 = (turns, w)"
    and a: "actions = fst (accept_loop turns)"
    using assms(1) by (auto simp: run_macos_def case_prod_beta prod_eq_iff)
  have "(conn, peer) \<in> set (concat (map admitted_conn turns))"
    using assms(2) loop_served [of turns] mac_turns_admit [OF t] by (simp add: a)
  then have peer: "peer = xpc_peer pid conn"
    and mem: "conn \<in> set (map fst (concat (map admitted_conn turns)))"
    using mac_turns_admit [OF t] by (blast, force)
  obtain ops where ops: "fold host_step ops (w0, []) = (w, [] @ map fst (concat (map admitted_conn turns)))"
      "\<forall>e. Occurs e \<in> set ops \<longrightarrow> Happens e \<in> set script"
    using mac_turns_host [OF t, of "[]"] by (elim exE conjE)
  from run_host_required [OF mach_service_required [OF w0], of ops] have kept: "required r ops (w, map fst (concat (map admitted_conn turns)))"
    using ops(1) by (simp add: run_host_def)
  have strong: "ensure_strong api r = Ok ()" and "\<forall>args'. served_requirement api plutil (plist_path label) args' policy h = Ok r"
    using r by (auto simp: served_requirement_def xpc_requirement_ok)
  moreover obtain b c where "fst (compile_requirement api r []) = Ok b" "parse_requirement b = Ok c" "is_strong c"
    using strong unfolding ensure_strong_ok by (elim exE conjE)
  ultimately show ?thesis
    using kept mem ops(2) peer is_strong_sound unfolding required_def by (intro exI [of _ r] exI [of _ b] exI [of _ c]) auto
qed

theorem macos_serves_product_witness:
  "\<exists>actions w. run_macos True (example_requirement_api pinned_blob)
      (\<lambda>q. Some [''/helper'', REQUIREMENT_FLAG, ''pin'']) ''l'' [''/helper''] None (\<lambda>_. 42)
      [Happens (NewPeer 7 False), Happens (NewPeer 8 True), Poll, Stop]
      (example_host [plist_path ''l'' \<mapsto> root_plist] 0) = Ok (actions, w) \<and>
    concat (map served_conn actions) = [(adopt 8, xpc_peer (\<lambda>_. 42) (adopt 8))] \<and>
    before (SetRequirement 8 ''pin'') (Resume 8) (calls w)"
proof -
  obtain w0 where w0: "mach_service ''l'' ''pin'' = Ok w0"
      "w0 = \<lparr>peer_requirement = Some ''pin'', peers = sink, contexts = Map.empty, calls = []\<rparr>"
    by (simp add: mach_service_def listen_def dovetail_xpc_listen_def c_text_def)
  let ?script = "[Happens (NewPeer 7 False), Happens (NewPeer 8 True), Poll, Stop]"
  let ?turns = "[Accepted (adopt 8) (xpc_peer (\<lambda>_. 42) (adopt 8)), Shutdown]"
  obtain w where t: "mac_turns (\<lambda>_. 42) ?script w0 = (?turns, w)"
    by (simp add: w0(2) hand_over_def accept_def poll_recv_def sink_def Let_def)
  have served: "concat (map served_conn (fst (accept_loop ?turns))) = [(adopt 8, xpc_peer (\<lambda>_. 42) (adopt 8))]"
    by (simp add: loop_served before_end_def)
  have run: "run_macos True (example_requirement_api pinned_blob)
      (\<lambda>q. Some [''/helper'', REQUIREMENT_FLAG, ''pin'']) ''l'' [''/helper''] None (\<lambda>_. 42) ?script
      (example_host [plist_path ''l'' \<mapsto> root_plist] 0) = Ok (fst (accept_loop ?turns), w)"
    using served_example [of "plist_path ''l''"] w0(1) t by (simp add: run_macos_def ensure_def)
  have "(adopt 8, xpc_peer (\<lambda>_. 42) (adopt 8)) \<in> set (concat (map served_conn (fst (accept_loop ?turns))))"
    unfolding served by simp
  from macos_serves_product [OF run this] obtain r where
    "before (SetRequirement 8 r) (Resume 8) (calls w)"
    "served_requirement (example_requirement_api pinned_blob) (\<lambda>q. Some [''/helper'', REQUIREMENT_FLAG, ''pin''])
       (plist_path ''l'') [''/helper''] None (example_host [plist_path ''l'' \<mapsto> root_plist] 0) = Ok r"
    by (elim exE conjE) (simp add: adopt_def)
  then have "before (SetRequirement 8 ''pin'') (Resume 8) (calls w)" using served_example [of "plist_path ''l''"] by simp
  then show ?thesis using run served by blast
qed

text \<open>
  C8: installing and serving fit together.  Once root has installed the daemon, and as long as
  the property list is the one it wrote, the daemon trusts that list, holds every peer to the
  requirement compiled into it and to nothing else, whatever the command line says; and one
  without a requirement compiled in does not start.
\<close>

theorem mac_installed_serves_policy:
  assumes "mac_register label w = (OK, w')" and "files (mac_host w) (plist_path label) = None"
    and "egid (mac_host w) = 0"
    and "files h (plist_path label) = files (mac_host w') (plist_path label)"
    and "\<And>exe n. mac_exe w = Ok exe \<Longrightarrow> files h (plist_path label) = Some n \<Longrightarrow>
      content n = plist_para label exe \<Longrightarrow>
      plutil (plist_path label) = Some [exe, ''--service''] \<and> exe \<noteq> REQUIREMENT_FLAG"
    and "fault h (moment h) = None"
  shows "fst (system_plist_is_trusted (plist_path label) h) \<and>
    (\<forall>actions v. run_macos prepared api plutil label args policy pid script h = Ok (actions, v) \<longrightarrow>
      (\<exists>p r. policy = Some p \<and> code_requirement p = Some r \<and> ensure_strong api r = Ok () \<and>
         (\<forall>(conn, peer)\<in>set (concat (map served_conn actions)).
            before (SetRequirement (raw conn) r) (Resume (raw conn)) (calls v)))) \<and>
    (prepared \<and> Option.bind policy code_requirement = None \<longrightarrow>
      run_macos prepared api plutil label args policy pid script h = Err (NoRequirement NoRequirementDeclared))"
proof -
  have chosen: "served_requirement api plutil (plist_path label) args policy h =
      snd (xpc_requirement api args None policy)"
  proof -
    have "fst (requirement_declared_by plutil (plist_path label) h) = Ok None"
      by (rule installed_declares_nothing(2) [OF assms(1-4) _ assms(6)]) (rule assms(5))
    then show ?thesis by (simp add: served_requirement_def)
  qed
  show ?thesis
  proof (intro conjI allI impI)
    show "fst (system_plist_is_trusted (plist_path label) h)"
      by (rule installed_declares_nothing(1) [OF assms(1-4) _ assms(6)]) (rule assms(5))
  next
    fix actions v assume run: "run_macos prepared api plutil label args policy pid script h = Ok (actions, v)"
    then obtain r where r: "served_requirement api plutil (plist_path label) args policy h = Ok r"
      by (auto simp: run_macos_def)
    then obtain p where "policy = Some p" "code_requirement p = Some r" "ensure_strong api r = Ok ()"
      unfolding chosen xpc_requirement_ok by (auto simp: chosen_requirement_def bind_eq_Some_conv)
    then show "\<exists>p r. policy = Some p \<and> code_requirement p = Some r \<and> ensure_strong api r = Ok () \<and>
         (\<forall>(conn, peer)\<in>set (concat (map served_conn actions)).
            before (SetRequirement (raw conn) r) (Resume (raw conn)) (calls v))"
      using macos_requires [OF run _ r] by blast
  qed (simp add: run_macos_def chosen xpc_requirement_def chosen_requirement_def ensure_def)
qed

theorem mac_installed_serves_policy_witness:
  "\<exists>w'. mac_register ''l'' (example_mac 0) = (OK, w') \<and>
     run_macos True (example_requirement_api pinned_blob) (\<lambda>q. Some [''/h'', ''--service'']) ''l'' [''/helper''] None (\<lambda>_. 42) []
       ((mac_host w')\<lparr>fault := \<lambda>_. None\<rparr>) = Err (NoRequirement NoRequirementDeclared)"
proof -
  obtain w' where reg: "mac_register ''l'' (example_mac 0) = (OK, w')"
    using example_mac_register by (metis prod.collapse)
  let ?h = "(mac_host w')\<lparr>fault := \<lambda>_. None\<rparr>" and ?plutil = "\<lambda>q :: string. Some [''/h'', ''--service'']"
  have "files (mac_host (example_mac 0)) (plist_path ''l'') = None" "egid (mac_host (example_mac 0)) = 0"
    and exe: "mac_exe (example_mac 0) = Ok ''/h''"
    by (simp_all add: example_mac_def example_host_def)
  moreover have "?plutil (plist_path ''l'') = Some [exe, ''--service''] \<and> exe \<noteq> REQUIREMENT_FLAG"
    if "mac_exe (example_mac 0) = Ok exe" for exe
    using that unfolding exe by (auto simp: REQUIREMENT_FLAG_def)
  moreover have "files ?h (plist_path ''l'') = files (mac_host w') (plist_path ''l'')" "fault ?h (moment ?h) = None"
    by simp_all
  moreover have "Option.bind (None :: PeerPolicy option) code_requirement = None" by simp
  ultimately show ?thesis
    using mac_installed_serves_policy [OF reg, of ?h ?plutil True "example_requirement_api pinned_blob" "[''/helper'']"
        None "\<lambda>_. 42" "[]"] reg
    by blast
qed

end
