(* ===== verification/WindowsTransport.thy ===== *)
theory WindowsTransport
  imports Transport
begin

text \<open>
  The named pipe transport, \<open>transport/windows.rs\<close>, and the Windows half of \<open>peer_auth.rs\<close>,
  under \<open>toolkit/dovetail_privileged_channel/rust/src\<close>.  The listener keeps at most one pipe
  instance ahead of its clients; an accept makes one when there is none, waits for a client and
  hands the instance out.  The wait is a point where the caller may drop the future.
\<close>

section \<open>The peer\<close>

text \<open>
  What the Win32 calls answer for a connection: the client's process id or an error number, the
  image name of a process as UTF-16 code units or the call that failed, the helper's own path,
  and the canonical form of a path.
\<close>

record 's win_system =
  client_process_id :: "'s \<Rightarrow> nat + u32"
  image_name :: "u32 \<Rightarrow> (string \<times> nat) + u16 list"
  current_exe :: "io_error + string"
  canonicalize :: "string \<Rightarrow> string option"

definition pid_do_cliente :: "'s win_system \<Rightarrow> 's \<Rightarrow> peer_error + u32" where
  "pid_do_cliente sys conn = map_err (PeerCall ''GetNamedPipeClientProcessId'') (client_process_id sys conn)"

text \<open>
  \<open>String::from_utf16\<close>: code units to code points, surrogates in pairs or not at all, and code
  points to UTF-8.
\<close>

fun code_points :: "nat list \<Rightarrow> nat list option" where
  "code_points [] = Some []"
| "code_points (u # us) =
     (if u < 0xD800 \<or> 0xDFFF < u then map_option ((#) u) (code_points us)
      else (case us of
              [] \<Rightarrow> None
            | v # vs \<Rightarrow>
                if u \<le> 0xDBFF \<and> 0xDC00 \<le> v \<and> v \<le> 0xDFFF
                then map_option ((#) (0x10000 + (u - 0xD800) * 0x400 + (v - 0xDC00))) (code_points vs)
                else None))"

definition utf8 :: "nat \<Rightarrow> string" where
  "utf8 n =
     (if n < 0x80 then [char_of n]
      else if n < 0x800 then [char_of (0xC0 + n div 0x40), char_of (0x80 + n mod 0x40)]
      else if n < 0x10000 then
        [char_of (0xE0 + n div 0x1000), char_of (0x80 + n div 0x40 mod 0x40), char_of (0x80 + n mod 0x40)]
      else
        [char_of (0xF0 + n div 0x40000), char_of (0x80 + n div 0x1000 mod 0x40),
         char_of (0x80 + n div 0x40 mod 0x40), char_of (0x80 + n mod 0x40)])"

definition from_utf16 :: "u16 list \<Rightarrow> string option" where
  "from_utf16 buf = map_option (concat \<circ> map utf8) (code_points (map unat buf))"

definition caminho_do_executavel :: "'s win_system \<Rightarrow> u32 \<Rightarrow> peer_error + string" where
  "caminho_do_executavel sys pid =
     (case image_name sys pid of
        Inl (call, errno) \<Rightarrow> Err (PeerCall call errno)
      | Inr buf \<Rightarrow> (case from_utf16 buf of None \<Rightarrow> Err BadUtf16 | Some exe \<Rightarrow> Ok exe))"

text \<open>
  The parent of a Windows path with a drive letter or none: everything before the last
  separator, which stays when the root is all that is left.
\<close>

definition is_separator :: "char \<Rightarrow> bool" where
  "is_separator c \<longleftrightarrow> c = CHR 0x5C \<or> c = CHR ''/''"

definition windows_parent :: "string \<Rightarrow> string option" where
  "windows_parent p =
     (let r = dropWhile is_separator (rev p);
          up = dropWhile (\<lambda>c. \<not> is_separator c) r;
          above = dropWhile is_separator up
      in if r = [] \<or> (up = [] \<and> hd r = CHR '':'') then None
         else if up = [] then Some []
         else if above = [] then Some [last up]
         else if hd above = CHR '':'' then Some (rev above @ [hd up])
         else Some (rev above))"

definition pasta_do_helper :: "'s win_system \<Rightarrow> peer_error + string" where
  "pasta_do_helper sys =
     (case current_exe sys of
        Inl e \<Rightarrow> Err (CodeCall ''current_exe'')
      | Inr eu \<Rightarrow> (case windows_parent eu of None \<Rightarrow> Err NoHelperDirectory | Some d \<Rightarrow> Ok d))"

definition mesmo_caminho :: "'s win_system \<Rightarrow> string \<Rightarrow> string \<Rightarrow> bool" where
  "mesmo_caminho sys a b =
     (case (canonicalize sys a, canonicalize sys b) of
        (Some x, Some y) \<Rightarrow> x = y
      | _ \<Rightarrow> eq_ignore_ascii_case a b)"

definition verify_peer_windows :: "'s win_system \<Rightarrow> 's \<Rightarrow> peer_error + PeerCheck" where
  "verify_peer_windows sys conn =
     and_then (pid_do_cliente sys conn) (\<lambda>pid.
     and_then (caminho_do_executavel sys pid) (\<lambda>exe.
     and_then (pasta_do_helper sys) (\<lambda>esperado.
     and_then (case windows_parent exe of None \<Rightarrow> Err (NoClientDirectory exe) | Some d \<Rightarrow> Ok d) (\<lambda>pasta.
     and_then (ensure (mesmo_caminho sys pasta esperado) (OutsideHelperDirectory exe esperado)) (\<lambda>_.
       Ok \<lparr>check_method = ''sddl+caminho'', check_subject = exe\<rparr>)))))"

section \<open>The listener\<close>

definition DIREITOS_CLIENTE :: string where "DIREITOS_CLIENTE = ''0x12019b''"

definition pipe_sddl :: string where
  "pipe_sddl = ''D:P(A;;GA;;;SY)(A;;GA;;;BA)(A;;'' @ DIREITOS_CLIENTE @ '';;;AU)''"

text \<open>What an instance is made with: the options of \<open>ServerOptions\<close> and the descriptor.\<close>

record pipe_request =
  request_name :: string
  first_instance :: bool
  rejects_remote :: bool
  request_sddl :: string

record 's WindowsListener =
  pending :: "'s option"
  pipe_name :: string

text \<open>
  What the system answers during one call: whether the descriptor converts, whether the instance
  can be made, and how the wait for a client ends: with an outcome, or with the future dropped.
\<close>

record 's pipe_answers =
  descriptor_converts :: bool
  creates :: "pipe_request \<Rightarrow> io_error + 's"
  connects :: "(io_error + unit) option"

definition descriptor_error :: io_error where "descriptor_error = OtherIo 0"

definition create_instance :: "'s pipe_answers \<Rightarrow> string \<Rightarrow> bool \<Rightarrow> io_error + 's" where
  "create_instance os name first =
     (if \<not> descriptor_converts os then Err descriptor_error
      else creates os \<lparr>request_name = name, first_instance = first, rejects_remote = True,
                       request_sddl = pipe_sddl\<rparr>)"

definition windows_bind :: "'s pipe_answers \<Rightarrow> Endpoint \<Rightarrow> io_error + 's WindowsListener" where
  "windows_bind os endpoint =
     and_then (create_instance os (address endpoint) True)
       (\<lambda>i. Ok \<lparr>pending = Some i, pipe_name = address endpoint\<rparr>)"

text \<open>
  One accept: the listener afterwards, its result, if it returned, and the streams it closed.  The
  slot was filled just before \<open>take_connected\<close> empties it, so that the panic is never reached.
\<close>

definition windows_accept :: "'s win_system \<Rightarrow> 's pipe_answers \<Rightarrow> 's WindowsListener \<Rightarrow>
    's WindowsListener \<times> ('s, (accept_error + 's \<times> PeerCheck) option) closing" where
  "windows_accept sys os l =
     (case (case pending l of Some i \<Rightarrow> Ok i | None \<Rightarrow> create_instance os (pipe_name l) False) of
        Inl e \<Rightarrow> (l, Some (Err (AcceptIo e)), [])
      | Inr i \<Rightarrow>
          let l = l\<lparr>pending := Some i\<rparr>
          in case connects os of
               None \<Rightarrow> (l, None, [])
             | Some outcome \<Rightarrow>
                 (case take_connected (pending l) outcome of
                    None \<Rightarrow> (l, None, [])
                  | Some ((r, closed), slot) \<Rightarrow>
                      let l = l\<lparr>pending := slot\<rparr>
                      in case r of
                           Inl e \<Rightarrow> (l, Some (Err e), closed)
                         | Inr conn \<Rightarrow>
                             let (admitted, closed) = admit conn (verify_peer_windows sys)
                             in (l, Some admitted, closed)))"

section \<open>Runs of the listener\<close>

text \<open>
  A world is a listener with what became of the instances so far.  A step is one accept under
  arbitrary answers of the system, the dropped wait included.
\<close>

record 's pipe_world =
  the_listener :: "'s WindowsListener"
  made :: "'s list"
  served :: "('s \<times> PeerCheck) list"
  closed_pipes :: "'s list"

definition made_now :: "'s pipe_answers \<Rightarrow> 's WindowsListener \<Rightarrow> 's list" where
  "made_now os l =
     (if pending l = None
      then (case create_instance os (pipe_name l) False of Inl _ \<Rightarrow> [] | Inr i \<Rightarrow> [i]) else [])"

definition served_now :: "(accept_error + 's \<times> PeerCheck) option \<Rightarrow> ('s \<times> PeerCheck) list" where
  "served_now r = (case r of Some (Inr y) \<Rightarrow> [y] | _ \<Rightarrow> [])"

inductive pipe_step :: "'s win_system \<Rightarrow> 's pipe_world \<Rightarrow> 's pipe_world \<Rightarrow> bool" for sys where
  accept: "windows_accept sys os (the_listener w) = (l', r, cl) \<Longrightarrow>
     pipe_step sys w
       \<lparr>the_listener = l', made = made w @ made_now os (the_listener w),
        served = served w @ served_now r, closed_pipes = closed_pipes w @ cl\<rparr>"

inductive pipe_reachable :: "'s win_system \<Rightarrow> 's pipe_world \<Rightarrow> bool" for sys where
  bound: "windows_bind os e = Ok l \<Longrightarrow>
     pipe_reachable sys \<lparr>the_listener = l, made = [the (pending l)], served = [], closed_pipes = []\<rparr>"
| step: "pipe_reachable sys w \<Longrightarrow> pipe_step sys w w' \<Longrightarrow> pipe_reachable sys w'"

inductive_cases pipe_stepE: "pipe_step sys w w'"

definition pipes_accounted :: "'s win_system \<Rightarrow> 's pipe_world \<Rightarrow> bool" where
  "pipes_accounted sys w \<longleftrightarrow>
     mset (made w) = mset (case pending (the_listener w) of None \<Rightarrow> [] | Some i \<Rightarrow> [i]) +
       mset (map fst (served w)) + mset (closed_pipes w) \<and>
     list_all (\<lambda>(s, c). verify_peer_windows sys s = Ok c) (served w)"

lemma accept_accounted:
  assumes "windows_accept sys os l = (l', r, cl)"
  shows "mset (case pending l of None \<Rightarrow> [] | Some i \<Rightarrow> [i]) + mset (made_now os l) =
      mset (case pending l' of None \<Rightarrow> [] | Some i \<Rightarrow> [i]) + mset (map fst (served_now r)) + mset cl \<and>
    list_all (\<lambda>(s, c). verify_peer_windows sys s = Ok c) (served_now r)"
  using assms
  by (auto simp: windows_accept_def made_now_def served_now_def take_connected_def admit_def Let_def
      split: option.splits sum.splits prod.splits)

lemma pipe_step_accounted:
  "pipes_accounted sys w \<Longrightarrow> pipe_step sys w w' \<Longrightarrow> pipes_accounted sys w'"
  by (erule pipe_stepE) (drule accept_accounted, auto simp: pipes_accounted_def ac_simps)

text \<open>
  C22: on Windows, after any sequence of accepts, each of which may fail, be dropped while it waits
  or refuse its client, every pipe instance that was made is exactly one of: waiting in the
  listener, handed to the server, closed; and whatever was handed to the server passed the check
  of its executable.
\<close>

theorem pipe_instances_accounted:
  "pipe_reachable sys w \<Longrightarrow> pipes_accounted sys w"
proof (induction rule: pipe_reachable.induct)
  case (bound os e l)
  then show ?case by (auto simp: windows_bind_def pipes_accounted_def)
qed (rule pipe_step_accounted)

text \<open>ASCII text comes back as it was.\<close>

lemma code_points_ascii: "\<forall>n\<in>set ns. n < 0x80 \<Longrightarrow> code_points ns = Some ns"
  by (induction ns) auto

lemma from_utf16_ascii:
  assumes "\<forall>c\<in>set s. of_char c < (0x80 :: nat)"
  shows "from_utf16 (map of_char s) = Some s"
proof -
  have "unat (of_char c :: u16) = of_char c" if "c \<in> set s" for c :: char
    using assms that unfolding of_nat_of_char [symmetric, where 'a = u16]
    by (subst unat_of_nat) (auto simp: take_bit_nat_eq_self)
  then have "map unat (map of_char s :: u16 list) = map of_char s" by simp
  moreover have "code_points (map of_char s) = Some (map of_char s)"
    by (rule code_points_ascii) (use assms in auto)
  moreover have "concat (map utf8 (map of_char s)) = s"
    using assms by (induction s) (auto simp: utf8_def)
  ultimately show ?thesis by (simp add: from_utf16_def del: map_map)
qed

definition example_win_system :: "nat win_system" where
  "example_win_system =
     \<lparr>client_process_id = (\<lambda>_. Inr 7), image_name = (\<lambda>_. Inr (map of_char ''C:/app/ui.exe'')),
      current_exe = Ok ''C:/app/helper.exe'', canonicalize = (\<lambda>p. Some p)\<rparr>"

theorem pipe_instances_accounted_witness:
  "pipes_accounted example_win_system
     \<lparr>the_listener = \<lparr>pending = Some (4::nat), pipe_name = ''p''\<rparr>, made = [4], served = [], closed_pipes = []\<rparr>"
proof -
  have "windows_bind \<lparr>descriptor_converts = True, creates = (\<lambda>_. Ok 4), connects = None\<rparr>
      (new_endpoint ''p'') = Ok \<lparr>pending = Some (4::nat), pipe_name = ''p''\<rparr>"
    by (simp add: windows_bind_def create_instance_def new_endpoint_def)
  from pipe_reachable.bound [OF this] show ?thesis
    by (intro pipe_instances_accounted) simp
qed

lemma client_call_ok:
  "pid_do_cliente sys conn = Ok pid \<longleftrightarrow> client_process_id sys conn = Inr pid"
  "caminho_do_executavel sys pid = Ok exe \<longleftrightarrow>
     (\<exists>buf. image_name sys pid = Inr buf \<and> from_utf16 buf = Some exe)"
  "pasta_do_helper sys = Ok d \<longleftrightarrow> (\<exists>eu. current_exe sys = Ok eu \<and> windows_parent eu = Some d)"
  "(case windows_parent exe of None \<Rightarrow> Err e | Some d \<Rightarrow> Ok d) = Ok pasta \<longleftrightarrow>
     windows_parent exe = Some pasta"
  "(Ok x = (Ok y :: peer_error + PeerCheck)) \<longleftrightarrow> y = x"
  by (auto simp: pid_do_cliente_def caminho_do_executavel_def pasta_do_helper_def
      split: sum.splits option.splits prod.splits)

text \<open>
  The Windows check admits a client exactly when the system names its process, the image of
  the process is well-formed text with a directory, and that directory is the helper's own, by
  canonical form when both have one and by letters otherwise.
\<close>

theorem verify_peer_windows_exact:
  "verify_peer_windows sys conn = Ok c \<longleftrightarrow>
     (\<exists>pid buf exe eu esperado pasta.
        client_process_id sys conn = Inr pid \<and> image_name sys pid = Inr buf \<and>
        from_utf16 buf = Some exe \<and> current_exe sys = Ok eu \<and>
        windows_parent eu = Some esperado \<and> windows_parent exe = Some pasta \<and>
        (case (canonicalize sys pasta, canonicalize sys esperado) of
           (Some x, Some y) \<Rightarrow> x = y
         | _ \<Rightarrow> to_ascii_lowercase pasta = to_ascii_lowercase esperado) \<and>
        c = \<lparr>check_method = ''sddl+caminho'', check_subject = exe\<rparr>)"
  unfolding verify_peer_windows_def and_then_ok client_call_ok ensure_ok mesmo_caminho_def
    eq_ignore_ascii_case_def by blast

end
