(* ===== verification/Platforms.thy ===== *)
theory Platforms
  imports Daemon MacDaemon WindowsTransport
begin

text \<open>
  The daemon that serves several connections at once, on Windows and on macOS: \<open>incoming\<close> and
  \<open>run\<close> of \<open>toolkit/dovetail_privileged_daemon/rust/src/server.rs\<close> over the listeners of
  \<open>WindowsTransport\<close> and \<open>XpcChannel\<close>, with the tasks of \<open>Daemon\<close>.
\<close>

section \<open>Windows\<close>

text \<open>
  The stream of connections: one accept after another, each under what the system answers during
  it, with the time.  A wait that was dropped yields nothing.
\<close>

fun accept_turn :: "nat \<Rightarrow> (accept_error + 's \<times> PeerCheck) option \<Rightarrow> 's turn list" where
  "accept_turn now None = []"
| "accept_turn now (Some (Inl e)) = [Failed e now]"
| "accept_turn now (Some (Inr (conn, peer))) = [Accepted conn peer]"

fun windows_turns :: "'s win_system \<Rightarrow> (nat \<times> 's pipe_answers) list \<Rightarrow> 's WindowsListener \<Rightarrow>
    's turn list \<times> 's WindowsListener" where
  "windows_turns sys [] l = ([], l)"
| "windows_turns sys ((now, os) # xs) l =
     (case windows_accept sys os l of
        (l1, r, _) \<Rightarrow> (let (ts, l2) = windows_turns sys xs l1 in (accept_turn now r @ ts, l2)))"

definition run_windows :: "bool \<Rightarrow> string \<Rightarrow> PeerPolicy option \<Rightarrow> 's win_system \<Rightarrow> 's pipe_answers \<Rightarrow>
    (nat \<times> 's pipe_answers) list \<Rightarrow> run_error + 's action list" where
  "run_windows prepared a policy sys os xs =
     and_then (ensure prepared PrepareFailed) (\<lambda>_.
     and_then (map_err BindFailed (windows_bind os (endpoint a policy))) (\<lambda>l.
       Ok (fst (accept_loop (fst (windows_turns sys xs l) @ [Shutdown])))))"

lemma windows_accepted:
  "windows_accept sys os l = (l1, Some (Inr (conn, peer)), closed) \<Longrightarrow> verify_peer_windows sys conn = Ok peer"
  using accept_accounted [of sys os l l1 "Some (Inr (conn, peer))" closed] by (simp add: served_now_def)

lemma accept_turn_admits:
  "(conn, peer) \<in> set (concat (map admitted_conn (accept_turn now r))) \<longleftrightarrow> r = Some (Inr (conn, peer))"
  "Shutdown \<notin> set (accept_turn now r)" "StreamEnd \<notin> set (accept_turn now r)"
  by (cases "(now, r)" rule: accept_turn.cases; auto)+

lemma windows_turns_checked:
  "(conn, peer) \<in> set (concat (map admitted_conn (fst (windows_turns sys xs l)))) \<Longrightarrow>
     verify_peer_windows sys conn = Ok peer"
proof (induction xs arbitrary: l)
  case (Cons x xs)
  obtain now os where x: "x = (now, os)" by fastforce
  obtain l1 r closed where a: "windows_accept sys os l = (l1, r, closed)" by (metis prod.collapse)
  have "fst (windows_turns sys (x # xs) l) = accept_turn now r @ fst (windows_turns sys xs l1)"
    by (simp add: x a split: prod.splits)
  then consider "(conn, peer) \<in> set (concat (map admitted_conn (accept_turn now r)))"
    | "(conn, peer) \<in> set (concat (map admitted_conn (fst (windows_turns sys xs l1))))"
    using Cons.prems by auto
  then show ?case
    by cases (use Cons.IH a windows_accepted in \<open>auto simp: accept_turn_admits(1) simp del: set_concat\<close>)
qed simp

lemma windows_turns_go_on:
  "Shutdown \<notin> set (fst (windows_turns sys xs l)) \<and> StreamEnd \<notin> set (fst (windows_turns sys xs l))"
proof (induction xs arbitrary: l)
  case (Cons x xs)
  then show ?case by (cases x) (auto simp: accept_turn_admits split: prod.splits, (metis fst_conv)+)
qed simp

lemma before_end_all: "Shutdown \<notin> set ts \<Longrightarrow> StreamEnd \<notin> set ts \<Longrightarrow> before_end ts = ts"
  unfolding before_end_def by (rule takeWhile_eq_all_conv [THEN iffD2]) metis

lemma run_windows_serves:
  assumes "run_windows prepared a policy sys os xs = Ok actions" and "(conn, peer) \<in> set (concat (map served_conn actions))"
  shows "verify_peer_windows sys conn = Ok peer"
proof -
  obtain l where "actions = fst (accept_loop (fst (windows_turns sys xs l) @ [Shutdown]))"
    using assms(1) by (auto simp: run_windows_def)
  moreover have "before_end (fst (windows_turns sys xs l) @ [Shutdown]) = fst (windows_turns sys xs l)"
    using before_end_all [OF conjunct1 conjunct2, OF windows_turns_go_on windows_turns_go_on]
      windows_turns_go_on [of sys xs l] by (simp add: before_end_snoc)
  ultimately show ?thesis
    using assms(2) windows_turns_checked by (simp add: loop_served del: set_concat)
qed

section \<open>macOS\<close>

text \<open>What a task of the macOS daemon was spawned for.\<close>

lemma mac_turns_required:
  assumes "mach_service label r = Ok w0" and "mac_turns pid script w0 = (turns, w)"
    and "(conn, peer) \<in> set (concat (map admitted_conn turns))"
  shows "Happens (NewPeer (raw conn) True) \<in> set script \<and>
    before (SetRequirement (raw conn) r) (Resume (raw conn)) (calls w) \<and> peer = xpc_peer pid conn"
proof -
  have peer: "peer = xpc_peer pid conn" and mem: "conn \<in> set (map fst (concat (map admitted_conn turns)))"
    using mac_turns_admit [OF assms(2)] assms(3) by (blast, force)
  obtain ops where ops: "fold host_step ops (w0, []) = (w, [] @ map fst (concat (map admitted_conn turns)))"
      "\<forall>e. Occurs e \<in> set ops \<longrightarrow> Happens e \<in> set script"
    using mac_turns_host [OF assms(2), of "[]"] by (elim exE conjE)
  have "required r ops (w, map fst (concat (map admitted_conn turns)))"
    using run_host_required [OF mach_service_required [OF assms(1)], of ops] ops(1) by (simp add: run_host_def)
  then show ?thesis using mem ops(2) peer unfolding required_def by auto
qed

section \<open>Properties\<close>

text \<open>
  C5: on Windows, whatever runs at once, every command the daemon dispatches comes over a pipe
  whose client is a process that runs a program in the directory of the daemon itself: the system
  resolves the two directories to the same path or, where it does not resolve both, their names
  differ in the case of ASCII letters at most.  The command is one that validation passed, and
  comes after a hello of the daemon's major version, in the order it was sent.
\<close>

theorem windows_commands_checked:
  assumes "windows_bind os (endpoint a policy) = Ok l"
    and "daemon_runs js app version (daemon_start s0) es d"
    and "before_end (loop_turns es) = fst (windows_turns sys xs l)"
    and "(i, cmd, answer) \<in> set (dispatched d)"
  shows "i < length (tasks d) \<and> cmd \<in> set (cmds_of i d) \<and> is_ok (app_validate app cmd) \<and>
    (\<exists>pid buf exe own here there. client_process_id sys (task_conn (tasks d ! i)) = Inr pid \<and>
       image_name sys pid = Inr buf \<and> from_utf16 buf = Some exe \<and> current_exe sys = Ok own \<and>
       windows_parent own = Some here \<and> windows_parent exe = Some there \<and>
       (case (canonicalize sys there, canonicalize sys here) of
          (Some x, Some y) \<Rightarrow> x = y
        | _ \<Rightarrow> map ascii_lower_char there = map ascii_lower_char here) \<and>
       check_subject (task_peer (tasks d ! i)) = exe) \<and>
    (\<exists>b hello rest more. inbound (first_stream (tasks d ! i)) = Arrives b # rest \<and>
       from_slice js b = Some (FHello hello) \<and> proto_major hello = PROTOCOL_MAJOR \<and>
       cmds_of i d @ more = valid_cmds (replay app) (map (request_of js) (takeWhile (is_request js) rest)))"
proof -
  have i: "i < length (tasks d)" using dispatched_sent [OF assms(2,4)] by blast
  have "served_by d = concat (map admitted_conn (fst (windows_turns sys xs l)))"
    using daemon_serves [OF assms(2)] assms(3) by simp
  from windows_turns_checked [OF served_index [OF this i]]
  have "verify_peer_windows sys (task_conn (tasks d ! i)) = Ok (task_peer (tasks d ! i))" .
  then show ?thesis
    using dispatched_sent [OF assms(2,4)]
    unfolding verify_peer_windows_exact to_ascii_lowercase_def by fastforce
qed

text \<open>
  C3: on macOS, whatever runs at once, every command the daemon dispatches comes from a peer that
  the system took the daemon's requirement for, before it could say anything; that requirement is
  one no code satisfies without the evidence of the product, and does not depend on the command
  line; the command is one that validation passed, after a hello of the daemon's major version, in
  the order it was sent.
\<close>

theorem macos_commands_required:
  assumes "served_requirement api plutil (plist_path label) args policy h = Ok r"
    and "mach_service label r = Ok w0" and "mac_turns pid script w0 = (turns, w)"
    and "daemon_runs js app version (daemon_start s0) es d" and "before_end (loop_turns es) = before_end turns"
    and "(i, cmd, answer) \<in> set (dispatched d)" and "p = raw (task_conn (tasks d ! i))"
  shows "is_ok (app_validate app cmd) \<and> cmd \<in> set (cmds_of i d) \<and>
    Happens (NewPeer p True) \<in> set script \<and> before (SetRequirement p r) (Resume p) (calls w) \<and>
    (\<forall>args'. served_requirement api plutil (plist_path label) args' policy h = Ok r) \<and>
    (\<exists>b c. fst (compile_requirement api r []) = Ok b \<and> parse_requirement b = Ok c \<and>
       (\<forall>holds. satisfied holds c \<longrightarrow> product_evidence {l \<in> leaves c. holds l})) \<and>
    (\<exists>b hello rest more. inbound (first_stream (tasks d ! i)) = Arrives b # rest \<and>
       from_slice js b = Some (FHello hello) \<and> proto_major hello = PROTOCOL_MAJOR \<and>
       cmds_of i d @ more = valid_cmds (replay app) (map (request_of js) (takeWhile (is_request js) rest)))"
proof -
  have i: "i < length (tasks d)" using dispatched_sent [OF assms(4,6)] by blast
  have "served_by d = concat (map admitted_conn turns)"
    using daemon_serves [OF assms(4)] assms(5) mac_turns_admit [OF assms(3)] by simp
  from mac_turns_required [OF assms(2,3) served_index [OF this i]]
  have peer: "Happens (NewPeer p True) \<in> set script \<and> before (SetRequirement p r) (Resume p) (calls w)"
    using assms(7) by simp
  have r: "ensure_strong api r = Ok ()"
    "\<forall>args'. served_requirement api plutil (plist_path label) args' policy h = Ok r"
    using assms(1) by (auto simp: served_requirement_def xpc_requirement_ok)
  obtain b c where "fst (compile_requirement api r []) = Ok b" "parse_requirement b = Ok c" "is_strong c"
    using r(1) unfolding ensure_strong_ok by (elim exE conjE)
  then show ?thesis
    using dispatched_sent [OF assms(4,6)] peer r(2) is_strong_sound by blast
qed

section \<open>Examples\<close>

definition ui_peer :: PeerCheck where
  "ui_peer = \<lparr>check_method = ''sddl+caminho'', check_subject = ''C:/app/ui.exe''\<rparr>"

definition example_answers :: "nat pipe_answers" where
  "example_answers = \<lparr>descriptor_converts = True, creates = (\<lambda>_. Ok 4), connects = Some (Ok ())\<rparr>"

lemma example_ui: "verify_peer_windows example_win_system conn = Ok ui_peer"
proof -
  have "from_utf16 (map of_char ''C:/app/ui.exe'') = Some ''C:/app/ui.exe''"
    by (rule from_utf16_ascii) simp
  moreover have "windows_parent ''C:/app/ui.exe'' = Some ''C:/app''" "windows_parent ''C:/app/helper.exe'' = Some ''C:/app''"
    by code_simp+
  ultimately show ?thesis
    by (simp add: verify_peer_windows_def pid_do_cliente_def caminho_do_executavel_def pasta_do_helper_def
        example_win_system_def mesmo_caminho_def ui_peer_def)
qed

lemma example_loop_turns: "loop_turns (example_events conn peer) = [Accepted conn peer, Accepted conn peer]"
  by (simp add: loop_turns_def example_events_def echo_accepted_def)

lemma example_dispatched: "(0, (), Some (RespOk ())) \<in> set (dispatched (example_daemon conn peer))"
  by (simp add: example_daemon_parts)

theorem windows_commands_checked_witness:
  "\<exists>pid buf exe own here there. client_process_id example_win_system (task_conn (tasks (example_daemon (4 :: nat) ui_peer) ! 0)) = Inr pid \<and>
     image_name example_win_system pid = Inr buf \<and> from_utf16 buf = Some exe \<and>
     check_subject (task_peer (tasks (example_daemon (4 :: nat) ui_peer) ! 0)) = exe \<and>
     current_exe example_win_system = Ok own \<and> windows_parent own = Some here \<and> windows_parent exe = Some there \<and>
     (case (canonicalize example_win_system there, canonicalize example_win_system here) of
        (Some x, Some y) \<Rightarrow> x = y
      | _ \<Rightarrow> map ascii_lower_char there = map ascii_lower_char here) \<and>
     () \<in> set (cmds_of 0 (example_daemon (4 :: nat) ui_peer))"
proof -
  let ?l = "\<lparr>WindowsListener.pending = Some 4, pipe_name = ''p''\<rparr>"
  have bind: "windows_bind example_answers (endpoint ''p'' None) = Ok ?l"
    by (simp add: windows_bind_def create_instance_def example_answers_def endpoint_def new_endpoint_def)
  have "fst (windows_turns example_win_system [(0, example_answers), (1, example_answers)] ?l) =
      [Accepted 4 ui_peer, Accepted 4 ui_peer]"
    by (simp add: windows_accept_def create_instance_def example_answers_def take_connected_def admit_def example_ui)
  then have turns: "before_end (loop_turns (example_events 4 ui_peer)) =
      fst (windows_turns example_win_system [(0, example_answers), (1, example_answers)] ?l)"
    by (simp add: example_loop_turns before_end_def)
  show ?thesis
    using windows_commands_checked [OF bind example_runs turns example_dispatched] by blast
qed

lemma one_peer:
  assumes "peers w = sink" and "peer_requirement w = Some r"
  shows "\<exists>w1. accept (on_event (NewPeer p True) w) = (Ready (Some (adopt p)), w1) \<and>
    peers w1 = sink \<and> peer_requirement w1 = Some r"
  using assms by (simp add: hand_over_def accept_def poll_recv_def sink_def Let_def)

lemma two_peers:
  assumes "peers w = sink" and "peer_requirement w = Some r"
  shows "\<exists>w'. mac_turns pid [Happens (NewPeer p True), Poll, Happens (NewPeer q True), Poll, Stop] w =
    ([Accepted (adopt p) (xpc_peer pid (adopt p)), Accepted (adopt q) (xpc_peer pid (adopt q)), Shutdown], w')"
proof -
  obtain w1 where w1: "accept (on_event (NewPeer p True) w) = (Ready (Some (adopt p)), w1)"
      "peers w1 = sink" "peer_requirement w1 = Some r"
    using one_peer [OF assms] by blast
  obtain w2 where "accept (on_event (NewPeer q True) w1) = (Ready (Some (adopt q)), w2)"
    using one_peer [OF w1(2,3)] by blast
  with w1(1) show ?thesis by (simp del: on_event.simps)
qed

theorem macos_commands_required_witness:
  "\<exists>r w0 turns w. served_requirement (example_requirement_api pinned_blob)
       (\<lambda>q. Some [''/helper'', REQUIREMENT_FLAG, ''pin'']) (plist_path ''l'') [''/helper''] None
       (example_host [plist_path ''l'' \<mapsto> root_plist] 0) = Ok r \<and>
     mach_service ''l'' r = Ok w0 \<and>
     mac_turns (\<lambda>_. 42) [Happens (NewPeer 8 True), Poll, Happens (NewPeer 8 True), Poll, Stop] w0 = (turns, w) \<and>
     before (SetRequirement 8 r) (Resume 8) (calls w) \<and>
     () \<in> set (cmds_of 0 (example_daemon (adopt 8) (xpc_peer (\<lambda>_. 42) (adopt 8))))"
proof -
  let ?peer = "xpc_peer (\<lambda>_. 42) (adopt 8)"
    and ?script = "[Happens (NewPeer 8 True), Poll, Happens (NewPeer 8 True), Poll, Stop]"
  obtain w0 where w0: "mach_service ''l'' ''pin'' = Ok w0"
      "w0 = \<lparr>peer_requirement = Some ''pin'', peers = sink, contexts = Map.empty, calls = []\<rparr>"
    by (simp add: mach_service_def listen_def dovetail_xpc_listen_def c_text_def)
  have "peers w0 = sink" "peer_requirement w0 = Some ''pin''" by (simp_all add: w0(2))
  from two_peers [OF this] obtain w where
    t: "mac_turns (\<lambda>_. 42) ?script w0 = ([Accepted (adopt 8) ?peer, Accepted (adopt 8) ?peer, Shutdown], w)" by blast
  have turns: "before_end (loop_turns (example_events (adopt 8) ?peer)) =
      before_end [Accepted (adopt 8) ?peer, Accepted (adopt 8) ?peer, Shutdown]"
    by (simp add: example_loop_turns before_end_def)
  have "8 = raw (task_conn (tasks (example_daemon (adopt 8) ?peer) ! 0))"
    unfolding example_index(2) example_end_parts(2) by (simp add: adopt_def)
  from macos_commands_required [OF served_example w0(1) t example_runs turns example_dispatched this]
  have "before (SetRequirement 8 ''pin'') (Resume 8) (calls w)" "() \<in> set (cmds_of 0 (example_daemon (adopt 8) ?peer))"
    by blast+
  then show ?thesis using served_example w0(1) t by blast
qed

end
