(* ===== verification/LinuxService.thy ===== *)
theory LinuxService
  imports Mode
begin

text \<open>
  The systemd service of the daemon: \<open>service/systemd.rs\<close>, \<open>service/linux.rs\<close>,
  \<open>service/systemd_fixture.rs\<close> and \<open>service/stub.rs\<close> under
  \<open>toolkit/dovetail_privileged_daemon/rust/src\<close>.  The operations are generic over a host, a trait
  of two functions; here the trait is a record of them, and its laws are a locale with the two
  hosts of the code as its interpretations.
\<close>

section \<open>The host\<close>

record Ran =
  success :: bool
  stdout :: string

record 'h Host =
  is_root :: "'h \<Rightarrow> bool"
  systemctl :: "string list \<Rightarrow> 'h \<Rightarrow> Ran option \<times> 'h"

section \<open>The operations\<close>

definition show_value :: "string \<Rightarrow> string \<Rightarrow> string option" where
  "show_value show key =
     (case List.map_filter (\<lambda>line. Option.bind (strip_prefix key line) (strip_prefix ''='')) (str_lines show) of
        [] \<Rightarrow> None
      | v # _ \<Rightarrow> Some v)"

definition unit_state :: "string \<Rightarrow> int" where
  "unit_state show =
     (if show_value show ''LoadState'' = Some ''not-found'' then NOT_INSTALLED
      else case show_value show ''ActiveState'' of
             Some v \<Rightarrow>
               if v \<in> {''active'', ''reloading'', ''refreshing''} then OK
               else if v = ''activating'' then STARTING
               else STOPPED
           | None \<Rightarrow> UNKNOWN)"

definition SHOW_ARGS :: "string list" where
  "SHOW_ARGS = [''show'', ''--property=LoadState,ActiveState'']"

definition status :: "'h Host \<Rightarrow> string \<Rightarrow> 'h \<Rightarrow> int \<times> 'h" where
  "status host unit h =
     (case systemctl host (SHOW_ARGS @ [unit]) h of
        (Some out, h') \<Rightarrow> (if success out then unit_state (stdout out) else UNKNOWN, h')
      | (None, h') \<Rightarrow> (UNKNOWN, h'))"

definition change :: "'h Host \<Rightarrow> string list \<Rightarrow> int \<Rightarrow> 'h \<Rightarrow> int \<times> 'h" where
  "change host args failure h =
     (case systemctl host args h of
        (Some out, h') \<Rightarrow> (if success out then OK else failure, h')
      | (None, h') \<Rightarrow> (failure, h'))"

definition install :: "'h Host \<Rightarrow> string \<Rightarrow> 'h \<Rightarrow> int \<times> 'h" where
  "install host unit h =
     (if \<not> is_root host h then (NEEDS_ELEVATION, h)
      else change host [''enable'', ''--now'', unit] REGISTER_FAILED h)"

definition uninstall :: "'h Host \<Rightarrow> string \<Rightarrow> 'h \<Rightarrow> int \<times> 'h" where
  "uninstall host unit h =
     (if \<not> is_root host h then (NEEDS_ELEVATION, h)
      else let (s, h') = status host unit h
           in if s = NOT_INSTALLED then (OK, h') else change host [''disable'', ''--now'', unit] FAILED h')"

definition stop :: "'h Host \<Rightarrow> string \<Rightarrow> 'h \<Rightarrow> int \<times> 'h" where
  "stop host unit h =
     (if \<not> is_root host h then (NEEDS_ELEVATION, h)
      else let (s, h') = status host unit h
           in if s = NOT_INSTALLED then (OK, h') else change host [''stop'', unit] FAILED h')"

definition repair :: "'h Host \<Rightarrow> string \<Rightarrow> 'h \<Rightarrow> int \<times> 'h" where
  "repair host unit h =
     (let (s, h') = status host unit h
      in if s = NOT_INSTALLED then (NOT_INSTALLED, h')
         else if \<not> is_root host h' then (NEEDS_ELEVATION, h')
         else change host [''restart'', unit] START_FAILED h')"

section \<open>The two hosts of the code\<close>

text \<open>
  The real one runs \<open>systemctl\<close>: the world keeps the effective user and the commands run, and
  says what a command prints, given the commands before it; \<open>None\<close> is a command that did not
  start.
\<close>

record linux_world =
  linux_euid :: "32 word"
  ran_commands :: "string list list"
  systemd_answer :: "string list list \<Rightarrow> string list \<Rightarrow> Ran option"
  foreground_ok :: "string list list \<Rightarrow> bool"

definition system_host :: "linux_world Host" where
  "system_host =
     \<lparr>is_root = (\<lambda>w. linux_euid w = 0),
      systemctl = (\<lambda>args w. (systemd_answer w (ran_commands w) args,
                              w\<lparr>ran_commands := ran_commands w @ [args]\<rparr>))\<rparr>"

text \<open>The fixture of the tests: what it shows is fixed, and it accepts every change or none.\<close>

record Systemd =
  fixture_root :: bool
  fixture_present :: bool
  fixture_show :: string
  fixture_accepts :: bool
  fixture_calls :: "string list"

definition showing :: "string \<Rightarrow> Systemd" where
  "showing s = \<lparr>fixture_root = True, fixture_present = True, fixture_show = s,
     fixture_accepts = True, fixture_calls = []\<rparr>"

definition refusing :: "string \<Rightarrow> Systemd" where
  "refusing s = (showing s)\<lparr>fixture_accepts := False\<rparr>"

definition as_a_user :: "string \<Rightarrow> Systemd" where
  "as_a_user s = (showing s)\<lparr>fixture_root := False\<rparr>"

definition fixture_active :: string where
  "fixture_active = ''LoadState=loaded'' @ [CHR 0x0A] @ ''ActiveState=active'' @ [CHR 0x0A]"

definition missing :: Systemd where
  "missing = (showing fixture_active)\<lparr>fixture_present := False\<rparr>"

definition fixture_host :: "Systemd Host" where
  "fixture_host =
     \<lparr>is_root = fixture_root,
      systemctl = (\<lambda>args h.
        let h' = h\<lparr>fixture_calls := fixture_calls h @ [join_str '' '' args]\<rparr>
        in if \<not> fixture_present h then (None, h')
           else let reading = (args \<noteq> [] \<and> hd args = ''show'')
                in (Some \<lparr>success = reading \<or> fixture_accepts h,
                          stdout = (if reading then fixture_show h else [])\<rparr>, h'))\<rparr>"

section \<open>What the operations rely on\<close>

definition show_call :: "string \<Rightarrow> string" where
  "show_call unit = join_str '' '' (SHOW_ARGS @ [unit])"

text \<open>
  A host notes every command it is given, and no command changes who runs it.
\<close>

locale systemd_host =
  fixes host :: "'h Host" and calls :: "'h \<Rightarrow> string list"
  assumes notes_call: "calls (snd (systemctl host args h)) = calls h @ [join_str '' '' args]"
    and same_user: "is_root host (snd (systemctl host args h)) = is_root host h"
begin

lemma status_calls [simp]: "calls (snd (status host unit h)) = calls h @ [show_call unit]"
  using notes_call [of "SHOW_ARGS @ [unit]" h]
  by (auto simp: status_def show_call_def split: prod.splits option.splits)

lemma status_root [simp]: "is_root host (snd (status host unit h)) = is_root host h"
  using same_user [of "SHOW_ARGS @ [unit]" h] by (auto simp: status_def split: prod.splits option.splits)

lemma status_eq:
  "status host unit h = (s, h') \<Longrightarrow>
     calls h' = calls h @ [show_call unit] \<and> is_root host h' = is_root host h"
  using status_calls [of unit h] status_root [of unit h] by (simp del: status_calls status_root)

lemma change_calls [simp]: "calls (snd (change host args f h)) = calls h @ [join_str '' '' args]"
  using notes_call [of args h] by (auto simp: change_def split: prod.splits option.splits)

lemma change_root [simp]: "is_root host (snd (change host args f h)) = is_root host h"
  using same_user [of args h] by (auto simp: change_def split: prod.splits option.splits)

lemma change_code: "fst (change host args f h) \<in> {OK, f}"
  by (auto simp: change_def split: prod.splits option.splits)

lemma install_calls:
  "calls (snd (install host unit h)) =
     calls h @ (if is_root host h then [join_str '' '' [''enable'', ''--now'', unit]] else [])"
  by (simp add: install_def)

lemma uninstall_calls:
  "calls (snd (uninstall host unit h)) =
     calls h @ (if \<not> is_root host h then []
       else if fst (status host unit h) = NOT_INSTALLED then [show_call unit]
       else [show_call unit, join_str '' '' [''disable'', ''--now'', unit]])"
  by (auto simp: uninstall_def simp del: join_str.simps split: prod.splits dest!: status_eq)

lemma stop_calls:
  "calls (snd (stop host unit h)) =
     calls h @ (if \<not> is_root host h then []
       else if fst (status host unit h) = NOT_INSTALLED then [show_call unit]
       else [show_call unit, join_str '' '' [''stop'', unit]])"
  by (auto simp: stop_def simp del: join_str.simps split: prod.splits dest!: status_eq)

lemma repair_calls:
  "calls (snd (repair host unit h)) =
     calls h @ [show_call unit] @
       (if fst (status host unit h) = NOT_INSTALLED \<or> \<not> is_root host h then []
        else [join_str '' '' [''restart'', unit]])"
  by (auto simp: repair_def simp del: join_str.simps split: prod.splits dest!: status_eq)

end

interpretation system: systemd_host system_host "\<lambda>w. map (join_str '' '') (ran_commands w)"
  by unfold_locales (simp_all add: system_host_def)

interpretation fixture: systemd_host fixture_host fixture_calls
  by unfold_locales (simp_all add: fixture_host_def Let_def)

section \<open>The backends\<close>

definition run_service_from :: "('w \<Rightarrow> bool) \<Rightarrow> 'w \<Rightarrow> int \<times> 'w" where
  "run_service_from foreground w = (if foreground w then OK else FAILED, w)"

definition linux_backend :: "string \<Rightarrow> (linux_world \<Rightarrow> bool) \<Rightarrow> linux_world backend" where
  "linux_backend unit cleanup_ok =
     \<lparr>run_service = run_service_from (\<lambda>w. foreground_ok w (ran_commands w)),
      register_service = install system_host unit,
      unregister_service = uninstall system_host unit,
      stop_service = stop system_host unit,
      repair_service = repair system_host unit,
      query_status = status system_host unit,
      cleanup = (\<lambda>w. (cleanup_ok w, w)),
      run_foreground = (\<lambda>w. (foreground_ok w (ran_commands w), w))\<rparr>"

text \<open>The stub of other platforms does nothing and says so.\<close>

definition nao_suportado :: "'w \<Rightarrow> int \<times> 'w" where
  "nao_suportado w = (UNSUPPORTED_PLATFORM, w)"

definition stub_backend :: "('w \<Rightarrow> bool) \<Rightarrow> ('w \<Rightarrow> bool) \<Rightarrow> 'w backend" where
  "stub_backend foreground cleanup_ok =
     \<lparr>run_service = run_service_from foreground, register_service = nao_suportado,
      unregister_service = nao_suportado, stop_service = nao_suportado,
      repair_service = nao_suportado, query_status = (\<lambda>w. (UNKNOWN, w)),
      cleanup = (\<lambda>w. (cleanup_ok w, w)), run_foreground = (\<lambda>w. (foreground w, w))\<rparr>"

text \<open>The commands that change the machine: all but \<open>show\<close>.\<close>

definition changes :: "linux_world \<Rightarrow> string list list" where
  "changes w = filter (\<lambda>c. c \<noteq> [] \<and> hd c \<noteq> ''show'') (ran_commands w)"

lemma system_status_machine:
  "changes (snd (status system_host unit w)) = changes w"
  "linux_euid (snd (status system_host unit w)) = linux_euid w"
  by (auto simp: status_def system_host_def changes_def SHOW_ARGS_def split: option.splits)

interpretation linux: service_backend "linux_backend unit cleanup_ok" "\<lambda>w. linux_euid w = 0" changes
  for unit cleanup_ok
proof
  fix w :: linux_world
  assume user: "linux_euid w \<noteq> 0"
  have root: "is_root system_host v = (linux_euid v = 0)" for v by (simp add: system_host_def)
  obtain s w' where s: "status system_host unit w = (s, w')" by fastforce
  have w': "changes w' = changes w" "linux_euid w' = linux_euid w"
    using system_status_machine [of unit w] by (simp_all add: s)
  show "fst (repair_service (linux_backend unit cleanup_ok) w) \<in> {NEEDS_ELEVATION, NOT_INSTALLED} \<and>
      changes (snd (repair_service (linux_backend unit cleanup_ok) w)) = changes w \<and>
      linux_euid (snd (repair_service (linux_backend unit cleanup_ok) w)) \<noteq> 0"
    using user w' by (simp add: linux_backend_def repair_def s root)
qed (simp_all add: linux_backend_def install_def uninstall_def stop_def system_host_def
      system_status_machine [unfolded system_host_def])

section \<open>Properties\<close>

text \<open>
  Without root the program changes nothing.  Whatever sequence of installs, removals, stops,
  repairs and status queries a user runs on Linux, no command but \<open>systemctl show\<close> is ever given,
  and each attempt to change something is answered with the elevation code, or with the code for
  a unit that is not there.
\<close>

theorem linux_user_changes_nothing:
  assumes "linux_euid w \<noteq> 0" and "set ms \<subseteq> insert Status changing"
  shows "changes (run_modes (linux_backend unit cleanup_ok) ms w) = changes w \<and>
    (\<forall>m\<in>changing. fst (executar (linux_backend unit cleanup_ok) m w) \<in> {NEEDS_ELEVATION, NOT_INSTALLED})"
  using linux.user_runs [OF assms] linux.user_refused [OF assms(1)] by blast

definition example_linux :: "32 word \<Rightarrow> linux_world" where
  "example_linux uid = \<lparr>linux_euid = uid, ran_commands = [],
     systemd_answer = (\<lambda>_ _. Some \<lparr>success = True, stdout = fixture_active\<rparr>), foreground_ok = (\<lambda>_. True)\<rparr>"

theorem linux_user_changes_nothing_witness:
  "let w = example_linux 1000; ms = [Repair, Status, Install]
   in changes (run_modes (linux_backend ''u'' (\<lambda>_. True)) ms w) = changes w \<and>
     (\<forall>m\<in>changing. fst (executar (linux_backend ''u'' (\<lambda>_. True)) m w) \<in> {NEEDS_ELEVATION, NOT_INSTALLED})"
  unfolding Let_def
  by (rule linux_user_changes_nothing) (simp_all add: example_linux_def changing_def)

text \<open>
  What root's operations run, and what they report.  Removing and stopping look first and do
  nothing about a unit that is not there, repairing reports it; otherwise exactly one further
  command runs, and the code is success or the operation's own failure, as that command went.
\<close>

theorem linux_root_commands:
  assumes "linux_euid w = 0"
  shows "ran_commands (snd (install system_host unit w)) = ran_commands w @ [[''enable'', ''--now'', unit]] \<and>
    fst (install system_host unit w) \<in> {OK, REGISTER_FAILED} \<and>
    (if fst (status system_host unit w) = NOT_INSTALLED
     then uninstall system_host unit w = (OK, snd (status system_host unit w)) \<and>
       stop system_host unit w = (OK, snd (status system_host unit w)) \<and>
       repair system_host unit w = (NOT_INSTALLED, snd (status system_host unit w))
     else ran_commands (snd (uninstall system_host unit w)) =
         ran_commands w @ [SHOW_ARGS @ [unit], [''disable'', ''--now'', unit]] \<and>
       ran_commands (snd (stop system_host unit w)) = ran_commands w @ [SHOW_ARGS @ [unit], [''stop'', unit]] \<and>
       ran_commands (snd (repair system_host unit w)) = ran_commands w @ [SHOW_ARGS @ [unit], [''restart'', unit]] \<and>
       fst (uninstall system_host unit w) \<in> {OK, FAILED} \<and> fst (stop system_host unit w) \<in> {OK, FAILED} \<and>
       fst (repair system_host unit w) \<in> {OK, START_FAILED})"
proof -
  have root: "is_root system_host v = (linux_euid v = 0)" for v by (simp add: system_host_def)
  obtain s w' where s: "status system_host unit w = (s, w')" by fastforce
  then have w': "ran_commands w' = ran_commands w @ [SHOW_ARGS @ [unit]]" "linux_euid w' = 0"
    using assms(1) by (auto simp: status_def system_host_def split: option.splits)
  have ran: "ran_commands (snd (change system_host args f v)) = ran_commands v @ [args]" for args f v
    by (auto simp: change_def system_host_def split: option.splits)
  note code = system.change_code
  show ?thesis
    using assms(1) w' ran code by (simp add: install_def uninstall_def stop_def repair_def root s)
qed

theorem linux_root_commands_witness:
  "let w = example_linux 0; unit = ''u''
   in ran_commands (snd (install system_host unit w)) = ran_commands w @ [[''enable'', ''--now'', unit]] \<and>
    fst (install system_host unit w) \<in> {OK, REGISTER_FAILED} \<and>
    (if fst (status system_host unit w) = NOT_INSTALLED
     then uninstall system_host unit w = (OK, snd (status system_host unit w)) \<and>
       stop system_host unit w = (OK, snd (status system_host unit w)) \<and>
       repair system_host unit w = (NOT_INSTALLED, snd (status system_host unit w))
     else ran_commands (snd (uninstall system_host unit w)) =
         ran_commands w @ [SHOW_ARGS @ [unit], [''disable'', ''--now'', unit]] \<and>
       ran_commands (snd (stop system_host unit w)) = ran_commands w @ [SHOW_ARGS @ [unit], [''stop'', unit]] \<and>
       ran_commands (snd (repair system_host unit w)) = ran_commands w @ [SHOW_ARGS @ [unit], [''restart'', unit]] \<and>
       fst (uninstall system_host unit w) \<in> {OK, FAILED} \<and> fst (stop system_host unit w) \<in> {OK, FAILED} \<and>
       fst (repair system_host unit w) \<in> {OK, START_FAILED})"
  unfolding Let_def by (rule linux_root_commands) (simp add: example_linux_def)

lemma show_value_lines:
  assumes "CHR 0x0A \<notin> set l" and "CHR 0x0D \<notin> set l" and "CHR 0x0A \<notin> set a" and "CHR 0x0D \<notin> set a"
  shows "show_value (''LoadState='' @ l @ [CHR 0x0A] @ ''ActiveState='' @ a @ [CHR 0x0A]) ''LoadState'' = Some l"
    and "show_value (''LoadState='' @ l @ [CHR 0x0A] @ ''ActiveState='' @ a @ [CHR 0x0A]) ''ActiveState'' = Some a"
proof -
  have "str_lines ((''LoadState='' @ l) @ CHR 0x0A # ((''ActiveState='' @ a) @ CHR 0x0A # [])) =
      [''LoadState='' @ l, ''ActiveState='' @ a]"
    using assms by (subst str_lines_terminated, simp, subst str_lines_terminated, simp)
      (simp add: strip_cr_id)
  then have lines: "str_lines (''LoadState='' @ l @ [CHR 0x0A] @ ''ActiveState='' @ a @ [CHR 0x0A]) =
      [''LoadState='' @ l, ''ActiveState='' @ a]"
    by simp
  show "show_value (''LoadState='' @ l @ [CHR 0x0A] @ ''ActiveState='' @ a @ [CHR 0x0A]) ''LoadState'' = Some l"
    "show_value (''LoadState='' @ l @ [CHR 0x0A] @ ''ActiveState='' @ a @ [CHR 0x0A]) ''ActiveState'' = Some a"
    unfolding show_value_def lines by (simp_all add: List.map_filter_def strip_prefix_def)
qed

text \<open>
  How the two lines that \<open>systemctl show\<close> prints are read: a unit that is not found is not
  installed whatever its activity, and otherwise its activity decides.
\<close>

theorem unit_state_reads:
  assumes "CHR 0x0A \<notin> set l" and "CHR 0x0D \<notin> set l" and "CHR 0x0A \<notin> set a" and "CHR 0x0D \<notin> set a"
  shows "unit_state (''LoadState='' @ l @ [CHR 0x0A] @ ''ActiveState='' @ a @ [CHR 0x0A]) =
    (if l = ''not-found'' then NOT_INSTALLED
     else if a \<in> {''active'', ''reloading'', ''refreshing''} then OK
     else if a = ''activating'' then STARTING else STOPPED)"
  unfolding unit_state_def show_value_lines [OF assms] by simp

theorem unit_state_reads_witness:
  "unit_state (''LoadState='' @ ''loaded'' @ [CHR 0x0A] @ ''ActiveState='' @ ''failed'' @ [CHR 0x0A]) =
    (if ''loaded'' = ''not-found'' then NOT_INSTALLED
     else if ''failed'' \<in> {''active'', ''reloading'', ''refreshing''} then OK
     else if ''failed'' = ''activating'' then STARTING else STOPPED)"
  by (rule unit_state_reads) simp_all

end
