(* ===== verification/WindowsService.thy ===== *)
theory WindowsService
  imports Mode
begin

text \<open>
  The Windows service: \<open>service/windows/mod.rs\<close>, \<open>install.rs\<close> and \<open>control.rs\<close> under
  \<open>toolkit/dovetail_privileged_daemon/rust/src\<close>.  The service control manager belongs to the
  system: a world keeps the calls made to it and the time, and says what it answers, given the
  calls before.
\<close>

section \<open>The service control manager\<close>

definition ERROR_ACCESS_DENIED :: int where "ERROR_ACCESS_DENIED = 5"
definition ERROR_SERVICE_DOES_NOT_EXIST :: int where "ERROR_SERVICE_DOES_NOT_EXIST = 1060"
definition ERROR_SERVICE_NOT_ACTIVE :: int where "ERROR_SERVICE_NOT_ACTIVE = 1062"
definition ERROR_SERVICE_DEPENDENCY_FAIL :: int where "ERROR_SERVICE_DEPENDENCY_FAIL = 1068"
definition ERROR_SERVICE_MARKED_FOR_DELETE :: int where "ERROR_SERVICE_MARKED_FOR_DELETE = 1072"
definition ERROR_SERVICE_EXISTS :: int where "ERROR_SERVICE_EXISTS = 1073"
definition ERROR_SERVICE_DEPENDENCY_DELETED :: int where "ERROR_SERVICE_DEPENDENCY_DELETED = 1075"
definition ERROR_SERVICE_ALREADY_RUNNING :: int where "ERROR_SERVICE_ALREADY_RUNNING = 1056"

lemmas win_errors = ERROR_ACCESS_DENIED_def ERROR_SERVICE_DOES_NOT_EXIST_def
  ERROR_SERVICE_NOT_ACTIVE_def ERROR_SERVICE_DEPENDENCY_FAIL_def
  ERROR_SERVICE_MARKED_FOR_DELETE_def ERROR_SERVICE_EXISTS_def
  ERROR_SERVICE_DEPENDENCY_DELETED_def ERROR_SERVICE_ALREADY_RUNNING_def

datatype win_error = Winapi "int option" | OtherWinError

fun codigo_do_erro :: "win_error \<Rightarrow> int option" where
  "codigo_do_erro (Winapi e) = e"
| "codigo_do_erro OtherWinError = None"

datatype service_state =
    SvcStopped | SvcStartPending | SvcStopPending | SvcRunning | SvcContinuePending
  | SvcPausePending | SvcPaused

text \<open>
  The names an application has in the managers of the three systems, \<open>ServiceIdentity\<close> of
  \<open>lib.rs\<close>, and what a service is created with.
\<close>

record ServiceIdentity =
  windows_name :: string
  windows_display :: string
  windows_description :: string
  macos_label :: string
  linux_unit :: string

record ServiceInfo =
  svc_name :: string
  svc_display :: string
  auto_start :: bool
  executable_path :: string
  dependencies :: "string list"

datatype manager_right = CONNECT | CREATE_SERVICE
datatype service_right = CHANGE_CONFIG | START | STOP | QUERY_STATUS | DELETE

datatype scm_call =
    OpenManager "manager_right set"
  | CreateService ServiceInfo "service_right set"
  | OpenService string "service_right set"
  | ChangeConfig ServiceInfo
  | SetDescription string
  | FailureActions nat "nat list"
  | FailureActionsFlag bool
  | RunSc string "string list"
  | StartService
  | ControlStop
  | QueryStatus
  | DeleteService

record ServiceStatus =
  current_state :: service_state
  exit_text :: string

fun state_name :: "service_state \<Rightarrow> string" where
  "state_name SvcStopped = ''Stopped''"
| "state_name SvcStartPending = ''StartPending''"
| "state_name SvcStopPending = ''StopPending''"
| "state_name SvcRunning = ''Running''"
| "state_name SvcContinuePending = ''ContinuePending''"
| "state_name SvcPausePending = ''PausePending''"
| "state_name SvcPaused = ''Paused''"

record scm_world =
  clock :: nat
  scm_calls :: "scm_call list"
  scm_error :: "scm_call list \<Rightarrow> scm_call \<Rightarrow> win_error option"
  scm_status :: "scm_call list \<Rightarrow> ServiceStatus"
  scm_cost :: "scm_call list \<Rightarrow> nat"
  own_exe :: "string + string"
  system_root :: "string option"
  sc_output :: "scm_call list \<Rightarrow> string + (int option \<times> string)"
  debug_error :: "win_error \<Rightarrow> string"

text \<open>One call: its error if it has one, and the time it takes.  A query also reads the status.\<close>

definition scm :: "scm_call \<Rightarrow> scm_world \<Rightarrow> (win_error + unit) \<times> scm_world" where
  "scm c w =
     ((case scm_error w (scm_calls w) c of Some e \<Rightarrow> Inl e | None \<Rightarrow> Inr ()),
      w\<lparr>scm_calls := scm_calls w @ [c], clock := clock w + scm_cost w (scm_calls w)\<rparr>)"

definition scm_query :: "scm_world \<Rightarrow> (win_error + ServiceStatus) \<times> scm_world" where
  "scm_query w =
     (let (r, w') = scm QueryStatus w
      in (case r of Inl e \<Rightarrow> Inl e | Inr _ \<Rightarrow> Inr (scm_status w (scm_calls w)), w'))"

record FalhaSetup =
  codigo :: int
  mensagem :: string

definition falha :: "int \<Rightarrow> string \<Rightarrow> FalhaSetup" where
  "falha c m = \<lparr>codigo = c, mensagem = m\<rparr>"

type_synonym setup_result = "(FalhaSetup + unit) \<times> scm_world"

section \<open>Waiting\<close>

text \<open>The two polling loops; time passes in the queries and in the sleep between them.\<close>

definition stopped_starting :: "ServiceStatus \<Rightarrow> FalhaSetup" where
  "stopped_starting st = falha START_FAILED
     (''o servico parou durante o start ('' @ state_name (current_state st) @ '', '' @ exit_text st @ '')'')"

function aguardar_running :: "nat \<Rightarrow> scm_world \<Rightarrow> setup_result" where
  "aguardar_running limite w =
     (let (r, w1) = scm_query w;
          again = (if limite \<le> clock w1
                   then (Err (falha START_TIMEOUT ''o servico nao ficou RUNNING em 45 s''), w1)
                   else aguardar_running limite (w1\<lparr>clock := clock w1 + 400\<rparr>))
      in case r of
           Inl _ \<Rightarrow> again
         | Inr st \<Rightarrow>
             if current_state st = SvcRunning then (Ok (), w1)
             else if current_state st = SvcStartPending \<or> current_state st = SvcContinuePending then again
             else (Err (stopped_starting st), w1))"
  by pat_completeness auto
termination
  by (relation "measure (\<lambda>(limite, w). limite - clock w)")
    (auto simp: scm_query_def scm_def)

declare aguardar_running.simps [simp del]

function aguardar_stopped :: "nat \<Rightarrow> scm_world \<Rightarrow> setup_result" where
  "aguardar_stopped limite w =
     (let (r, w1) = scm_query w;
          again = (if limite \<le> clock w1
                   then (Err (falha FAILED ''o servico nao chegou a STOPPED em 15 s''), w1)
                   else aguardar_stopped limite (w1\<lparr>clock := clock w1 + 300\<rparr>))
      in case r of
           Inl _ \<Rightarrow> again
         | Inr st \<Rightarrow> if current_state st = SvcStopped then (Ok (), w1) else again)"
  by pat_completeness auto
termination
  by (relation "measure (\<lambda>(limite, w). limite - clock w)")
    (auto simp: scm_query_def scm_def)

declare aguardar_stopped.simps [simp del]

section \<open>Installing\<close>

definition start_code :: "int \<Rightarrow> win_error \<Rightarrow> int" where
  "start_code codigo_acesso_negado e =
     (if codigo_do_erro e \<in> {Some ERROR_SERVICE_DEPENDENCY_FAIL, Some ERROR_SERVICE_DEPENDENCY_DELETED}
      then MISSING_DEPENDENCY
      else if codigo_do_erro e = Some ERROR_ACCESS_DENIED then codigo_acesso_negado
      else START_FAILED)"

definition iniciar_e_aguardar :: "int \<Rightarrow> scm_world \<Rightarrow> setup_result" where
  "iniciar_e_aguardar codigo_acesso_negado w =
     (case scm StartService w of
        (Inl e, w1) \<Rightarrow>
          if codigo_do_erro e = Some ERROR_SERVICE_ALREADY_RUNNING
          then aguardar_running (clock w1 + 45000) w1
          else (Err (falha (start_code codigo_acesso_negado e) (''StartService falhou: '' @ debug_error w e)), w1)
      | (Inr _, w1) \<Rightarrow> aguardar_running (clock w1 + 45000) w1)"

definition denied_or :: "int \<Rightarrow> int \<Rightarrow> win_error \<Rightarrow> int" where
  "denied_or denied other e = (if codigo_do_erro e = Some ERROR_ACCESS_DENIED then denied else other)"

definition service_info :: "ServiceIdentity \<Rightarrow> string \<Rightarrow> ServiceInfo" where
  "service_info i exe =
     \<lparr>svc_name = windows_name i, svc_display = windows_display i, auto_start = True,
      executable_path = exe, dependencies = [''BFE'', ''Nsi'']\<rparr>"

definition acesso :: "service_right set" where
  "acesso = {CHANGE_CONFIG, START, STOP, QUERY_STATUS}"

text \<open>\<open>CreateService\<close>, or the reconfiguration of the service that is there.\<close>

definition criar_ou_reconfigurar :: "ServiceIdentity \<Rightarrow> string \<Rightarrow> scm_world \<Rightarrow> setup_result" where
  "criar_ou_reconfigurar i exe w =
     (case scm (CreateService (service_info i exe) acesso) w of
        (Inr _, w) \<Rightarrow> (Ok (), w)
      | (Inl e, w) \<Rightarrow>
          if codigo_do_erro e = Some ERROR_SERVICE_EXISTS then
            (case scm (OpenService (windows_name i) acesso) w of
               (Inl e, w) \<Rightarrow> (Err (falha (denied_or SCM_ACCESS_DENIED REGISTER_FAILED e)
                                 (''OpenService falhou: '' @ debug_error w e)), w)
             | (Inr _, w) \<Rightarrow>
                 (case scm (ChangeConfig (service_info i exe)) w of
                    (Inl e, w) \<Rightarrow> (Err (falha REGISTER_FAILED (''ChangeServiceConfig falhou: '' @ debug_error w e)), w)
                  | (Inr _, w) \<Rightarrow> (Ok (), w)))
          else if codigo_do_erro e = Some ERROR_SERVICE_MARKED_FOR_DELETE then
            (Err (falha REGISTER_FAILED
               ''o servico esta marcado para exclusao (1072); reinicie o Windows e repita''), w)
          else (Err (falha (denied_or SCM_ACCESS_DENIED REGISTER_FAILED e)
                  (''CreateService falhou: '' @ debug_error w e)), w))"

definition SVC_SDDL :: string where
  "SVC_SDDL = ''D:(A;;CCLCSWRPWPDTLOCRRC;;;SY)(A;;CCDCLCSWRPWPDTLOCRSDRCWDWO;;;BA)(A;;CCLCSWLOCRRC;;;AU)(A;;RP;;;IU)''"

text \<open>
  The access list of the service is set by a run of \<open>sc.exe\<close>, found under the system's root; it
  gives its exit code, if it has one, and its output, or cannot be run.  \<open>win_join\<close> is \<open>Path::join\<close>
  with a relative name: no separator after one, nor after a drive alone.
\<close>

definition win_join :: "string \<Rightarrow> string \<Rightarrow> string" where
  "win_join dir name =
     (if dir = [] \<or> last dir \<in> {CHR 92, CHR ''/''} \<or> (length dir = 2 \<and> last dir = CHR '':'')
      then dir @ name else dir @ CHR 92 # name)"

definition caminho_do_sc :: "string option \<Rightarrow> string" where
  "caminho_do_sc root =
     win_join (win_join (case root of Some r \<Rightarrow> r | None \<Rightarrow> ''C:'' @ CHR 92 # ''Windows'') ''System32'') ''sc.exe''"

definition debug_code :: "int option \<Rightarrow> string" where
  "debug_code c = (case c of None \<Rightarrow> ''None'' | Some n \<Rightarrow> ''Some('' @ show_int n @ '')'')"

definition conceder_start_a_usuarios_interativos ::
  "ServiceIdentity \<Rightarrow> scm_world \<Rightarrow> (string + unit) \<times> scm_world" where
  "conceder_start_a_usuarios_interativos i w =
     ((case sc_output w (scm_calls w) of
         Inl e \<Rightarrow> Err (''nao foi possivel executar sc.exe: '' @ e)
       | Inr (status, text) \<Rightarrow>
           if status = Some 0 then Ok ()
           else Err (''sc sdset retornou '' @ debug_code status @ '': '' @ trim text)),
      snd (scm (RunSc (caminho_do_sc (system_root w)) [''sdset'', windows_name i, SVC_SDDL]) w))"

text \<open>The settings whose failure is only logged; the last is that of the access list.\<close>

definition settings :: "ServiceIdentity \<Rightarrow> scm_call list" where
  "settings i =
     [SetDescription (windows_description i),
      FailureActions 900 [3, 30, 600],
      FailureActionsFlag True]"

definition ajustar :: "ServiceIdentity \<Rightarrow> scm_world \<Rightarrow> scm_world" where
  "ajustar i w =
     snd (conceder_start_a_usuarios_interativos i (fold (\<lambda>c w. snd (scm c w)) (settings i) w))"

definition registrar :: "ServiceIdentity \<Rightarrow> scm_world \<Rightarrow> setup_result" where
  "registrar i w =
     (case own_exe w of
        Inl e \<Rightarrow> (Err (falha REGISTER_FAILED (''current_exe() falhou: '' @ e)), w)
      | Inr exe \<Rightarrow>
          (case scm (OpenManager {CONNECT, CREATE_SERVICE}) w of
             (Inl e, w) \<Rightarrow> (Err (falha (denied_or SCM_ACCESS_DENIED REGISTER_FAILED e)
                               (''OpenSCManager falhou: '' @ debug_error w e)), w)
           | (Inr _, w) \<Rightarrow>
               (case criar_ou_reconfigurar i exe w of
                  (Inl f, w) \<Rightarrow> (Err f, w)
                | (Inr _, w) \<Rightarrow> iniciar_e_aguardar SCM_ACCESS_DENIED (ajustar i w))))"

definition exit_of :: "setup_result \<Rightarrow> int \<times> scm_world" where
  "exit_of s = (case s of (Inl f, w) \<Rightarrow> (codigo f, w) | (Inr _, w) \<Rightarrow> (OK, w))"

definition win_register :: "ServiceIdentity \<Rightarrow> scm_world \<Rightarrow> int \<times> scm_world" where
  "win_register i w = exit_of (registrar i w)"

section \<open>Control\<close>

definition parar_e_aguardar :: "ServiceIdentity \<Rightarrow> scm_world \<Rightarrow> setup_result" where
  "parar_e_aguardar i w =
     (case scm (OpenManager {CONNECT}) w of
        (Inl e, w) \<Rightarrow> (Err (falha FAILED (''OpenSCManager falhou: '' @ debug_error w e)), w)
      | (Inr _, w) \<Rightarrow>
          (case scm (OpenService (windows_name i) {STOP, QUERY_STATUS}) w of
             (Inl e, w) \<Rightarrow>
               if codigo_do_erro e = Some ERROR_SERVICE_DOES_NOT_EXIST then (Ok (), w)
               else (Err (falha FAILED (''OpenService falhou: '' @ debug_error w e)), w)
           | (Inr _, w) \<Rightarrow>
               (case scm ControlStop w of
                  (Inl e, w) \<Rightarrow>
                    if codigo_do_erro e = Some ERROR_SERVICE_NOT_ACTIVE then (Ok (), w)
                    else (Err (falha FAILED (''ControlService falhou: '' @ debug_error w e)), w)
                | (Inr _, w) \<Rightarrow> aguardar_stopped (clock w + 15000) w)))"

definition win_stop :: "ServiceIdentity \<Rightarrow> scm_world \<Rightarrow> int \<times> scm_world" where
  "win_stop i w = exit_of (parar_e_aguardar i w)"

definition remover :: "ServiceIdentity \<Rightarrow> scm_world \<Rightarrow> setup_result" where
  "remover i w =
     (case scm (OpenManager {CONNECT}) w of
        (Inl e, w) \<Rightarrow> (Err (falha FAILED (''OpenSCManager falhou: '' @ debug_error w e)), w)
      | (Inr _, w) \<Rightarrow>
          (case scm (OpenService (windows_name i) {DELETE}) w of
             (Inl e, w) \<Rightarrow>
               if codigo_do_erro e = Some ERROR_SERVICE_DOES_NOT_EXIST then (Ok (), w)
               else (Err (falha FAILED (''OpenService falhou: '' @ debug_error w e)), w)
           | (Inr _, w) \<Rightarrow>
               (case scm DeleteService w of
                  (Inl e, w) \<Rightarrow> (Err (falha FAILED (''DeleteService falhou: '' @ debug_error w e)), w)
                | (Inr _, w) \<Rightarrow> (Ok (), w))))"

definition win_unregister :: "ServiceIdentity \<Rightarrow> scm_world \<Rightarrow> int \<times> scm_world" where
  "win_unregister i w = exit_of (remover i (snd (parar_e_aguardar i w)))"

definition reparar :: "ServiceIdentity \<Rightarrow> scm_world \<Rightarrow> setup_result" where
  "reparar i w =
     (case scm (OpenManager {CONNECT}) w of
        (Inl e, w) \<Rightarrow> (Err (falha (denied_or NEEDS_ELEVATION FAILED e)
                          (''OpenSCManager falhou: '' @ debug_error w e)), w)
      | (Inr _, w) \<Rightarrow>
          (case scm (OpenService (windows_name i) {START, QUERY_STATUS}) w of
             (Inl e, w) \<Rightarrow>
               if codigo_do_erro e = Some ERROR_SERVICE_DOES_NOT_EXIST then
                 (Err (falha NOT_INSTALLED
                    ''o servico nao esta registrado; a instalacao do app esta incompleta''), w)
               else if codigo_do_erro e = Some ERROR_ACCESS_DENIED then
                 (Err (falha NEEDS_ELEVATION
                    ''sem permissao para iniciar o servico; e preciso reparar com elevacao''), w)
               else (Err (falha FAILED (''OpenService falhou: '' @ debug_error w e)), w)
           | (Inr _, w) \<Rightarrow>
               (case scm_query w of
                  (Inr st, w) \<Rightarrow> if current_state st = SvcRunning then (Ok (), w)
                                 else iniciar_e_aguardar NEEDS_ELEVATION w
                | (Inl _, w) \<Rightarrow> iniciar_e_aguardar NEEDS_ELEVATION w)))"

definition win_repair :: "ServiceIdentity \<Rightarrow> scm_world \<Rightarrow> int \<times> scm_world" where
  "win_repair i w = exit_of (reparar i w)"

definition state_code :: "service_state \<Rightarrow> int" where
  "state_code s =
     (if s = SvcRunning then OK
      else if s = SvcStartPending \<or> s = SvcContinuePending then STARTING
      else STOPPED)"

definition win_query :: "ServiceIdentity \<Rightarrow> scm_world \<Rightarrow> int \<times> scm_world" where
  "win_query i w =
     (case scm (OpenManager {CONNECT}) w of
        (Inl e, w) \<Rightarrow> (UNKNOWN, w)
      | (Inr _, w) \<Rightarrow>
          (case scm (OpenService (windows_name i) {QUERY_STATUS}) w of
             (Inl e, w) \<Rightarrow>
               (if codigo_do_erro e = Some ERROR_SERVICE_DOES_NOT_EXIST then NOT_INSTALLED else UNKNOWN, w)
           | (Inr _, w) \<Rightarrow>
               (case scm_query w of
                  (Inl e, w) \<Rightarrow> (UNKNOWN, w)
                | (Inr st, w) \<Rightarrow> (state_code (current_state st), w))))"

section \<open>Running as a service\<close>

text \<open>
  What the manager and the thread of the server answer while the service runs: the error of the
  registration of the control handler, of each report by its position, and of the spawn; whether
  the endpoint answers and whether the thread is over at each turn of the start loop; how the
  thread ends, given whether it was asked to stop, \<open>None\<close> for a panic.
\<close>

datatype ServiceExitCode = Win32 int | ServiceSpecific int

datatype control = Interrogate | StopControl | ShutdownControl | OtherControl

record Report =
  report_state :: service_state
  accepts :: "control set"
  exit_code :: ServiceExitCode
  checkpoint :: nat
  wait_hint :: nat

record win_env =
  handler_error :: "string option"
  report_error :: "nat \<Rightarrow> string option"
  spawn_error :: "string option"
  endpoint_pronto :: "nat \<Rightarrow> bool"
  worker_finished :: "nat \<Rightarrow> bool"
  turn_cost :: "nat \<Rightarrow> nat"
  worker_end :: "bool \<Rightarrow> (string + unit) option"

record win_run =
  now :: nat
  reports :: "Report list"
  stop_sent :: bool

definition service_report :: "service_state \<Rightarrow> control set \<Rightarrow> ServiceExitCode \<Rightarrow> Report" where
  "service_report s a e = \<lparr>report_state = s, accepts = a, exit_code = e, checkpoint = 0, wait_hint = 0\<rparr>"

definition pending :: "nat \<Rightarrow> Report" where
  "pending n = (service_report SvcStartPending {} (Win32 0))\<lparr>checkpoint := n, wait_hint := 20000\<rparr>"

definition running_report :: Report where
  "running_report = service_report SvcRunning {StopControl, ShutdownControl} (Win32 0)"

text \<open>The handler: whether the control is implemented, and whether it asks the server to stop.\<close>

fun event_handler :: "control \<Rightarrow> bool \<times> bool" where
  "event_handler Interrogate = (True, False)"
| "event_handler StopControl = (True, True)"
| "event_handler ShutdownControl = (True, True)"
| "event_handler OtherControl = (False, False)"

definition set_service_status :: "win_env \<Rightarrow> Report \<Rightarrow> win_run \<Rightarrow> string option \<times> win_run" where
  "set_service_status env s r = (report_error env (length (reports r)), r\<lparr>reports := reports r @ [s]\<rparr>)"

function start_loop :: "win_env \<Rightarrow> nat \<Rightarrow> nat \<Rightarrow> win_run \<Rightarrow> bool \<times> win_run" where
  "start_loop env limite k r =
     (if limite \<le> now r then (False, r)
      else if endpoint_pronto env k then (True, r)
      else if worker_finished env k then (False, r)
      else let (_, r1) = set_service_status env (pending (Suc (Suc k))) r
           in start_loop env limite (Suc k) (r1\<lparr>now := now r1 + turn_cost env k + 250\<rparr>))"
  by pat_completeness auto
termination
  by (relation "measure (\<lambda>(env, limite, k, r). limite - now r)")
    (auto simp: set_service_status_def)

declare start_loop.simps [simp del]

definition final_exit :: "(string + unit) \<Rightarrow> bool \<Rightarrow> ServiceExitCode" where
  "final_exit resultado pronto =
     (case resultado of
        Inr _ \<Rightarrow> if pronto then Win32 0 else ServiceSpecific START_TIMEOUT
      | Inl _ \<Rightarrow> ServiceSpecific FAILED)"

definition join_and_report :: "win_env \<Rightarrow> bool \<Rightarrow> win_run \<Rightarrow> (string + unit) \<times> win_run" where
  "join_and_report env pronto r =
     (let resultado = (case worker_end env (stop_sent r) of
                         Some e \<Rightarrow> e
                       | None \<Rightarrow> Err ''a thread de I/O do helper entrou em panico'')
      in (resultado,
          snd (set_service_status env (service_report SvcStopped {} (final_exit resultado pronto)) r)))"

definition win_run_main :: "win_env \<Rightarrow> win_run \<Rightarrow> (string + unit) \<times> win_run" where
  "win_run_main env r =
     (case handler_error env of
        Some e \<Rightarrow> (Err e, r)
      | None \<Rightarrow>
          (case set_service_status env (pending 1) r of
             (Some e, r) \<Rightarrow> (Err e, r)
           | (None, r) \<Rightarrow>
               (case spawn_error env of
                  Some e \<Rightarrow> (Err e, r)
                | None \<Rightarrow>
                    (case start_loop env (now r + 20000) 0 r of
                       (True, r) \<Rightarrow>
                         (case set_service_status env running_report r of
                            (Some e, r) \<Rightarrow> (Err e, r)
                          | (None, r) \<Rightarrow> join_and_report env True r)
                     | (False, r) \<Rightarrow> join_and_report env False (r\<lparr>stop_sent := True\<rparr>)))))"

definition service_main_inner :: "win_env \<Rightarrow> win_run \<Rightarrow> int \<times> win_run" where
  "service_main_inner env r =
     (case win_run_main env r of (Inr _, r) \<Rightarrow> (OK, r) | (Inl _, r) \<Rightarrow> (FAILED, r))"

text \<open>
  The dispatcher runs the service and returns, or is not reached from outside the manager, and
  then the server runs in the foreground.
\<close>

definition win_run_service :: "bool \<Rightarrow> bool \<Rightarrow> win_env \<Rightarrow> win_run \<Rightarrow> int \<times> win_run" where
  "win_run_service attached foreground env r =
     (if attached then service_main_inner env r else (if foreground then OK else FAILED, r))"

definition windows_backend ::
  "ServiceIdentity \<Rightarrow> (scm_world \<Rightarrow> int) \<Rightarrow> (scm_world \<Rightarrow> bool) \<Rightarrow> (scm_world \<Rightarrow> bool) \<Rightarrow> scm_world backend" where
  "windows_backend i serve cleanup_ok foreground =
     \<lparr>run_service = (\<lambda>w. (serve w, w)), register_service = win_register i,
      unregister_service = win_unregister i, stop_service = win_stop i,
      repair_service = win_repair i, query_status = win_query i,
      cleanup = (\<lambda>w. (cleanup_ok w, w)), run_foreground = (\<lambda>w. (foreground w, w))\<rparr>"

section \<open>What a call keeps, and how many there are\<close>

text \<open>At most \<open>n\<close> calls lead from a world to another, which answers the same way.\<close>

definition within :: "nat \<Rightarrow> scm_world \<Rightarrow> scm_world \<Rightarrow> bool" where
  "within n w w' \<longleftrightarrow>
     (\<exists>cs. length cs \<le> n \<and> scm_calls w' = scm_calls w @ cs) \<and> clock w \<le> clock w' \<and>
     scm_error w' = scm_error w \<and> scm_status w' = scm_status w \<and> scm_cost w' = scm_cost w \<and>
     own_exe w' = own_exe w \<and> debug_error w' = debug_error w"

lemma within_refl: "within n w w"
  unfolding within_def by simp

lemma within_trans:
  assumes "within m w w'" and "within n w' w''" and "m + n \<le> k"
  shows "within k w w''"
proof -
  obtain cs where cs: "length cs \<le> m" "scm_calls w' = scm_calls w @ cs"
    using assms(1) unfolding within_def by blast
  obtain ds where ds: "length ds \<le> n" "scm_calls w'' = scm_calls w' @ ds"
    using assms(2) unfolding within_def by blast
  have "length (cs @ ds) \<le> k \<and> scm_calls w'' = scm_calls w @ (cs @ ds)"
    using cs ds assms(3) by simp
  then have "\<exists>es. length es \<le> k \<and> scm_calls w'' = scm_calls w @ es" by blast
  moreover have "clock w \<le> clock w''" using assms(1,2) unfolding within_def by linarith
  ultimately show ?thesis using assms(1,2) unfolding within_def by simp
qed

lemma within_mono: "within m w w' \<Longrightarrow> m \<le> n \<Longrightarrow> within n w w'"
  using within_trans [OF _ within_refl [of 0]] by simp

lemma within_sleep: "within n w w' \<Longrightarrow> within n w (w'\<lparr>clock := clock w' + d\<rparr>)"
  unfolding within_def by simp

lemma within_frame:
  assumes "within n w w'"
  shows "scm_error w' = scm_error w" and "scm_status w' = scm_status w"
    and "own_exe w' = own_exe w" and "clock w \<le> clock w'"
    and "\<exists>cs. length cs \<le> n \<and> scm_calls w' = scm_calls w @ cs"
  using assms unfolding within_def by simp_all

lemma scm_within: "scm c w = (r, w') \<Longrightarrow> within 1 w w'"
  unfolding within_def scm_def by auto

lemma scm_answer:
  assumes "scm c w = (r, w')"
  shows "scm_calls w' = scm_calls w @ [c]" and "scm_error w (scm_calls w) c = None \<longleftrightarrow> r = Inr ()"
    and "scm_error w' = scm_error w" "scm_status w' = scm_status w"
  using assms by (auto simp: scm_def split: option.splits)

lemma scm_query_within: "scm_query w = (r, w') \<Longrightarrow> within 1 w w'"
  using scm_within [of QueryStatus w] by (auto simp: scm_query_def split: prod.splits)

lemma scm_query_answer:
  assumes "scm_query w = (Inr st, w')"
  shows "scm_calls w' = scm_calls w @ [QueryStatus]" and "st = scm_status w (scm_calls w)"
    and "scm_error w (scm_calls w) QueryStatus = None"
  using assms by (auto simp: scm_query_def scm_def Let_def split: option.splits)

lemma within_case:
  assumes "\<And>e w'. scm c w = (Inl e, w') \<Longrightarrow> within n w' (snd (f e w'))"
    and "\<And>u w'. scm c w = (Inr u, w') \<Longrightarrow> within n w' (snd (g u w'))"
  shows "within (Suc n) w (snd (case scm c w of (Inl e, w') \<Rightarrow> f e w' | (Inr u, w') \<Rightarrow> g u w'))"
proof (cases "scm c w")
  case (Pair r w')
  have "within 1 w w'" by (rule scm_within [OF Pair])
  moreover have "within n w' (snd (case r of Inl e \<Rightarrow> f e w' | Inr u \<Rightarrow> g u w'))"
    using assms Pair by (cases r) simp_all
  ultimately show ?thesis by (simp add: Pair within_trans)
qed

lemma within_if:
  "(b \<Longrightarrow> within n w (snd x)) \<Longrightarrow> (\<not> b \<Longrightarrow> within n w (snd y)) \<Longrightarrow>
   within n w (snd (if b then x else y))"
  by simp

lemma within_ret: "within n w (snd (r, w))"
  by (simp add: within_refl)

lemma poll_step:
  fixes limite c d :: nat
  assumes "c < limite" and "0 < d"
  shows "Suc ((limite - (c + d) + (d - 1)) div d + 1) \<le> (limite - c + (d - 1)) div d + 1"
proof (cases "c + d \<le> limite")
  case True
  then have "limite - c + (d - 1) = (limite - (c + d) + (d - 1)) + d" by simp
  then show ?thesis using assms(2) by (metis Suc_eq_plus1 div_add_self2 eq_imp_le less_numeral_extra(3))
next
  case False
  then have "limite - (c + d) + (d - 1) < d" using assms(2) by simp
  moreover have "d \<le> limite - c + (d - 1)" using assms by simp
  ultimately show ?thesis using assms(2) by (simp add: div_greater_zero_iff Suc_le_eq)
qed

lemma poll_mono:
  fixes limite c c' d :: nat
  shows "c \<le> c' \<Longrightarrow> (limite - c' + (d - 1)) div d + 1 \<le> (limite - c + (d - 1)) div d + 1"
  by (simp add: div_le_mono)

definition polls :: "nat \<Rightarrow> nat \<Rightarrow> nat \<Rightarrow> nat" where
  "polls d limite c = (limite - c + (d - 1)) div d + 1"

lemma polls_ge: "Suc 0 \<le> polls d limite c"
  by (simp add: polls_def)

lemma polls_again:
  "0 < d \<Longrightarrow> c \<le> c' \<Longrightarrow> c' < limite \<Longrightarrow> Suc (polls d limite (c' + d)) \<le> polls d limite c"
  using poll_step [of c' limite d] poll_mono [of c c' limite d] unfolding polls_def by linarith

lemma aguardar_running_within: "within (polls 400 limite (clock w)) w (snd (aguardar_running limite w))"
proof (induction limite w rule: aguardar_running.induct)
  case (1 limite w)
  obtain r w1 where q: "scm_query w = (r, w1)" by fastforce
  have one: "within 1 w w1" by (rule scm_query_within [OF q])
  have here: "within (polls 400 limite (clock w)) w w1"
    by (rule within_mono [OF one]) (simp add: polls_ge)
  have again: "within (polls 400 limite (clock w)) w
      (snd (aguardar_running limite (w1\<lparr>clock := clock w1 + 400\<rparr>)))" if "\<not> limite \<le> clock w1"
  proof (rule within_trans [OF within_sleep [OF one, of 400] 1(1)])
    show "1 + polls 400 limite (clock (w1\<lparr>clock := clock w1 + 400\<rparr>)) \<le> polls 400 limite (clock w)"
      using polls_again [of 400 "clock w" "clock w1" limite] within_frame(4) [OF one] that by simp
  qed (use q that in auto)
  show ?case
    using here again q
    by (subst aguardar_running.simps) (auto simp: Let_def split: sum.splits)
qed

lemma aguardar_stopped_within: "within (polls 300 limite (clock w)) w (snd (aguardar_stopped limite w))"
proof (induction limite w rule: aguardar_stopped.induct)
  case (1 limite w)
  obtain r w1 where q: "scm_query w = (r, w1)" by fastforce
  have one: "within 1 w w1" by (rule scm_query_within [OF q])
  have here: "within (polls 300 limite (clock w)) w w1"
    by (rule within_mono [OF one]) (simp add: polls_ge)
  have again: "within (polls 300 limite (clock w)) w
      (snd (aguardar_stopped limite (w1\<lparr>clock := clock w1 + 300\<rparr>)))" if "\<not> limite \<le> clock w1"
  proof (rule within_trans [OF within_sleep [OF one, of 300] 1(1)])
    show "1 + polls 300 limite (clock (w1\<lparr>clock := clock w1 + 300\<rparr>)) \<le> polls 300 limite (clock w)"
      using polls_again [of 300 "clock w" "clock w1" limite] within_frame(4) [OF one] that by simp
  qed (use q that in auto)
  show ?case
    using here again q
    by (subst aguardar_stopped.simps) (auto simp: Let_def split: sum.splits)
qed

lemma start_wait_within: "within 114 w (snd (aguardar_running (clock w + 45000) w))"
  using aguardar_running_within [of "clock w + 45000" w] by (simp add: polls_def)

lemma stop_wait_within: "within 51 w (snd (aguardar_stopped (clock w + 15000) w))"
  using aguardar_stopped_within [of "clock w + 15000" w] by (simp add: polls_def)

lemma iniciar_within: "within 115 w (snd (iniciar_e_aguardar d w))"
proof -
  have "within (Suc 114) w (snd (iniciar_e_aguardar d w))"
    unfolding iniciar_e_aguardar_def
    by (intro within_case within_if within_ret start_wait_within)
  then show ?thesis by simp
qed

lemma criar_within: "within 3 w (snd (criar_ou_reconfigurar i exe w))"
proof -
  have "within (Suc (Suc (Suc 0))) w (snd (criar_ou_reconfigurar i exe w))"
    unfolding criar_ou_reconfigurar_def
    by (intro within_case within_if within_ret)
  then show ?thesis by (simp add: numeral_3_eq_3)
qed

lemma calls_within: "within (length cs) w (fold (\<lambda>c w. snd (scm c w)) cs w)"
proof (induction cs arbitrary: w)
  case (Cons c cs)
  have "within 1 w (snd (scm c w))" by (rule scm_within [OF surjective_pairing])
  then show ?case using within_trans [OF _ Cons, of 1 w] by simp
qed (simp add: within_refl)

lemma ajustar_within: "within 4 w (ajustar i w)"
proof -
  have "length (settings i) = 3" by (simp add: settings_def)
  then have three: "within 3 w (fold (\<lambda>c w. snd (scm c w)) (settings i) w)"
    using calls_within [of "settings i" w] by simp
  show ?thesis
    unfolding ajustar_def conceder_start_a_usuarios_interativos_def snd_conv
    by (rule within_trans [OF three scm_within [OF surjective_pairing]]) simp
qed

lemma registrar_within: "within 123 w (snd (registrar i w))"
proof (cases "own_exe w")
  case (Inr exe)
  have created: "within 122 w' (snd (case criar_ou_reconfigurar i exe w' of
      (Inl f, w) \<Rightarrow> (Err f, w) | (Inr _, w) \<Rightarrow> iniciar_e_aguardar SCM_ACCESS_DENIED (ajustar i w)))" for w'
  proof (cases "criar_ou_reconfigurar i exe w'")
    case (Pair r w1)
    have c: "within 3 w' w1" using criar_within [of w' i exe] Pair by simp
    have "within 119 w1 (snd (iniciar_e_aguardar SCM_ACCESS_DENIED (ajustar i w1)))"
      by (rule within_trans [OF ajustar_within iniciar_within]) simp
    then show ?thesis
      using Pair within_trans [OF c] within_mono [OF c] by (cases r) simp_all
  qed
  then have "within (Suc 122) w (snd (registrar i w))"
    unfolding registrar_def Inr sum.case by (intro within_case within_ret created)
  then show ?thesis by simp
qed (simp add: registrar_def within_refl)

lemma parar_within: "within 54 w (snd (parar_e_aguardar i w))"
proof -
  have "within (Suc (Suc (Suc 51))) w (snd (parar_e_aguardar i w))"
    unfolding parar_e_aguardar_def
    by (intro within_case within_if within_ret stop_wait_within)
  then show ?thesis by simp
qed

lemma remover_within: "within 3 w (snd (remover i w))"
proof -
  have "within (Suc (Suc (Suc 0))) w (snd (remover i w))"
    unfolding remover_def by (intro within_case within_if within_ret)
  then show ?thesis by (simp add: numeral_3_eq_3)
qed

lemma reparar_within: "within 118 w (snd (reparar i w))"
proof -
  have q: "within 116 w' (snd (case scm_query w' of
      (Inr st, w) \<Rightarrow> if current_state st = SvcRunning then (Ok (), w)
                     else iniciar_e_aguardar NEEDS_ELEVATION w
    | (Inl _, w) \<Rightarrow> iniciar_e_aguardar NEEDS_ELEVATION w))" for w'
  proof (cases "scm_query w'")
    case (Pair r w1)
    have c: "within 1 w' w1" by (rule scm_query_within [OF Pair])
    show ?thesis
      using Pair within_trans [OF c iniciar_within] within_mono [OF c] by (cases r) simp_all
  qed
  have "within (Suc (Suc 116)) w (snd (reparar i w))"
    unfolding reparar_def by (intro within_case within_if within_ret q)
  then show ?thesis by simp
qed

lemma exit_of_world: "snd (exit_of s) = snd s"
  by (simp add: exit_of_def split: prod.splits sum.splits)

lemma aguardar_running_ok:
  "aguardar_running limite w = (Inr (), w') \<Longrightarrow>
     \<exists>pre. scm_calls w' = pre @ [QueryStatus] \<and> scm_error w pre QueryStatus = None \<and>
           current_state (scm_status w pre) = SvcRunning \<and> (\<exists>cs. pre = scm_calls w @ cs)"
proof (induction limite w rule: aguardar_running.induct)
  case (1 limite w)
  obtain r w1 where q: "scm_query w = (r, w1)" by fastforce
  have one: "within 1 w w1" by (rule scm_query_within [OF q])
  show ?case
  proof (cases "\<exists>st. r = Inr st \<and> current_state st = SvcRunning")
    case True
    then have "w' = w1" using 1(2) q by (subst (asm) aguardar_running.simps) (auto simp: Let_def)
    then show ?thesis using True q scm_query_answer [of w _ w1] by auto
  next
    case False
    then have again: "\<not> limite \<le> clock w1"
        "aguardar_running limite (w1\<lparr>clock := clock w1 + 400\<rparr>) = (Inr (), w')"
      using 1(2) q
      by (subst (asm) aguardar_running.simps, auto simp: Let_def split: sum.splits if_splits)+
    then obtain pre where pre: "scm_calls w' = pre @ [QueryStatus]"
        "scm_error w1 pre QueryStatus = None" "current_state (scm_status w1 pre) = SvcRunning"
        "\<exists>cs. pre = scm_calls w1 @ cs"
      using 1(1) [OF q [symmetric]] by fastforce
    then show ?thesis
      using within_frame [OF one] by (metis append_assoc)
  qed
qed

section \<open>The exit codes\<close>

lemma denied_or_cases: "denied_or a b e \<in> {a, b}"
  by (simp add: denied_or_def)

lemma codigo_falha [simp]: "codigo (falha c m) = c"
  by (simp add: falha_def)

lemma aguardar_running_codes:
  "aguardar_running limite w = (Inl f, w') \<Longrightarrow> codigo f \<in> {START_FAILED, START_TIMEOUT}"
proof (induction limite w rule: aguardar_running.induct)
  case (1 limite w)
  obtain r w1 where q: "scm_query w = (r, w1)" by fastforce
  show ?case
    using 1(2) 1(1) [OF q [symmetric]] q
    by (subst (asm) aguardar_running.simps)
      (auto simp: Let_def stopped_starting_def split: sum.splits if_splits)
qed

lemma aguardar_stopped_codes:
  "aguardar_stopped limite w = (Inl f, w') \<Longrightarrow> codigo f = FAILED"
proof (induction limite w rule: aguardar_stopped.induct)
  case (1 limite w)
  obtain r w1 where q: "scm_query w = (r, w1)" by fastforce
  show ?case
    using 1(2) 1(1) [OF q [symmetric]] q
    by (subst (asm) aguardar_stopped.simps) (auto simp: Let_def split: sum.splits if_splits)
qed

lemma iniciar_codes:
  assumes "iniciar_e_aguardar d w = (Inl f, w')"
  shows "codigo f \<in> {START_FAILED, START_TIMEOUT, MISSING_DEPENDENCY, d}"
  using assms
  by (auto simp: iniciar_e_aguardar_def start_code_def split: prod.splits sum.splits if_splits
      dest!: aguardar_running_codes)

lemma criar_codes:
  assumes "criar_ou_reconfigurar i exe w = (Inl f, w')"
  shows "codigo f \<in> {SCM_ACCESS_DENIED, REGISTER_FAILED}"
  using assms
  by (auto simp: criar_ou_reconfigurar_def denied_or_def split: prod.splits sum.splits if_splits)

lemma registrar_codes:
  assumes "registrar i w = (Inl f, w')"
  shows "codigo f \<in> {SCM_ACCESS_DENIED, REGISTER_FAILED, START_FAILED, START_TIMEOUT, MISSING_DEPENDENCY}"
  using assms
  by (auto simp: registrar_def denied_or_def split: prod.splits sum.splits if_splits
      dest!: iniciar_codes criar_codes)

lemma parar_codes: "parar_e_aguardar i w = (Inl f, w') \<Longrightarrow> codigo f = FAILED"
  by (auto simp: parar_e_aguardar_def split: prod.splits sum.splits if_splits
      dest!: aguardar_stopped_codes)

lemma remover_codes: "remover i w = (Inl f, w') \<Longrightarrow> codigo f = FAILED"
  by (auto simp: remover_def split: prod.splits sum.splits if_splits)

lemma reparar_codes:
  assumes "reparar i w = (Inl f, w')"
  shows "codigo f \<in> {NEEDS_ELEVATION, NOT_INSTALLED, FAILED, START_FAILED, START_TIMEOUT, MISSING_DEPENDENCY}"
  using assms
  by (auto simp: reparar_def denied_or_def split: prod.splits sum.splits if_splits
      dest!: iniciar_codes)

lemma exit_of_codes:
  "(\<And>f w'. s = (Inl f, w') \<Longrightarrow> codigo f \<in> C) \<Longrightarrow> fst (exit_of s) \<in> insert OK C"
  by (auto simp: exit_of_def split: prod.splits sum.splits)

lemma exit_of_ok:
  "(\<And>f w'. s = (Inl f, w') \<Longrightarrow> codigo f \<noteq> OK) \<Longrightarrow> exit_of s = (OK, w') \<Longrightarrow> s = (Inr (), w')"
  by (auto simp: exit_of_def split: prod.splits sum.splits)

section \<open>What a success means\<close>

lemma iniciar_ok:
  assumes "iniciar_e_aguardar d w = (Inr (), w')"
  shows "\<exists>cs. scm_calls w' = scm_calls w @ cs @ [QueryStatus] \<and>
           scm_error w (scm_calls w @ cs) QueryStatus = None \<and>
           current_state (scm_status w (scm_calls w @ cs)) = SvcRunning"
proof -
  obtain r w1 where s: "scm StartService w = (r, w1)" by fastforce
  have "aguardar_running (clock w1 + 45000) w1 = (Inr (), w')"
    using assms s by (auto simp: iniciar_e_aguardar_def split: sum.splits if_splits)
  then obtain cs where "scm_calls w' = (scm_calls w1 @ cs) @ [QueryStatus]"
      "scm_error w1 (scm_calls w1 @ cs) QueryStatus = None"
      "current_state (scm_status w1 (scm_calls w1 @ cs)) = SvcRunning"
    using aguardar_running_ok by metis
  then show ?thesis
    using scm_answer [OF s] by (intro exI [of _ "StartService # cs"]) simp
qed

lemma criar_ok:
  assumes "criar_ou_reconfigurar i exe w = (Inr (), w')"
  shows "\<exists>p c. c \<in> {CreateService (service_info i exe) acesso, ChangeConfig (service_info i exe)} \<and>
           scm_calls w' = scm_calls w @ p @ [c] \<and> scm_error w (scm_calls w @ p) c = None"
proof -
  obtain r w1 where a: "scm (CreateService (service_info i exe) acesso) w = (r, w1)" by fastforce
  show ?thesis
  proof (cases r)
    case (Inr u)
    then have "w' = w1" using assms a by (simp add: criar_ou_reconfigurar_def)
    then show ?thesis using scm_answer [OF a] Inr by (intro exI [of _ "[]"] exI) auto
  next
    case (Inl e)
    obtain r2 w2 where b: "scm (OpenService (windows_name i) acesso) w1 = (r2, w2)" by fastforce
    obtain r3 w3 where c: "scm (ChangeConfig (service_info i exe)) w2 = (r3, w3)" by fastforce
    have "r3 = Inr () \<and> w' = w3"
      using assms a b c Inl
      by (auto simp: criar_ou_reconfigurar_def split: sum.splits if_splits)
    then show ?thesis
      using scm_answer [OF a] scm_answer [OF b] scm_answer [OF c]
      by (intro exI [of _ "[CreateService (service_info i exe) acesso, OpenService (windows_name i) acesso]"]
          exI [of _ "ChangeConfig (service_info i exe)"]) simp
  qed
qed

lemma polls_spent:
  assumes "a < limite" and "m \<le> polls 250 limite (a + cost + 250) - 1"
  shows "Suc m \<le> polls 250 limite a - 1"
proof -
  have "Suc (polls 250 limite (a + cost + 250)) \<le> polls 250 limite a" if "a + cost < limite"
    using polls_again [of 250 a "a + cost" limite] that by simp
  moreover have "m = 0" if "\<not> a + cost < limite"
    using assms(2) that by (simp add: polls_def)
  moreover have "2 \<le> polls 250 limite a"
    unfolding polls_def using assms(1) by linarith
  moreover have "1 \<le> polls 250 limite (a + cost + 250)" by (simp add: polls_def)
  ultimately show ?thesis using assms(2) by fastforce
qed

text \<open>
  Where the loop stops: at the first poll for which the time is up, the endpoint answers or the
  thread has ended; the clock then stands where the turns before left it.
\<close>

lemma start_loop_runs:
  "start_loop env limite k r = (b, r') \<Longrightarrow>
     \<exists>m. reports r' = reports r @ map pending [Suc (Suc k)..<Suc (Suc (k + m))] \<and>
         stop_sent r' = stop_sent r \<and> m \<le> polls 250 limite (now r) - 1 \<and>
         (\<forall>j<m. now r + (\<Sum>i<j. turn_cost env (k + i) + 250) < limite \<and>
            \<not> endpoint_pronto env (k + j) \<and> \<not> worker_finished env (k + j)) \<and>
         (limite \<le> now r + (\<Sum>i<m. turn_cost env (k + i) + 250) \<or> endpoint_pronto env (k + m) \<or>
            worker_finished env (k + m)) \<and>
         (b \<longleftrightarrow> now r + (\<Sum>i<m. turn_cost env (k + i) + 250) < limite \<and> endpoint_pronto env (k + m))"
proof (induction env limite k r arbitrary: b r' rule: start_loop.induct)
  case (1 env limite k r)
  show ?case
  proof (cases "limite \<le> now r \<or> endpoint_pronto env k \<or> worker_finished env k")
    case True
    then have "r' = r" "b \<longleftrightarrow> now r < limite \<and> endpoint_pronto env k"
      using 1(2) by (subst (asm) start_loop.simps, auto split: if_splits)+
    then show ?thesis using True by (intro exI [of _ 0]) simp
  next
    case False
    define r1 where "r1 = snd (set_service_status env (pending (Suc (Suc k))) r)"
    define r2 where "r2 = r1\<lparr>now := now r1 + turn_cost env k + 250\<rparr>"
    have r2: "reports r2 = reports r @ [pending (Suc (Suc k))]" "stop_sent r2 = stop_sent r"
        "now r2 = now r + turn_cost env k + 250"
      by (simp_all add: r2_def r1_def set_service_status_def)
    have rec: "start_loop env limite (Suc k) r2 = (b, r')"
      using 1(2) False
      by (subst (asm) start_loop.simps) (simp add: r2_def r1_def case_prod_beta Let_def)
    have step: "(fst (set_service_status env (pending (Suc (Suc k))) r), r1) =
        set_service_status env (pending (Suc (Suc k))) r"
      by (simp add: r1_def)
    have clock: "now r2 + (\<Sum>i<j. turn_cost env (Suc k + i) + 250) =
        now r + (\<Sum>i<Suc j. turn_cost env (k + i) + 250)" for j
      unfolding sum.lessThan_Suc_shift using r2(3) by simp
    obtain m where m: "reports r' = reports r2 @ map pending [Suc (Suc (Suc k))..<Suc (Suc (Suc k + m))]"
        "stop_sent r' = stop_sent r2" "m \<le> polls 250 limite (now r2) - 1"
        "\<forall>j<m. now r + (\<Sum>i<Suc j. turn_cost env (k + i) + 250) < limite \<and>
           \<not> endpoint_pronto env (Suc k + j) \<and> \<not> worker_finished env (Suc k + j)"
        "limite \<le> now r + (\<Sum>i<Suc m. turn_cost env (k + i) + 250) \<or> endpoint_pronto env (Suc k + m) \<or>
           worker_finished env (Suc k + m)"
        "b \<longleftrightarrow> now r + (\<Sum>i<Suc m. turn_cost env (k + i) + 250) < limite \<and> endpoint_pronto env (Suc k + m)"
      using 1(1) [OF _ _ _ refl step] False rec unfolding r2_def [symmetric] clock by blast
    have "[Suc (Suc k)..<Suc (Suc (k + Suc m))] = Suc (Suc k) # [Suc (Suc (Suc k))..<Suc (Suc (Suc k + m))]"
      by (simp add: upt_conv_Cons)
    moreover have "Suc m \<le> polls 250 limite (now r) - 1"
      by (rule polls_spent [where cost = "turn_cost env k"]) (use False m(3) r2(3) in simp_all)
    moreover have "now r + (\<Sum>i<j. turn_cost env (k + i) + 250) < limite \<and>
        \<not> endpoint_pronto env (k + j) \<and> \<not> worker_finished env (k + j)" if "j < Suc m" for j
    proof (cases j)
      case 0
      then show ?thesis using False by simp
    next
      case (Suc j')
      then show ?thesis using m(4) that by simp
    qed
    ultimately show ?thesis
      using m(1,2,5,6) r2(1,2)
      by (intro exI [of _ "Suc m"]) (simp del: upt_Suc sum.lessThan_Suc)
  qed
qed

section \<open>Properties\<close>

text \<open>
  C33: an installation that exits with OK has created the service, or reconfigured the one that
  was there, for the executable that ran it, without an error, and the manager's last answer was
  that the service runs.
\<close>

theorem win_register_running:
  assumes "win_register i w = (OK, w')"
  shows "\<exists>exe before c after.
    own_exe w = Inr exe \<and>
    c \<in> {CreateService (service_info i exe) acesso, ChangeConfig (service_info i exe)} \<and>
    scm_error w (scm_calls w @ before) c = None \<and>
    scm_calls w' = scm_calls w @ before @ [c] @ after @ [QueryStatus] \<and>
    scm_error w (scm_calls w @ before @ [c] @ after) QueryStatus = None \<and>
    current_state (scm_status w (scm_calls w @ before @ [c] @ after)) = SvcRunning"
proof -
  have r: "registrar i w = (Inr (), w')"
    using exit_of_ok [of "registrar i w" w'] registrar_codes [of i w] assms
    by (fastforce simp: win_register_def exit_codes)
  obtain exe where exe: "own_exe w = Inr exe" using r by (cases "own_exe w") (simp_all add: registrar_def)
  obtain r1 w1 where a: "scm (OpenManager {CONNECT, CREATE_SERVICE}) w = (r1, w1)" by fastforce
  obtain r2 w2 where b: "criar_ou_reconfigurar i exe w1 = (r2, w2)" by fastforce
  have ok2: "r2 = Inr ()" and start: "iniciar_e_aguardar SCM_ACCESS_DENIED (ajustar i w2) = (Inr (), w')"
    using r exe a b by (auto simp: registrar_def split: sum.splits)
  obtain p c where pc: "c \<in> {CreateService (service_info i exe) acesso, ChangeConfig (service_info i exe)}"
      "scm_calls w2 = scm_calls w1 @ p @ [c]" "scm_error w1 (scm_calls w1 @ p) c = None"
    using criar_ok b ok2 by metis
  have frame: "within 3 w1 w2" "within 4 w2 (ajustar i w2)"
    using criar_within [of w1 i exe] b ajustar_within by simp_all
  obtain ds where ds: "scm_calls (ajustar i w2) = scm_calls w2 @ ds"
    using within_frame(5) [OF frame(2)] by blast
  obtain cs where cs: "scm_calls w' = scm_calls (ajustar i w2) @ cs @ [QueryStatus]"
      "scm_error (ajustar i w2) (scm_calls (ajustar i w2) @ cs) QueryStatus = None"
      "current_state (scm_status (ajustar i w2) (scm_calls (ajustar i w2) @ cs)) = SvcRunning"
    using iniciar_ok [OF start] by blast
  have "scm_error (ajustar i w2) = scm_error w" "scm_status (ajustar i w2) = scm_status w"
      "scm_error w1 = scm_error w"
    using within_frame [OF frame(1)] within_frame [OF frame(2)] scm_answer [OF a] by simp_all
  then show ?thesis
    using exe pc cs ds scm_answer(1) [OF a]
    by (intro exI [of _ exe] exI [of _ "OpenManager {CONNECT, CREATE_SERVICE} # p"] exI [of _ c]
        exI [of _ "ds @ cs"]) simp
qed

definition example_scm :: scm_world where
  "example_scm = \<lparr>clock = 0, scm_calls = [], scm_error = (\<lambda>_ _. None),
     scm_status = (\<lambda>_. \<lparr>current_state = SvcRunning, exit_text = []\<rparr>), scm_cost = (\<lambda>_. 1),
     own_exe = Inr ''C:/h.exe'', system_root = None,
     sc_output = (\<lambda>_. Inr (Some 0, [])), debug_error = (\<lambda>_. [])\<rparr>"

definition example_identity :: ServiceIdentity where
  "example_identity = \<lparr>windows_name = ''h'', windows_display = ''H'', windows_description = ''d'',
     macos_label = ''l'', linux_unit = ''u''\<rparr>"

lemma example_install:
  "win_register example_identity example_scm =
     (OK, snd (win_register example_identity example_scm))"
  by (simp add: win_register_def registrar_def example_scm_def scm_def criar_ou_reconfigurar_def
      ajustar_def settings_def conceder_start_a_usuarios_interativos_def iniciar_e_aguardar_def aguardar_running.simps scm_query_def Let_def
      exit_of_def)

theorem win_register_running_witness:
  "\<exists>exe before c after.
    own_exe example_scm = Inr exe \<and>
    c \<in> {CreateService (service_info example_identity exe) acesso,
          ChangeConfig (service_info example_identity exe)} \<and>
    scm_error example_scm (scm_calls example_scm @ before) c = None \<and>
    scm_calls (snd (win_register example_identity example_scm)) =
      scm_calls example_scm @ before @ [c] @ after @ [QueryStatus] \<and>
    scm_error example_scm (scm_calls example_scm @ before @ [c] @ after) QueryStatus = None \<and>
    current_state (scm_status example_scm (scm_calls example_scm @ before @ [c] @ after)) = SvcRunning"
  by (rule win_register_running [OF example_install])

text \<open>
  C34: whatever the manager answers, the four operations that change the service end, after at
  most the calls their time limits leave room for, and exit with a code of their own: of the
  installation's none but the ones of its steps, and the removal never fails for a service that
  does not stop.
\<close>

theorem win_operations_end:
  "within 123 w (snd (win_register i w)) \<and>
   fst (win_register i w) \<in> {OK, SCM_ACCESS_DENIED, REGISTER_FAILED, START_FAILED, START_TIMEOUT, MISSING_DEPENDENCY} \<and>
   within 54 w (snd (win_stop i w)) \<and> fst (win_stop i w) \<in> {OK, FAILED} \<and>
   within 57 w (snd (win_unregister i w)) \<and>
   win_unregister i w = exit_of (remover i (snd (win_stop i w))) \<and>
   within 118 w (snd (win_repair i w)) \<and>
   fst (win_repair i w) \<in> {OK, NEEDS_ELEVATION, NOT_INSTALLED, FAILED, START_FAILED, START_TIMEOUT, MISSING_DEPENDENCY}"
proof (intro conjI)
  show "fst (win_register i w) \<in>
      {OK, SCM_ACCESS_DENIED, REGISTER_FAILED, START_FAILED, START_TIMEOUT, MISSING_DEPENDENCY}"
    unfolding win_register_def by (rule exit_of_codes) (rule registrar_codes)
  show "fst (win_stop i w) \<in> {OK, FAILED}"
    unfolding win_stop_def by (rule exit_of_codes) (simp add: parar_codes)
  show "fst (win_repair i w) \<in>
      {OK, NEEDS_ELEVATION, NOT_INSTALLED, FAILED, START_FAILED, START_TIMEOUT, MISSING_DEPENDENCY}"
    unfolding win_repair_def by (rule exit_of_codes) (rule reparar_codes)
  show "within 57 w (snd (win_unregister i w))"
    unfolding win_unregister_def exit_of_world
    by (rule within_trans [OF parar_within remover_within]) simp
qed (simp_all add: win_register_def win_stop_def win_unregister_def win_repair_def exit_of_world
    registrar_within parar_within reparar_within)

text \<open>The two halves of a run: the reports until the service is ready or given up, and the rest.\<close>

lemma start_loop_reports:
  assumes "start_loop env (now r + 20000) 0 r = (b, r')" and "reports r = [pending 1]"
  obtains m where "reports r' = map pending [1..<m + 2]" "stop_sent r' = stop_sent r" "m \<le> 80"
    "\<forall>j<m. (\<Sum>i<j. turn_cost env i + 250) < 20000 \<and> \<not> endpoint_pronto env j \<and> \<not> worker_finished env j"
    "20000 \<le> (\<Sum>i<m. turn_cost env i + 250) \<or> endpoint_pronto env m \<or> worker_finished env m"
    "b \<longleftrightarrow> (\<Sum>i<m. turn_cost env i + 250) < 20000 \<and> endpoint_pronto env m"
proof -
  obtain m where m: "reports r' = reports r @ map pending [Suc (Suc 0)..<Suc (Suc (0 + m))]"
      "stop_sent r' = stop_sent r" "m \<le> polls 250 (now r + 20000) (now r) - 1"
      "\<forall>j<m. now r + (\<Sum>i<j. turn_cost env (0 + i) + 250) < now r + 20000 \<and>
         \<not> endpoint_pronto env (0 + j) \<and> \<not> worker_finished env (0 + j)"
      "now r + 20000 \<le> now r + (\<Sum>i<m. turn_cost env (0 + i) + 250) \<or> endpoint_pronto env (0 + m) \<or>
         worker_finished env (0 + m)"
      "b \<longleftrightarrow> now r + (\<Sum>i<m. turn_cost env (0 + i) + 250) < now r + 20000 \<and> endpoint_pronto env (0 + m)"
    using start_loop_runs [OF assms(1)] by blast
  have "[1..<m + 2] = Suc 0 # [Suc (Suc 0)..<Suc (Suc (0 + m))]"
    by (subst upt_conv_Cons) (simp_all del: upt_Suc)
  then have "reports r' = map pending [1..<m + 2]" using m(1) assms(2) by (simp del: upt_Suc)
  moreover have "m \<le> 80" using m(3) by (simp add: polls_def)
  ultimately show thesis using m(2,4-6) unfolding add_0 nat_add_left_cancel_less nat_add_left_cancel_le by (intro that [of m])
qed

lemma end_reports:
  assumes "(res, r') =
      (if b then (case set_service_status env running_report r2 of
                    (Some e, r) \<Rightarrow> (Inl e, r) | (None, r) \<Rightarrow> join_and_report env True r)
       else join_and_report env False (r2\<lparr>stop_sent := True\<rparr>))"
    and "length (reports r2) = Suc m" and "\<not> stop_sent r2"
  shows "(stop_sent r' \<longleftrightarrow> \<not> b) \<and>
    (case (if b then report_error env (Suc m) else None) of
       Some e \<Rightarrow> res = Inl e \<and> reports r' = reports r2 @ [running_report]
     | None \<Rightarrow>
         res = (case worker_end env (\<not> b) of
                  Some x \<Rightarrow> x | None \<Rightarrow> Inl ''a thread de I/O do helper entrou em panico'') \<and>
         reports r' = reports r2 @ (if b then [running_report] else []) @
           [service_report SvcStopped {}
             (case res of Inl _ \<Rightarrow> ServiceSpecific FAILED
              | Inr _ \<Rightarrow> if b then Win32 0 else ServiceSpecific START_TIMEOUT)])"
proof (cases b)
  case True
  then show ?thesis
    using assms
    by (cases "report_error env (Suc m)")
      (simp_all add: set_service_status_def join_and_report_def Let_def final_exit_def)
qed (use assms in \<open>simp add: set_service_status_def join_and_report_def Let_def final_exit_def\<close>)

text \<open>
  C35: a start that gets its control handler and its thread reports pending with rising
  checkpoints, at most eighty times after the first, up to the first poll at which twenty seconds
  have passed, the endpoint answers or the thread has ended.  It then reports running exactly if the
  endpoint answered in time; otherwise the server is asked to stop.  Last, unless reporting that it
  runs failed, it reports that it is stopped, with the code of how the server ended.
\<close>

theorem win_run_reports:
  assumes "handler_error env = None" and "report_error env 0 = None" and "spawn_error env = None"
    and "reports r = []" and "\<not> stop_sent r" and "win_run_main env r = (res, r')"
  shows "\<exists>m pronto. m \<le> 80 \<and>
    (\<forall>j<m. (\<Sum>i<j. turn_cost env i + 250) < 20000 \<and> \<not> endpoint_pronto env j \<and> \<not> worker_finished env j) \<and>
    (20000 \<le> (\<Sum>i<m. turn_cost env i + 250) \<or> endpoint_pronto env m \<or> worker_finished env m) \<and>
    (pronto \<longleftrightarrow> (\<Sum>i<m. turn_cost env i + 250) < 20000 \<and> endpoint_pronto env m) \<and> (stop_sent r' \<longleftrightarrow> \<not> pronto) \<and>
    (case (if pronto then report_error env (Suc m) else None) of
       Some e \<Rightarrow> res = Inl e \<and> reports r' = map pending [1..<m + 2] @ [running_report]
     | None \<Rightarrow>
         res = (case worker_end env (\<not> pronto) of
                  Some x \<Rightarrow> x | None \<Rightarrow> Inl ''a thread de I/O do helper entrou em panico'') \<and>
         reports r' = map pending [1..<m + 2] @ (if pronto then [running_report] else []) @
           [service_report SvcStopped {}
             (case res of Inl _ \<Rightarrow> ServiceSpecific FAILED
              | Inr _ \<Rightarrow> if pronto then Win32 0 else ServiceSpecific START_TIMEOUT)])"
proof -
  define r1 where "r1 = r\<lparr>reports := [pending 1]\<rparr>"
  have first: "set_service_status env (pending 1) r = (None, r1)"
    using assms(2,4) by (simp add: set_service_status_def r1_def)
  obtain b r2 where loop: "start_loop env (now r1 + 20000) 0 r1 = (b, r2)" by fastforce
  have "reports r1 = [pending 1]" by (simp add: r1_def)
  from start_loop_reports [OF loop this] obtain m where m: "reports r2 = map pending [1..<m + 2]"
    "stop_sent r2 = stop_sent r1" "m \<le> 80"
    "\<forall>j<m. (\<Sum>i<j. turn_cost env i + 250) < 20000 \<and> \<not> endpoint_pronto env j \<and> \<not> worker_finished env j"
    "20000 \<le> (\<Sum>i<m. turn_cost env i + 250) \<or> endpoint_pronto env m \<or> worker_finished env m"
    "b \<longleftrightarrow> (\<Sum>i<m. turn_cost env i + 250) < 20000 \<and> endpoint_pronto env m" .
  have res: "(res, r') =
      (if b then (case set_service_status env running_report r2 of
                    (Some e, r) \<Rightarrow> (Inl e, r) | (None, r) \<Rightarrow> join_and_report env True r)
       else join_and_report env False (r2\<lparr>stop_sent := True\<rparr>))"
    using assms(6) loop unfolding win_run_main_def assms(1,3) first
    by (cases b) simp_all
  have "length (reports r2) = Suc m" by (simp add: m(1))
  moreover have "\<not> stop_sent r2" using m(2) assms(5) by (simp add: r1_def)
  ultimately show ?thesis
    using end_reports [OF res] m(3-6) unfolding m(1) [symmetric]
    by (intro exI [of _ m] exI [of _ b] conjI) (simp_all only: m(1) [symmetric] simp_thms)
qed

text \<open>The endpoint answers at the third poll, and the server ends well.\<close>

definition example_env :: win_env where
  "example_env = \<lparr>handler_error = None, report_error = (\<lambda>_. None), spawn_error = None,
     endpoint_pronto = (\<lambda>k. k = 2), worker_finished = (\<lambda>_. False), turn_cost = (\<lambda>_. 10),
     worker_end = (\<lambda>_. Some (Inr ()))\<rparr>"

definition example_run :: win_run where
  "example_run = \<lparr>now = 0, reports = [], stop_sent = False\<rparr>"

theorem win_run_reports_witness:
  "\<exists>r'. win_run_main example_env example_run = (Ok (), r') \<and> \<not> stop_sent r' \<and>
     reports r' = [pending 1, pending 2, pending 3, running_report, service_report SvcStopped {} (Win32 0)]"
proof -
  obtain res r' where run: "win_run_main example_env example_run = (res, r')" by fastforce
  have env: "endpoint_pronto example_env = (\<lambda>k. k = 2)" "worker_finished example_env = (\<lambda>_. False)"
    "turn_cost example_env = (\<lambda>_. 10)" "report_error example_env n = None" "worker_end example_env b = Some (Inr ())" for n b
    by (simp_all add: example_env_def)
  have "handler_error example_env = None" "report_error example_env 0 = None" "spawn_error example_env = None"
    "reports example_run = []" "\<not> stop_sent example_run"
    by (simp_all add: example_env_def example_run_def)
  from win_run_reports [OF this run, unfolded env option.case if_cancel] obtain m pronto where
      m: "\<forall>j<m. (\<Sum>i<j. 10 + 250) < (20000 :: nat) \<and> \<not> j = 2 \<and> \<not> False"
      "20000 \<le> (\<Sum>i<m. 10 + 250 :: nat) \<or> m = 2 \<or> False"
      "pronto \<longleftrightarrow> (\<Sum>i<m. 10 + 250) < (20000 :: nat) \<and> m = 2" "stop_sent r' \<longleftrightarrow> \<not> pronto"
      and r: "res = Inr ()" "reports r' = map pending [1..<m + 2] @ (if pronto then [running_report] else []) @
         [service_report SvcStopped {} (case res of Inl _ \<Rightarrow> ServiceSpecific FAILED
            | Inr _ \<Rightarrow> if pronto then Win32 0 else ServiceSpecific START_TIMEOUT)]"
    by blast
  have "m = 2"
  proof (rule ccontr)
    assume "m \<noteq> 2"
    then have "2 < m" using m(2) by auto
    then show False using m(1) by blast
  qed
  then show ?thesis using m r run by (simp add: upt_rec numeral_2_eq_2 numeral_3_eq_3)
qed

end
