(* ===== verification/Logging.thy ===== *)
theory Logging
  imports FileSystem Mode
begin

text \<open>
  The daemon's log: \<open>toolkit/dovetail_privileged_daemon/rust/src/logging.rs\<close> and the call of it in
  \<open>run\<close> of \<open>lib.rs\<close>.  The filter and the format of a line belong to \<open>tracing_subscriber\<close>: a line
  arrives here as the bytes it was formatted to.
\<close>

section \<open>Further operations on files\<close>

definition path_join :: "string \<Rightarrow> string \<Rightarrow> string" where
  "path_join dir name =
     (if starts_with ''/'' name then name
      else if dir = [] \<or> last dir = CHR ''/'' then dir @ name
      else dir @ ''/'' @ name)"

text \<open>\<open>metadata\<close> and \<open>open\<close> follow links, \<open>rename\<close> does not; \<open>deref\<close> says where a path leads.\<close>

definition metadata_len :: "(string \<Rightarrow> string) \<Rightarrow> string \<Rightarrow> nat io" where
  "metadata_len deref p = fs_op (\<lambda>h. case files h (deref p) of
     None \<Rightarrow> Err NotFound
   | Some n \<Rightarrow> Ok (length (content n), files h))"

definition rename_file :: "string \<Rightarrow> string \<Rightarrow> unit io" where
  "rename_file from to = fs_op (\<lambda>h. case files h from of
     None \<Rightarrow> Err NotFound
   | Some n \<Rightarrow>
       if is_dir_at (files h) to then Err (OtherIo 21)
       else Ok ((), (files h)(from := None, to \<mapsto> n)))"

text \<open>Opening for appending makes the file when it is not there, in a directory that is.\<close>

definition open_append :: "(string \<Rightarrow> string) \<Rightarrow> string \<Rightarrow> string io" where
  "open_append deref p = fs_op (\<lambda>h. case files h (deref p) of
     None \<Rightarrow>
       (case path_parent (deref p) of
          Some d \<Rightarrow>
            if d = [] \<or> is_dir_at (files h) d
            then Ok (deref p, (files h)(deref p \<mapsto> new_node h RegularFile 0x1B6 []))
            else Err NotFound
        | None \<Rightarrow> Err NotFound)
   | Some n \<Rightarrow> if kind n = Directory then Err (OtherIo 21) else Ok (deref p, files h))"

definition append_file :: "string \<Rightarrow> string \<Rightarrow> unit io" where
  "append_file p text = fs_op (\<lambda>h. case files h p of
     None \<Rightarrow> Err NotFound
   | Some n \<Rightarrow> Ok ((), (files h)(p \<mapsto> n\<lparr>content := content n @ text\<rparr>)))"

section \<open>The log\<close>

text \<open>
  The cell that is set once holds the open file, here the path it was opened at; its lock may
  have been poisoned.
\<close>

record log_world =
  log_host :: host
  links :: "string \<Rightarrow> string"
  ARQUIVO_DE_LOG :: "string option"
  log_poisoned :: bool
  stderr :: string

definition LOG_LIMIT :: nat where "LOG_LIMIT = 4 * 1024 * 1024"

definition log_write :: "string \<Rightarrow> log_world \<Rightarrow> (io_error + nat) \<times> log_world" where
  "log_write buf w =
     (let w1 = (case ARQUIVO_DE_LOG w of
                  Some p \<Rightarrow>
                    if log_poisoned w then w
                    else w\<lparr>log_host := snd (append_file p buf (log_host w))\<rparr>
                | None \<Rightarrow> w)
      in (Ok (length buf), w1\<lparr>stderr := stderr w1 @ buf\<rparr>))"

text \<open>
  \<open>flush\<close> takes the lock and flushes the file, for which the standard library has nothing to do: a
  \<open>File\<close> keeps no bytes back.
\<close>

definition log_flush :: "log_world \<Rightarrow> (io_error + unit) \<times> log_world" where
  "log_flush w = (Ok (), w)"

definition rotate_log :: "(string \<Rightarrow> string) \<Rightarrow> string \<Rightarrow> string \<Rightarrow> host \<Rightarrow> host" where
  "rotate_log deref dir name h =
     (let caminho = path_join dir name
      in case metadata_len deref caminho h of
           (Inl _, h1) \<Rightarrow> h1
         | (Inr len, h1) \<Rightarrow>
             if LOG_LIMIT < len then snd (rename_file caminho (path_join dir (name @ ''.old'')) h1) else h1)"

definition abrir_arquivo_de_log :: "(string \<Rightarrow> string) \<Rightarrow> string \<Rightarrow> string \<Rightarrow> host \<Rightarrow> string option \<times> host" where
  "abrir_arquivo_de_log deref dir name h =
     (case create_dir_all dir h of
        (Inl _, h1) \<Rightarrow> (None, h1)
      | (Inr _, h1) \<Rightarrow>
          (case open_append deref (path_join dir name) (rotate_log deref dir name h1) of
             (r, h2) \<Rightarrow> (ok r, h2)))"

definition init :: "string \<Rightarrow> string option \<Rightarrow> log_world \<Rightarrow> log_world" where
  "init log_dir file w =
     (case file of
        None \<Rightarrow> w
      | Some nome \<Rightarrow>
          (case abrir_arquivo_de_log (links w) log_dir nome (log_host w) of
             (None, h) \<Rightarrow> w\<lparr>log_host := h\<rparr>
           | (Some p, h) \<Rightarrow>
               w\<lparr>log_host := h, ARQUIVO_DE_LOG := (if ARQUIVO_DE_LOG w = None then Some p else ARQUIVO_DE_LOG w)\<rparr>))"

text \<open>\<open>run\<close>: the mode decides the log, then what to do.\<close>

definition run_logged :: "(log_world \<Rightarrow> 'w) \<Rightarrow> 'w backend \<Rightarrow> string \<Rightarrow> string list \<Rightarrow> log_world \<Rightarrow> int \<times> 'w" where
  "run_logged start b log_dir args w =
     (let modo = mode_from_args args in executar b modo (start (init log_dir (log_file modo) w)))"

section \<open>Properties\<close>

definition write_lines :: "string list \<Rightarrow> log_world \<Rightarrow> log_world" where
  "write_lines ls w = fold (\<lambda>l w. snd (log_write l w)) ls w"

definition nothing_fails :: "host \<Rightarrow> bool" where
  "nothing_fails h \<longleftrightarrow> (\<forall>n. fault h n = None)"

lemma fs_op_fault: "fault (snd (fs_op f h)) = fault h"
  by (simp add: fs_op_def Let_def split: option.splits sum.splits)

lemma write_lines_stderr: "stderr (write_lines ls w) = stderr w @ concat ls"
  unfolding write_lines_def
  by (induction ls arbitrary: w) (auto simp: log_write_def Let_def split: option.splits)

lemma write_lines_file:
  assumes "ARQUIVO_DE_LOG w = Some p" and "\<not> log_poisoned w" and "nothing_fails (log_host w)"
    and "files (log_host w) p = Some n"
  shows "files (log_host (write_lines ls w)) = (files (log_host w))(p \<mapsto> n\<lparr>content := content n @ concat ls\<rparr>)"
  using assms
proof (induction ls arbitrary: w n)
  case Nil
  then show ?case by (auto simp: write_lines_def)
next
  case (Cons l ls)
  let ?w = "snd (log_write l w)"
  have step: "ARQUIVO_DE_LOG ?w = Some p" "\<not> log_poisoned ?w" "nothing_fails (log_host ?w)"
      "files (log_host ?w) = (files (log_host w))(p \<mapsto> n\<lparr>content := content n @ l\<rparr>)"
    using Cons.prems
    by (auto simp: log_write_def append_file_def fs_op_def nothing_fails_def Let_def)
  have "write_lines (l # ls) w = write_lines ls ?w" by (simp add: write_lines_def)
  then show ?case using Cons.IH [OF step(1-3), of "n\<lparr>content := content n @ l\<rparr>"] step(4) by (auto simp: fun_eq_iff)
qed

lemma create_dir_all_makes:
  assumes "create_dir_all d h = (Ok u, h')" and "d \<noteq> []"
  shows "is_dir_at (files h') d" and "fault h' = fault h"
proof -
  show "is_dir_at (files h') d"
  proof (cases "files h d = None")
    case True
    let ?missing = "\<lambda>ds. filter (\<lambda>d. d \<noteq> [] \<and> files h d = None) ds"
    have "files h' = foldr (\<lambda>d fs. fs(d \<mapsto> new_node h Directory 0x1FF [])) (?missing (d # ancestors d)) (files h)"
      using assms(1) unfolding create_dir_all_def fs_op_ok Let_def by (simp del: filter.simps split: if_splits)
    then show ?thesis using True assms(2) by (simp add: is_dir_at_def new_node_def)
  next
    case False
    then have here: "is_dir_at (files h) d"
      using assms(1) by (auto simp: create_dir_all_def fs_op_ok Let_def split: if_splits)
    obtain ds where "files h' = foldr (\<lambda>d fs. fs(d \<mapsto> new_node h Directory 0x1FF [])) ds (files h)"
      using create_dir_all_files [OF assms(1)] by blast
    moreover have "is_dir_at (foldr (\<lambda>d fs. fs(d \<mapsto> new_node h Directory 0x1FF [])) ds (files h)) d"
      using here by (induction ds) (auto simp: is_dir_at_def new_node_def)
    ultimately show ?thesis by simp
  qed
  show "fault h' = fault h"
    using assms(1) unfolding create_dir_all_def fs_op_ok by (elim conjE exE) simp
qed

text \<open>What is at the log's path and at the path of the old log once it is open.\<close>

definition kept_text :: "node option \<Rightarrow> string" where
  "kept_text n = (case n of None \<Rightarrow> [] | Some n \<Rightarrow> if LOG_LIMIT < length (content n) then [] else content n)"

lemma path_join_old:
  "path_parent (path_join d name) = Some d \<Longrightarrow> path_join d (name @ ''.old'') = path_join d name @ ''.old''"
  using path_parent_shorter [of "path_join d name" d]
  by (cases name) (auto simp: path_join_def)

lemma rotate_files:
  assumes "nothing_fails h" and "deref p = p" and "p = path_join d name" and "path_parent p = Some d"
    and "\<not> is_dir_at (files h) (p @ ''.old'')"
  shows "nothing_fails (rotate_log deref d name h)" and "files (rotate_log deref d name h) =
    (case files h p of
       Some n \<Rightarrow> if LOG_LIMIT < length (content n) then (files h)(p := None, p @ ''.old'' \<mapsto> n) else files h
     | None \<Rightarrow> files h)"
proof -
  have old: "path_join d (name @ ''.old'') = p @ ''.old''" using path_join_old assms(3,4) by simp
  have run: "rotate_log deref d name h = (let h1 = h\<lparr>moment := Suc (moment h)\<rparr> in case files h p of
      None \<Rightarrow> h1
    | Some n \<Rightarrow> (let h2 = h1\<lparr>history := history h @ [files h]\<rparr> in
        if LOG_LIMIT < length (content n)
        then snd (rename_file p (p @ ''.old'') h2) else h2))"
    using assms(1,2) unfolding rotate_log_def old assms(3) [symmetric] Let_def
    by (simp add: metadata_len_def fs_op_def nothing_fails_def split: option.splits)
  show "nothing_fails (rotate_log deref d name h)"
    using assms(1) unfolding run
    by (auto simp: nothing_fails_def Let_def rename_file_def fs_op_fault split: option.splits)
  show "files (rotate_log deref d name h) = (case files h p of
      Some n \<Rightarrow> if LOG_LIMIT < length (content n) then (files h)(p := None, p @ ''.old'' \<mapsto> n) else files h
    | None \<Rightarrow> files h)"
    using assms(1,5) unfolding run
    by (auto simp: nothing_fails_def Let_def rename_file_def fs_op_def split: option.splits)
qed

lemma opened_log:
  assumes "nothing_fails h" and "deref p = p" and "p = path_join d name" and "path_parent p = Some d"
    and "d \<noteq> []" and "create_dir_all d h = (Ok (), h1)"
    and "\<not> is_dir_at (files h) p" and "\<not> is_dir_at (files h) (p @ ''.old'')"
    and "abrir_arquivo_de_log deref d name h = (r, h')"
  shows "r = Some p \<and> nothing_fails h' \<and>
    (\<exists>n. files h' p = Some n \<and> content n = kept_text (files h p)) \<and>
    (\<forall>n. files h p = Some n \<and> LOG_LIMIT < length (content n) \<longrightarrow> files h' (p @ ''.old'') = Some n)"
proof -
  have shorter: "length d < length p" by (rule path_parent_shorter [OF assms(4)])
  have same: "files h1 p = files h p" "files h1 (p @ ''.old'') = files h (p @ ''.old'')"
    using create_dir_all_other [OF assms(6)] shorter by simp_all
  note made = create_dir_all_makes [OF assms(6,5)]
  have fails: "nothing_fails h1" using made(2) assms(1) by (simp add: nothing_fails_def)
  let ?h = "rotate_log deref d name h1"
  have "\<not> is_dir_at (files h1) (p @ ''.old'')" using assms(8) same(2) by (simp add: is_dir_at_def)
  note turned = rotate_files [where deref = deref and p = p and d = d and name = name, OF fails assms(2,3,4) this, unfolded same]
  have dir: "is_dir_at (files ?h) d"
    using made(1) shorter unfolding turned(2)
    by (auto simp: is_dir_at_def split: option.splits)
  have here: "files ?h p = (case files h p of
      Some n \<Rightarrow> if LOG_LIMIT < length (content n) then None else Some n | None \<Rightarrow> None)"
    using same(1) unfolding turned(2) by (auto split: option.splits)
  have no_dir: "kind n \<noteq> Directory" if "files h p = Some n" for n
    using assms(7) that by (simp add: is_dir_at_def)
  have run: "(r, h') = (ok (fst (open_append deref p ?h)), snd (open_append deref p ?h))"
    using assms(9) unfolding abrir_arquivo_de_log_def assms(6) assms(3) [symmetric]
    by (simp split: prod.splits)
  have opened: "r = Some p \<and> nothing_fails h' \<and> (\<exists>n. files h' p = Some n \<and> content n = kept_text (files h p)) \<and>
      files h' (p @ ''.old'') = files ?h (p @ ''.old'')"
    using run here no_dir dir turned(1) assms(2,4)
    by (auto simp: open_append_def fs_op_def nothing_fails_def new_node_def kept_text_def Let_def
        split: option.splits if_splits)
  moreover have "files ?h (p @ ''.old'') = Some n" if "files h p = Some n" "LOG_LIMIT < length (content n)" for n
    using that unfolding turned(2) by simp
  ultimately show ?thesis by auto
qed

text \<open>
  The log keeps what was logged.  Where nothing fails, the file holds what it held before,
  unless that was more than the limit and then all of it is in the old log, followed by every line
  written since, in order; and whatever fails, every line reaches the standard error.
\<close>

theorem log_keeps_lines:
  assumes "nothing_fails (log_host w)" and "ARQUIVO_DE_LOG w = None" and "\<not> log_poisoned w"
    and "links w p = p" and "p = path_join d name" and "path_parent p = Some d" and "d \<noteq> []"
    and "create_dir_all d (log_host w) = (Ok (), h1)"
    and "\<not> is_dir_at (files (log_host w)) p" and "\<not> is_dir_at (files (log_host w)) (p @ ''.old'')"
    and "old = files (log_host w) p"
  shows "(\<exists>n. files (log_host (write_lines ls (init d (Some name) w))) p = Some n \<and>
      content n = kept_text old @ concat ls) \<and>
    (\<forall>n. old = Some n \<and> LOG_LIMIT < length (content n) \<longrightarrow>
      files (log_host (write_lines ls (init d (Some name) w))) (p @ ''.old'') = Some n) \<and>
    (\<forall>v. stderr (write_lines ls v) = stderr v @ concat ls)"
proof -
  obtain r h' where a: "abrir_arquivo_de_log (links w) d name (log_host w) = (r, h')" by fastforce
  note open1 = opened_log [OF assms(1,4,5,6,7,8,9,10) a]
  let ?w = "init d (Some name) w"
  have w: "ARQUIVO_DE_LOG ?w = Some p" "\<not> log_poisoned ?w" "log_host ?w = h'"
    using a open1 assms(2,3) by (auto simp: init_def)
  obtain n where n: "files (log_host ?w) p = Some n" "content n = kept_text old"
    using open1 w(3) assms(11) by auto
  have fails: "nothing_fails (log_host ?w)" using open1 w(3) by simp
  have after: "files (log_host (write_lines ls ?w)) = (files h')(p \<mapsto> n\<lparr>content := content n @ concat ls\<rparr>)"
    using write_lines_file [OF w(1,2) fails n(1), of ls] unfolding w(3) .
  show ?thesis using open1 n(2) assms(11) write_lines_stderr unfolding after by auto
qed

definition example_log :: log_world where
  "example_log = \<lparr>log_host = example_host [''/l'' \<mapsto> \<lparr>kind = Directory, node_uid = 0, node_gid = 0, node_mode = 0, content = []\<rparr>] 0,
     links = id, ARQUIVO_DE_LOG = None, log_poisoned = False, stderr = []\<rparr>"

theorem log_keeps_lines_witness:
  "\<exists>n. files (log_host (write_lines [''a'', ''b''] (init ''/l'' (Some ''x'') example_log))) ''/l/x'' = Some n \<and>
     content n = ''ab''"
proof -
  have p: "path_parent ''/l/x'' = Some ''/l''" "ancestors ''/l'' = [''/'']"
    by (simp_all add: path_parent_def ancestors.simps)
  have "is_ok (fst (create_dir_all ''/l'' (log_host example_log)))"
    using p(2) by (simp add: create_dir_all_def fs_op_def example_log_def example_host_def Let_def is_dir_at_def)
  then obtain h1 where "create_dir_all ''/l'' (log_host example_log) = (Ok (), h1)"
    by (auto simp: is_ok_iff prod_eq_iff)
  then have made: "create_dir_all ''/l'' (log_host example_log) = (Ok (), h1)" .
  have none: "files (log_host example_log) ''/l/x'' = None" "files (log_host example_log) (''/l/x'' @ ''.old'') = None"
    by (simp_all add: example_log_def example_host_def)
  have "(\<exists>n. files (log_host (write_lines [''a'', ''b''] (init ''/l'' (Some ''x'') example_log))) ''/l/x'' = Some n \<and>
      content n = kept_text None @ concat [''a'', ''b'']) \<and>
    (\<forall>n. None = Some n \<and> LOG_LIMIT < length (content n) \<longrightarrow>
      files (log_host (write_lines [''a'', ''b''] (init ''/l'' (Some ''x'') example_log))) (''/l/x'' @ ''.old'') = Some n) \<and>
    (\<forall>v. stderr (write_lines [''a'', ''b''] v) = stderr v @ concat [''a'', ''b''])"
  proof (rule log_keeps_lines)
    show "nothing_fails (log_host example_log)" by (simp add: example_log_def example_host_def nothing_fails_def)
    show "''/l/x'' = path_join ''/l'' ''x''" by (simp add: path_join_def)
    show "path_parent ''/l/x'' = Some ''/l''" by (rule p(1))
    show "create_dir_all ''/l'' (log_host example_log) = (Ok (), h1)" by (rule made)
    show "\<not> is_dir_at (files (log_host example_log)) ''/l/x''" unfolding is_dir_at_def none(1) by simp
    show "\<not> is_dir_at (files (log_host example_log)) (''/l/x'' @ ''.old'')" unfolding is_dir_at_def none(2) by simp
    show "None = files (log_host example_log) ''/l/x''" unfolding none(1) by (rule refl)
  qed (simp_all add: example_log_def)
  then show ?thesis by (simp add: kept_text_def)
qed

end
