(* ===== verification/Program.thy ===== *)
theory Program
  imports Platforms LinuxService WindowsService Logging
begin

text \<open>
  The program as it is started: \<open>cleanup\<close> and \<open>run_foreground\<close> of
  \<open>toolkit/dovetail_privileged_daemon/rust/src/lib.rs\<close>, which the modes of \<open>Mode\<close> leave to the
  application and the server, and the whole daemon of a platform from its command line to its exit
  code.
\<close>

section \<open>Definitions\<close>

text \<open>
  Both build a runtime and run in it, one the cleanup of the application, the other the server,
  until it is told to end.
\<close>

datatype 'e process_error = NoRuntime | Ended 'e

definition block_on :: "bool \<Rightarrow> 'e + 'a \<Rightarrow> 'e process_error + 'a" where
  "block_on built r = and_then (ensure built NoRuntime) (\<lambda>_. map_err Ended r)"

definition cleanup_app :: "bool \<Rightarrow> 'e + unit \<Rightarrow> 'e process_error + unit" where
  "cleanup_app built cleaned = block_on built cleaned"

definition foreground_server :: "bool \<Rightarrow> 'e + 'a \<Rightarrow> 'e process_error + unit" where
  "foreground_server built result = map_sum id (\<lambda>_. ()) (block_on built result)"

text \<open>The daemon of each platform; what its server does is the daemon of that platform.\<close>

definition linux_program :: "string \<Rightarrow> bool \<Rightarrow> 'e + unit \<Rightarrow> run_error + 's action list \<Rightarrow> string list \<Rightarrow>
    linux_world \<Rightarrow> int \<times> linux_world" where
  "linux_program unit built cleaned result args w =
     run_daemon (linux_backend unit (\<lambda>_. is_ok (cleanup_app built cleaned))) args
       (w\<lparr>foreground_ok := (\<lambda>_. is_ok (foreground_server built result))\<rparr>)"

definition mac_program :: "string \<Rightarrow> bool \<Rightarrow> 'e + unit \<Rightarrow>
    mac_run_error + XpcConnection action list \<times> xpc_world \<Rightarrow> string list \<Rightarrow> mac_world \<Rightarrow> int \<times> mac_world" where
  "mac_program label built cleaned result args w =
     run_daemon (mac_backend label) args
       (w\<lparr>mac_foreground := is_ok (foreground_server built result),
          mac_cleanup := is_ok (cleanup_app built cleaned)\<rparr>)"

text \<open>On Windows the service manager may attach the process; else the server runs in it.\<close>

definition windows_program :: "ServiceIdentity \<Rightarrow> bool \<Rightarrow> win_env \<Rightarrow> win_run \<Rightarrow> bool \<Rightarrow> 'e + unit \<Rightarrow>
    run_error + 's action list \<Rightarrow> string list \<Rightarrow> scm_world \<Rightarrow> int \<times> scm_world" where
  "windows_program i attached env r built cleaned result args w =
     (let up = is_ok (foreground_server built result)
      in run_daemon
           (windows_backend i (\<lambda>_. fst (win_run_service attached up env r))
              (\<lambda>_. is_ok (cleanup_app built cleaned)) (\<lambda>_. up)) args w)"

section \<open>Lemmas\<close>

lemma is_ok_and_then:
  "is_ok (and_then r f) \<longleftrightarrow> (\<exists>x. r = Ok x \<and> is_ok (f x))"
  "is_ok (map_err g r) \<longleftrightarrow> is_ok r" "is_ok (map_sum id h r) \<longleftrightarrow> is_ok r"
  by (cases r; simp)+

lemma in_runtime_ok [simp]:
  "is_ok (cleanup_app built cleaned) \<longleftrightarrow> built \<and> is_ok cleaned"
  "is_ok (foreground_server built result) \<longleftrightarrow> built \<and> is_ok result"
  by (simp_all add: cleanup_app_def foreground_server_def block_on_def is_ok_and_then)

lemma servers_ok:
  "is_ok (run_macos prepared api plutil label args policy pid script h) \<longleftrightarrow>
     prepared \<and> (\<exists>r. served_requirement api plutil (plist_path label) args policy h = Ok r \<and> is_ok (mach_service label r))"
  "is_ok (run_windows prepared a policy sys os xs) \<longleftrightarrow> prepared \<and> is_ok (windows_bind os (endpoint a policy))"
  "is_ok (fst (run_linux prepared a policy getsockopt ys h)) \<longleftrightarrow> prepared \<and> is_ok (fst (linux_bind (endpoint a policy) h))"
  by (auto simp: run_macos_def run_windows_def run_linux_def is_ok_iff case_prod_beta
      split: sum.splits prod.splits)

text \<open>
  A daemon that is to serve ends with \<open>OK\<close> exactly when its runtime was built, the application
  prepared and the endpoint opened; otherwise it ends with \<open>FAILED\<close>.  A cleanup ends with \<open>OK\<close>
  exactly when the application's own did.  None of them changes the machine.
\<close>

theorem linux_program_exit:
  assumes "mode_from_args args \<in> {Service, Foreground, Cleanup}"
    and "result = fst (run_linux prepared a policy getsockopt xs h)"
  shows "fst (linux_program unit built cleaned result args w) =
      (if built \<and> (if mode_from_args args = Cleanup then is_ok cleaned
         else prepared \<and> is_ok (fst (linux_bind (endpoint a policy) h))) then OK else FAILED) \<and>
    changes (snd (linux_program unit built cleaned result args w)) = changes w"
  using assms servers_ok(3) [of prepared a policy getsockopt xs h]
  by (auto simp: linux_program_def run_daemon_def linux_backend_def run_service_from_def ok_or_failed_def changes_def)

theorem mac_program_exit:
  assumes "mode_from_args args \<in> {Service, Foreground, Cleanup}"
    and "result = run_macos prepared api plutil label args policy pid script (mac_host w)"
  shows "fst (mac_program label built cleaned result args w) =
      (if built \<and> (if mode_from_args args = Cleanup then is_ok cleaned
         else prepared \<and> (\<exists>r. served_requirement api plutil (plist_path label) args policy (mac_host w) = Ok r \<and>
           is_ok (mach_service label r))) then OK else FAILED) \<and>
    mac_host (snd (mac_program label built cleaned result args w)) = mac_host w \<and>
    launchctl_calls (snd (mac_program label built cleaned result args w)) = launchctl_calls w"
  using assms servers_ok(1) [of prepared api plutil label args policy pid script "mac_host w"]
  by (auto simp: mac_program_def run_daemon_def mac_backend_def mac_run_service_def ok_or_failed_def)

theorem windows_program_exit:
  assumes "mode_from_args args \<in> {Service, Foreground, Cleanup}"
    and "result = run_windows prepared a policy sys os xs"
  shows "windows_program i attached env r built cleaned result args w =
      (if mode_from_args args = Service \<and> attached then fst (service_main_inner env r)
       else if built \<and> (if mode_from_args args = Cleanup then is_ok cleaned
         else prepared \<and> is_ok (windows_bind os (endpoint a policy))) then OK else FAILED, w)"
  using assms servers_ok(2) [of prepared a policy sys os xs]
  by (auto simp: windows_program_def run_daemon_def windows_backend_def win_run_service_def ok_or_failed_def)

end
