(* ===== verification/Json.thy ===== *)
theory Json
  imports Prelude
begin

text \<open>
  JSON values, as \<open>serde_json\<close> documents them: a number is an integer of 64 bits or a float, an
  object keeps its members in the order of the text.  The text itself is the library's.
\<close>

datatype number = PosInt u64 | NegInt int | Float string

datatype Value =
    Null
  | Bool bool
  | Number number
  | String string
  | Array "Value list"
  | Object "(string \<times> Value) list"

fun object_get :: "Value \<Rightarrow> string \<Rightarrow> Value option" where
  "object_get (Object obj) k = map_of obj k"
| "object_get _ _ = None"

fun is_object :: "Value \<Rightarrow> bool" where
  "is_object (Object _) = True"
| "is_object _ = False"

text \<open>All values that the members of an object have under one name.\<close>

definition values_of :: "string \<Rightarrow> (string \<times> Value) list \<Rightarrow> Value list" where
  "values_of k fs = map snd (filter (\<lambda>f. fst f = k) fs)"

lemma values_of_simps [simp]:
  "values_of k [] = []"
  "values_of k ((k', v) # fs) = (if k' = k then v # values_of k fs else values_of k fs)"
  "values_of k (fs @ gs) = values_of k fs @ values_of k gs"
  by (simp_all add: values_of_def)

lemma values_of_others [simp]:
  "values_of k (filter (\<lambda>f. fst f \<noteq> k') fs) = (if k' = k then [] else values_of k fs)"
  "values_of k (filter (\<lambda>f. fst f \<noteq> k' \<and> fst f \<noteq> k'') fs) = (if k' = k \<or> k'' = k then [] else values_of k fs)"
  by (induction fs) auto

definition integer :: "'a :: len word \<Rightarrow> Value" where
  "integer w = Number (PosInt (ucast w))"

text \<open>Reading back an integer of a width, a text and a truth value.\<close>

fun integer_of :: "Value \<Rightarrow> 'a :: len word option" where
  "integer_of (Number (PosInt n)) = (if unat n < 2 ^ LENGTH('a) then Some (ucast n) else None)"
| "integer_of _ = None"

fun string_of :: "Value \<Rightarrow> string option" where
  "string_of (String s) = Some s"
| "string_of _ = None"

fun bool_of :: "Value \<Rightarrow> bool option" where
  "bool_of (Bool b) = Some b"
| "bool_of _ = None"

lemma integer_of_integer:
  fixes w :: "'a :: len word"
  assumes "LENGTH('a) \<le> 64"
  shows "integer_of (integer w) = Some w"
proof -
  have "unat w < 2 ^ 64"
    by (rule less_le_trans [OF unsigned_less power_increasing [OF assms]]) simp
  then have "unat (ucast w :: u64) = unat w" by (simp add: unsigned_ucast_eq take_bit_nat_eq_self)
  moreover have "(ucast (ucast w :: u64) :: 'a word) = w"
    by (rule unsigned_word_eqI [where 'a = nat]) (simp add: unsigned_ucast_eq [of "ucast w :: u64"] calculation take_bit_nat_eq_self unsigned_less)
  moreover have "unat w < 2 ^ LENGTH('a)" by simp
  ultimately show ?thesis by (simp add: integer_def)
qed

lemma integer_of_integers [simp]:
  "integer_of (integer (a :: u8)) = Some a" "integer_of (integer (b :: u16)) = Some b"
  "integer_of (integer (d :: u64)) = Some d"
  by (rule integer_of_integer; simp)+

end
