(* ===== verification/ApiError.thy ===== *)
theory ApiError
  imports Json
begin

text \<open>
  What the HTTP client makes of an answer: \<open>error.rs\<close>, and the status and envelope functions of
  \<open>client/executor.rs\<close> and \<open>client/list.rs\<close>, under \<open>toolkit/dovetail_http_client/rust/src\<close>.
  How a JSON value is printed and read is a parameter.
\<close>

section \<open>Reading values\<close>

fun as_str :: "Value \<Rightarrow> string option" where
  "as_str (String s) = Some s"
| "as_str _ = None"

fun as_u64 :: "Value \<Rightarrow> u64 option" where
  "as_u64 (Number (PosInt n)) = Some n"
| "as_u64 _ = None"

definition or_else :: "'a option \<Rightarrow> 'a option \<Rightarrow> 'a option" where
  "or_else a b = (if a = None then b else a)"

section \<open>The body of an error\<close>

record ApiErrorPayload =
  pl_message :: "string option"
  pl_error :: "string option"
  pl_status_code :: "u16 option"
  pl_code :: "string option"
  pl_active_connections :: "u32 option"
  pl_raw :: "string option"

definition best_message :: "ApiErrorPayload \<Rightarrow> string option" where
  "best_message p = or_else (pl_message p) (pl_error p)"

text \<open>The object under \<open>message\<close>, if there is one.\<close>

definition nested_message :: "Value \<Rightarrow> Value option" where
  "nested_message v =
     (case object_get v ''message'' of
        Some m \<Rightarrow> if is_object m then Some m else None
      | None \<Rightarrow> None)"

definition nested_get :: "Value \<Rightarrow> string \<Rightarrow> Value option" where
  "nested_get v k = Option.bind (nested_message v) (\<lambda>m. object_get m k)"

definition payload_field :: "(string \<Rightarrow> Value option) \<Rightarrow> ApiErrorPayload \<Rightarrow> string \<Rightarrow> Value option" where
  "payload_field from_str p name =
     Option.bind (pl_raw p) (\<lambda>raw.
       Option.bind (from_str raw) (\<lambda>body.
         or_else (object_get body name) (nested_get body name)))"

definition join_items :: "Value list \<Rightarrow> string option" where
  "join_items items =
     (let lines = List.map_filter as_str items
      in if lines = [] then None else Some (join_str '', '' lines))"

definition text_or_lines :: "Value \<Rightarrow> string option" where
  "text_or_lines v =
     (case v of String s \<Rightarrow> Some s | Array items \<Rightarrow> join_items items | _ \<Rightarrow> None)"

definition message_of :: "Value option \<Rightarrow> string option" where
  "message_of field =
     (case field of
        Some (Object obj) \<Rightarrow> Option.bind (map_of obj ''message'') text_or_lines
      | Some v \<Rightarrow> text_or_lines v
      | None \<Rightarrow> None)"

definition text_of :: "Value option \<Rightarrow> string option" where
  "text_of field = Option.bind field as_str"

text \<open>\<open>number::<T>\<close>: a number that does not fit the type is as good as absent.\<close>

definition number_of :: "Value option \<Rightarrow> ('a :: len) word option" where
  "number_of field =
     Option.bind (Option.bind field as_u64) (\<lambda>n.
       if unat n < 2 ^ LENGTH('a) then Some (ucast n) else None)"

definition from_value :: "(Value \<Rightarrow> string) \<Rightarrow> Value \<Rightarrow> ApiErrorPayload" where
  "from_value to_string v =
     \<lparr>pl_message = message_of (object_get v ''message''),
      pl_error = or_else (text_of (object_get v ''error'')) (text_of (nested_get v ''error'')),
      pl_status_code = or_else (number_of (object_get v ''statusCode'')) (number_of (nested_get v ''statusCode'')),
      pl_code = or_else (text_of (object_get v ''code'')) (text_of (nested_get v ''code'')),
      pl_active_connections =
        or_else (number_of (object_get v ''activeConnections'')) (number_of (nested_get v ''activeConnections'')),
      pl_raw = Some (to_string v)\<rparr>"

section \<open>Errors\<close>

text \<open>What the code asks of an error of the HTTP library.\<close>

record reqwest_error =
  is_timeout :: bool
  is_connect :: bool
  is_request :: bool
  error_text :: string

datatype ApiError =
    Transport reqwest_error
  | Unauthorized u16 "ApiErrorPayload option"
  | Forbidden u16 "ApiErrorPayload option"
  | TooManyRequests u16 "ApiErrorPayload option"
  | BadRequest u16 "ApiErrorPayload option"
  | ServerError u16 "ApiErrorPayload option"
  | Decode reqwest_error
  | TokenStoreError string
  | MissingToken
  | AccountNotConfirmed
  | RoleNotAllowed
  | AlreadyConnected string u32
  | Internal string

fun is_retryable :: "ApiError \<Rightarrow> bool" where
  "is_retryable (Transport e) = (is_timeout e \<or> is_connect e \<or> is_request e)"
| "is_retryable (ServerError _ _) = True"
| "is_retryable _ = False"

fun error_status :: "ApiError \<Rightarrow> u16 option" where
  "error_status (Unauthorized s _) = Some s"
| "error_status (Forbidden s _) = Some s"
| "error_status (TooManyRequests s _) = Some s"
| "error_status (BadRequest s _) = Some s"
| "error_status (ServerError s _) = Some s"
| "error_status _ = None"

fun error_body :: "ApiError \<Rightarrow> ApiErrorPayload option" where
  "error_body (Unauthorized _ b) = b"
| "error_body (Forbidden _ b) = b"
| "error_body (TooManyRequests _ b) = b"
| "error_body (BadRequest _ b) = b"
| "error_body (ServerError _ b) = b"
| "error_body _ = None"

fun is_unauthorized :: "ApiError \<Rightarrow> bool" where
  "is_unauthorized (Unauthorized _ _) = True"
| "is_unauthorized _ = False"

fun api_error_display :: "ApiError \<Rightarrow> string" where
  "api_error_display (Transport e) = ''falha de transporte HTTP: '' @ error_text e"
| "api_error_display (Unauthorized s _) = ''nao autorizado ('' @ show_nat (unat s) @ '')''"
| "api_error_display (Forbidden s _) = ''sem permissao ('' @ show_nat (unat s) @ '')''"
| "api_error_display (TooManyRequests s _) =
     ''bloqueado por excesso de tentativas ('' @ show_nat (unat s) @ '')''"
| "api_error_display (BadRequest s _) = ''requisicao invalida ('' @ show_nat (unat s) @ '')''"
| "api_error_display (ServerError s _) = ''erro do servidor ('' @ show_nat (unat s) @ '')''"
| "api_error_display (Decode e) = ''falha ao desserializar resposta: '' @ error_text e"
| "api_error_display (TokenStoreError m) = ''falha no armazenamento de token: '' @ m"
| "api_error_display MissingToken = ''nenhum token de acesso disponivel (login necessario)''"
| "api_error_display AccountNotConfirmed = ''conta ainda nao confirmada; verifique seu e-mail''"
| "api_error_display RoleNotAllowed = ''este perfil nao tem acesso ao aplicativo do cliente''"
| "api_error_display (AlreadyConnected m _) = m"
| "api_error_display (Internal m) = ''erro interno do cliente HTTP: '' @ m"

text \<open>A status the HTTP library can hold is between 100 and 999; 2xx is a success.\<close>

definition is_success :: "u16 \<Rightarrow> bool" where
  "is_success s \<longleftrightarrow> 200 \<le> s \<and> s < 300"

definition is_server_error :: "u16 \<Rightarrow> bool" where
  "is_server_error s \<longleftrightarrow> 500 \<le> s \<and> s < 600"

definition status_from_u16 :: "u16 \<Rightarrow> u16 option" where
  "status_from_u16 n = (if 100 \<le> n \<and> n < 1000 then Some n else None)"

definition map_status_error :: "u16 \<Rightarrow> ApiErrorPayload option \<Rightarrow> ApiError" where
  "map_status_error s body =
     (if s = 401 then Unauthorized s body
      else if s = 403 then Forbidden s body
      else if s = 429 then TooManyRequests s body
      else if is_server_error s then ServerError s body
      else BadRequest s body)"

definition map_status_code :: "u16 \<Rightarrow> ApiErrorPayload option \<Rightarrow> ApiError" where
  "map_status_code n body =
     (case status_from_u16 n of
        Some s \<Rightarrow> map_status_error s body
      | None \<Rightarrow> Internal (''invalid status in response: '' @ show_nat (unat n)))"

section \<open>List envelopes\<close>

definition DEFAULT_LIST_KEYS :: "string list" where
  "DEFAULT_LIST_KEYS = [''data'', ''items'', ''results'', ''rows'']"

fun list_under :: "string list \<Rightarrow> (string \<times> Value) list \<Rightarrow> Value list" where
  "list_under [] obj = []"
| "list_under (key # keys) obj =
     (case map_of obj key of
        Some (Array items) \<Rightarrow> items
      | _ \<Rightarrow> list_under keys (filter (\<lambda>f. fst f \<noteq> key) obj))"

fun extract_list_envelope_with_keys :: "Value \<Rightarrow> string list \<Rightarrow> Value list" where
  "extract_list_envelope_with_keys (Array []) _ = []"
| "extract_list_envelope_with_keys (Array (v # vs)) _ =
     (case v of Array items \<Rightarrow> items | _ \<Rightarrow> v # vs)"
| "extract_list_envelope_with_keys (Object obj) extra_keys =
     list_under (extra_keys @ DEFAULT_LIST_KEYS) obj"
| "extract_list_envelope_with_keys _ _ = []"

definition extract_list_envelope :: "Value \<Rightarrow> Value list" where
  "extract_list_envelope v = extract_list_envelope_with_keys v []"

section \<open>Lemmas\<close>

lemma or_else_simps [simp]:
  "or_else None b = b" "or_else (Some x) b = Some x" "or_else a None = a"
  by (simp_all add: or_else_def)

lemma or_else_Some: "or_else a b = Some x \<longleftrightarrow> a = Some x \<or> a = None \<and> b = Some x"
  by (auto simp: or_else_def)

lemma map_status_error_status [simp]: "error_status (map_status_error s b) = Some s"
  by (simp add: map_status_error_def)

lemma map_status_error_body [simp]: "error_body (map_status_error s b) = b"
  by (simp add: map_status_error_def)

lemma map_status_error_retryable [simp]:
  "is_retryable (map_status_error s b) \<longleftrightarrow> is_server_error s"
  by (auto simp: map_status_error_def is_server_error_def)

lemma map_status_error_unauthorized [simp]: "is_unauthorized (map_status_error s b) \<longleftrightarrow> s = 401"
  by (simp add: map_status_error_def)

lemma number_of_fits:
  "number_of f = Some (n :: 'a :: len word) \<Longrightarrow>
     \<exists>m. Option.bind f as_u64 = Some m \<and> unat m < 2 ^ LENGTH('a) \<and> n = ucast m"
  by (auto simp: number_of_def bind_eq_Some_conv split: if_splits)

text \<open>The first key that holds a list decides; removing the others on the way changes nothing.\<close>

lemma map_of_filter_other: "k \<noteq> key \<Longrightarrow> map_of (filter (\<lambda>f. fst f \<noteq> key) fs) k = map_of fs k"
  by (induction fs) auto

lemma map_of_filter_self: "map_of (filter (\<lambda>f. fst f \<noteq> key) fs) key = None"
  by (induction fs) auto

lemma list_under_first:
  "list_under keys obj =
     (case find (\<lambda>k. \<exists>items. map_of obj k = Some (Array items)) keys of
        None \<Rightarrow> []
      | Some k \<Rightarrow> (case map_of obj k of Some (Array items) \<Rightarrow> items | _ \<Rightarrow> []))"
proof (induction keys arbitrary: obj)
  case (Cons key keys)
  show ?case
  proof (cases "\<exists>items. map_of obj key = Some (Array items)")
    case True
    then show ?thesis by auto
  next
    case False
    let ?fs = "filter (\<lambda>f. fst f \<noteq> key) obj"
    have same: "(\<exists>items. map_of ?fs k = Some (Array items)) \<longleftrightarrow> (\<exists>items. map_of obj k = Some (Array items))"
      for k
      using False map_of_filter_self [of key obj] map_of_filter_other [of k key obj]
      by (cases "k = key") auto
    have "list_under (key # keys) obj = list_under keys ?fs"
      using False by (auto split: option.splits Value.splits)
    also have "\<dots> = (case find (\<lambda>k. \<exists>items. map_of obj k = Some (Array items)) keys of
        None \<Rightarrow> []
      | Some k \<Rightarrow> (case map_of ?fs k of Some (Array items) \<Rightarrow> items | _ \<Rightarrow> []))"
      by (simp only: Cons.IH same)
    also have "\<dots> = (case find (\<lambda>k. \<exists>items. map_of obj k = Some (Array items)) keys of
        None \<Rightarrow> []
      | Some k \<Rightarrow> (case map_of obj k of Some (Array items) \<Rightarrow> items | _ \<Rightarrow> []))"
    proof (cases "find (\<lambda>k. \<exists>items. map_of obj k = Some (Array items)) keys")
      case (Some k)
      then have "\<exists>items. map_of obj k = Some (Array items)" by (auto simp: find_Some_iff)
      then have "k \<noteq> key" using False by blast
      then show ?thesis by (simp add: Some map_of_filter_other)
    qed simp
    finally show ?thesis using False by simp
  qed
qed simp

section \<open>Properties\<close>

text \<open>
  Provided a value is read back as it was printed, every field of an error body can be asked
  for afterwards, the outer one before the one nested under the message, and the code, the error
  and the numbers that fit are the ones found that way; a number that does not fit is absent.
\<close>

theorem payload_fields_kept:
  assumes "from_str (to_string v) = Some v"
  shows "payload_field from_str (from_value to_string v) name =
           or_else (object_get v name) (nested_get v name) \<and>
         (\<forall>s. payload_field from_str (from_value to_string v) ''code'' = Some (String s) \<longrightarrow>
              pl_code (from_value to_string v) = Some s) \<and>
         (\<forall>s. payload_field from_str (from_value to_string v) ''error'' = Some (String s) \<longrightarrow>
              pl_error (from_value to_string v) = Some s) \<and>
         (\<forall>n. payload_field from_str (from_value to_string v) ''statusCode'' = Some (Number (PosInt n)) \<and>
              unat n < 65536 \<longrightarrow> pl_status_code (from_value to_string v) = Some (ucast n)) \<and>
         (\<forall>n. object_get v ''statusCode'' = Some (Number (PosInt n)) \<and> 65536 \<le> unat n \<and>
              nested_get v ''statusCode'' = None \<longrightarrow> pl_status_code (from_value to_string v) = None)"
proof -
  have field: "payload_field from_str (from_value to_string v) k =
      or_else (object_get v k) (nested_get v k)" for k
    using assms by (simp add: payload_field_def from_value_def)
  show ?thesis
    unfolding field
    by (auto simp: from_value_def or_else_Some text_of_def number_of_def bind_eq_Some_conv)
qed

definition example_body :: Value where
  "example_body = Object [(''statusCode'', Number (PosInt 409)),
     (''message'', Object [(''code'', String ''BUSY'')])]"

theorem payload_fields_kept_witness:
  "payload_field (\<lambda>_. Some example_body) (from_value (\<lambda>_. []) example_body) ''code'' =
     or_else (object_get example_body ''code'') (nested_get example_body ''code'') \<and>
   pl_code (from_value (\<lambda>_. []) example_body) = Some ''BUSY''"
proof -
  have "nested_get example_body ''code'' = Some (String ''BUSY'')"
      "object_get example_body ''code'' = None"
    by (simp_all add: example_body_def nested_get_def nested_message_def)
  then show ?thesis
    using payload_fields_kept [of "\<lambda>_. Some example_body" "\<lambda>_. []" example_body "''code''"] by simp
qed

text \<open>
  The status of an answer is kept with its body and decides the error: exactly the statuses
  of the server's own failures are tried again, exactly 401 asks for a new session, and a number
  that is no status is an error of its own.
\<close>

theorem statuses_classified:
  "map_status_code n body =
     (if 100 \<le> n \<and> n < 1000 then map_status_error n body
      else Internal (''invalid status in response: '' @ show_nat (unat n))) \<and>
   error_status (map_status_error n body) = Some n \<and>
   error_body (map_status_error n body) = body \<and>
   (is_retryable (map_status_code n body) \<longleftrightarrow> 500 \<le> n \<and> n < 600) \<and>
   (is_unauthorized (map_status_code n body) \<longleftrightarrow> n = 401)"
proof -
  have "500 \<le> n \<and> n < 600 \<Longrightarrow> 100 \<le> n \<and> n < 1000" by unat_arith
  then show ?thesis
    by (auto simp: map_status_code_def status_from_u16_def is_server_error_def)
qed

text \<open>
  The list of an envelope is the bare list itself, its first element when that is a list (the
  rows beside a count), and of an object the first list found under the caller's keys and then
  the known ones, whatever else the object holds.
\<close>

theorem list_envelope_first:
  "extract_list_envelope_with_keys v keys =
     (case v of
        Array [] \<Rightarrow> []
      | Array (Array items # vs) \<Rightarrow> items
      | Array vs \<Rightarrow> vs
      | Object obj \<Rightarrow>
          (case find (\<lambda>k. \<exists>items. object_get v k = Some (Array items)) (keys @ DEFAULT_LIST_KEYS) of
             None \<Rightarrow> []
           | Some k \<Rightarrow> (case object_get v k of Some (Array items) \<Rightarrow> items | _ \<Rightarrow> []))
      | _ \<Rightarrow> [])"
proof (cases v)
  case (Array vs)
  then show ?thesis by (cases vs) (simp_all split: Value.splits)
next
  case (Object obj)
  show ?thesis unfolding Object object_get.simps by (simp add: list_under_first)
qed simp_all

end
