(* ===== verification/TokenStore.thy ===== *)
theory TokenStore
  imports ApiError
begin

text \<open>
  Where the tokens of a session are kept: \<open>token_store.rs\<close> and \<open>keyring_token_store.rs\<close> under
  \<open>toolkit/dovetail_http_client/rust/src\<close>.  The trait is a record of operations over the state of
  a store; what its callers rely on is a locale, with the two stores of the code as its
  interpretations.
\<close>

section \<open>The trait\<close>

record 's TokenStore =
  get_token :: "'s \<Rightarrow> (ApiError + string option) \<times> 's"
  set_token :: "string \<Rightarrow> 's \<Rightarrow> (ApiError + unit) \<times> 's"
  get_refresh_token :: "'s \<Rightarrow> (ApiError + string option) \<times> 's"
  set_refresh_token :: "string option \<Rightarrow> 's \<Rightarrow> (ApiError + unit) \<times> 's"
  clear_token :: "'s \<Rightarrow> (ApiError + unit) \<times> 's"

text \<open>
  The laws: reading changes nothing and tells the truth, a write that succeeds is seen, and, where
  the two tokens have places of their own, leaves the other token alone; a failed write changes
  no more than its own token.  A healthy store does not fail.
\<close>

locale token_store =
  fixes store :: "'s TokenStore"
    and access :: "'s \<Rightarrow> string option" and refresh :: "'s \<Rightarrow> string option"
    and separate :: bool
  assumes get_reads: "get_token store s = (r, s') \<Longrightarrow>
      access s' = access s \<and> refresh s' = refresh s \<and> (\<forall>v. r = Ok v \<longrightarrow> v = access s)"
    and get_refresh_reads: "get_refresh_token store s = (r, s') \<Longrightarrow>
      access s' = access s \<and> refresh s' = refresh s \<and> (\<forall>v. r = Ok v \<longrightarrow> v = refresh s)"
    and set_writes: "set_token store t s = (q, s') \<Longrightarrow>
      (if q = Ok () then access s' = Some t else access s' = access s) \<and>
      (separate \<longrightarrow> refresh s' = refresh s)"
    and set_refresh_writes: "set_refresh_token store v s = (q, s') \<Longrightarrow>
      (if q = Ok () then refresh s' = v else refresh s' = refresh s) \<and>
      (separate \<longrightarrow> access s' = access s)"
    and clear_clears: "clear_token store s = (Ok (), s') \<Longrightarrow> access s' = None \<and> (separate \<longrightarrow> refresh s' = None)"
begin

lemma login_session:
  assumes "separate" and "set_token store t s = (Ok (), s1)"
    and "set_refresh_token store (Some r) s1 = (Ok (), s2)"
  shows "access s2 = Some t \<and> refresh s2 = Some r"
  using set_writes [OF assms(2)] set_refresh_writes [OF assms(3)] assms(1) by auto

lemma set_then_get:
  "set_token store t s = (Ok (), s1) \<Longrightarrow> get_token store s1 = (Ok v, s2) \<Longrightarrow> v = Some t"
  using set_writes [of t s "Ok ()" s1] get_reads [of s1 "Ok v" s2] by auto

lemma clear_then_get:
  "clear_token store s = (Ok (), s1) \<Longrightarrow> get_token store s1 = (Ok v, s2) \<Longrightarrow> v = None"
  using clear_clears [of s s1] get_reads [of s1 "Ok v" s2] by auto

end

locale reliable_token_store = token_store store access refresh separate
  for store :: "'s TokenStore" and access refresh :: "'s \<Rightarrow> string option" and separate :: bool +
  fixes healthy :: "'s \<Rightarrow> bool"
  assumes get_succeeds: "healthy s \<Longrightarrow> is_ok (fst (get_token store s)) \<and> healthy (snd (get_token store s))"
    and set_succeeds: "healthy s \<Longrightarrow> fst (set_token store t s) = Ok () \<and> healthy (snd (set_token store t s))"
    and set_refresh_succeeds: "healthy s \<Longrightarrow>
      fst (set_refresh_token store v s) = Ok () \<and> healthy (snd (set_refresh_token store v s))"
    and clear_succeeds: "healthy s \<Longrightarrow> fst (clear_token store s) = Ok () \<and> healthy (snd (clear_token store s))"
begin

lemma session_kept:
  assumes "healthy s" and "separate"
  shows "fst (get_token store (snd (set_refresh_token store r (snd (set_token store t s))))) = Ok (Some t)"
proof -
  obtain s1 where a: "set_token store t s = (Ok (), s1)" "healthy s1"
    using set_succeeds [OF assms(1)] by (metis prod.collapse)
  obtain s2 where b: "set_refresh_token store r s1 = (Ok (), s2)" "healthy s2"
    using set_refresh_succeeds [OF a(2)] by (metis prod.collapse)
  obtain v s3 where c: "get_token store s2 = (Ok v, s3)"
    using get_succeeds [OF b(2)] by (metis prod.collapse is_ok_iff)
  have "v = Some t"
    using get_reads [OF c] set_refresh_writes [OF b(1)] set_writes [OF a(1)] assms(2) by auto
  then show ?thesis using a b c by simp
qed

lemma session_cleared:
  assumes "healthy s"
  shows "fst (get_token store (snd (clear_token store s))) = Ok None"
proof -
  obtain s1 where a: "clear_token store s = (Ok (), s1)" "healthy s1"
    using clear_succeeds [OF assms] by (metis prod.collapse)
  obtain v s2 where b: "get_token store s1 = (Ok v, s2)"
    using get_succeeds [OF a(2)] by (metis prod.collapse is_ok_iff)
  show ?thesis using a b clear_then_get [OF a(1) b] by simp
qed

end

section \<open>In memory\<close>

record MemoryTokenStore =
  mem_token :: "string option"
  mem_refresh :: "string option"

definition memory_store :: "MemoryTokenStore TokenStore" where
  "memory_store =
     \<lparr>get_token = (\<lambda>s. (Ok (mem_token s), s)),
      set_token = (\<lambda>t s. (Ok (), s\<lparr>mem_token := Some t\<rparr>)),
      get_refresh_token = (\<lambda>s. (Ok (mem_refresh s), s)),
      set_refresh_token = (\<lambda>v s. (Ok (), s\<lparr>mem_refresh := v\<rparr>)),
      clear_token = (\<lambda>s. (Ok (), s\<lparr>mem_token := None, mem_refresh := None\<rparr>))\<rparr>"

interpretation memory: reliable_token_store memory_store mem_token mem_refresh True "\<lambda>_. True"
  by unfold_locales (auto simp: memory_store_def)

section \<open>In the keyring of the system\<close>

text \<open>
  The keyring belongs to the system: a password per service and user, and the text of the error a
  call has, if it has one, given the calls before it.
\<close>

datatype keyring_call =
    NewEntry string string
  | GetPassword string string
  | SetPassword string string string
  | DeleteCredential string string

datatype keyring_error = NoEntry | OtherError string

record keyring =
  passwords :: "string \<times> string \<Rightarrow> string option"
  keyring_calls :: "keyring_call list"
  keyring_fails :: "keyring_call list \<Rightarrow> keyring_call \<Rightarrow> string option"

definition NO_ENTRY_TEXT :: string where
  "NO_ENTRY_TEXT = ''No matching entry found in secure storage''"

fun keyring_error_text :: "keyring_error \<Rightarrow> string" where
  "keyring_error_text NoEntry = NO_ENTRY_TEXT"
| "keyring_error_text (OtherError t) = t"

fun keyring_effect :: "keyring_call \<Rightarrow> keyring \<Rightarrow> (keyring_error + string) \<times> keyring" where
  "keyring_effect (NewEntry _ _) k = (Ok [], k)"
| "keyring_effect (GetPassword s u) k =
     (case passwords k (s, u) of Some p \<Rightarrow> Ok p | None \<Rightarrow> Err NoEntry, k)"
| "keyring_effect (SetPassword s u p) k = (Ok [], k\<lparr>passwords := (passwords k)((s, u) \<mapsto> p)\<rparr>)"
| "keyring_effect (DeleteCredential s u) k =
     (case passwords k (s, u) of
        Some _ \<Rightarrow> (Ok [], k\<lparr>passwords := (passwords k)((s, u) := None)\<rparr>)
      | None \<Rightarrow> (Err NoEntry, k))"

definition keyring_do :: "keyring_call \<Rightarrow> keyring \<Rightarrow> (keyring_error + string) \<times> keyring" where
  "keyring_do c k =
     (let k1 = k\<lparr>keyring_calls := keyring_calls k @ [c]\<rparr>
      in case keyring_fails k (keyring_calls k) c of
           Some t \<Rightarrow> (Err (OtherError t), k1)
         | None \<Rightarrow> keyring_effect c k1)"

text \<open>\<open>Entry::new\<close> and then one call on the entry; an entry that cannot be made is an error.\<close>

definition on_entry ::
  "string \<Rightarrow> string \<Rightarrow> keyring_call \<Rightarrow> keyring \<Rightarrow> (ApiError + keyring_error + string) \<times> keyring" where
  "on_entry service user c k =
     (case keyring_do (NewEntry service user) k of
        (Inl e, k1) \<Rightarrow> (Err (TokenStoreError (keyring_error_text e)), k1)
      | (Inr _, k1) \<Rightarrow> (let (r, k2) = keyring_do c k1 in (Ok r, k2)))"

definition password_read ::
  "(ApiError + keyring_error + string) \<times> keyring \<Rightarrow> (ApiError + string option) \<times> keyring" where
  "password_read x =
     (case fst x of
        Inl e \<Rightarrow> Err e
      | Inr (Inl NoEntry) \<Rightarrow> Ok None
      | Inr (Inl e) \<Rightarrow> Err (TokenStoreError (keyring_error_text e))
      | Inr (Inr p) \<Rightarrow> Ok (Some p),
      snd x)"

definition password_written ::
  "(ApiError + keyring_error + string) \<times> keyring \<Rightarrow> (ApiError + unit) \<times> keyring" where
  "password_written x =
     (case fst x of
        Inl e \<Rightarrow> Err e
      | Inr (Inl e) \<Rightarrow> Err (TokenStoreError (keyring_error_text e))
      | Inr (Inr _) \<Rightarrow> Ok (),
      snd x)"

definition password_deleted ::
  "(ApiError + keyring_error + string) \<times> keyring \<Rightarrow> (ApiError + unit) \<times> keyring" where
  "password_deleted x =
     (case fst x of
        Inl e \<Rightarrow> Err e
      | Inr (Inl NoEntry) \<Rightarrow> Ok ()
      | Inr (Inl e) \<Rightarrow> Err (TokenStoreError (keyring_error_text e))
      | Inr (Inr _) \<Rightarrow> Ok (),
      snd x)"

record KeyringTokenStore =
  service :: string
  access_entry :: string
  refresh_entry :: string

definition new_keyring_store :: "string \<Rightarrow> string \<Rightarrow> string \<Rightarrow> KeyringTokenStore" where
  "new_keyring_store s a r = \<lparr>service = s, access_entry = a, refresh_entry = r\<rparr>"

definition keyring_get :: "string \<Rightarrow> string \<Rightarrow> keyring \<Rightarrow> (ApiError + string option) \<times> keyring" where
  "keyring_get s u k = password_read (on_entry s u (GetPassword s u) k)"

definition keyring_set :: "string \<Rightarrow> string \<Rightarrow> string \<Rightarrow> keyring \<Rightarrow> (ApiError + unit) \<times> keyring" where
  "keyring_set s u p k = password_written (on_entry s u (SetPassword s u p) k)"

definition keyring_delete :: "string \<Rightarrow> string \<Rightarrow> keyring \<Rightarrow> (ApiError + unit) \<times> keyring" where
  "keyring_delete s u k = password_deleted (on_entry s u (DeleteCredential s u) k)"

definition keyring_set_refresh ::
  "KeyringTokenStore \<Rightarrow> string option \<Rightarrow> keyring \<Rightarrow> (ApiError + unit) \<times> keyring" where
  "keyring_set_refresh t v k =
     (case v of
        Some p \<Rightarrow> keyring_set (service t) (refresh_entry t) p k
      | None \<Rightarrow> keyring_delete (service t) (refresh_entry t) k)"

definition keyring_clear :: "KeyringTokenStore \<Rightarrow> keyring \<Rightarrow> (ApiError + unit) \<times> keyring" where
  "keyring_clear t k =
     (case keyring_set_refresh t None k of
        (Inl e, k1) \<Rightarrow> (Err e, k1)
      | (Inr _, k1) \<Rightarrow> keyring_delete (service t) (access_entry t) k1)"

definition keyring_store :: "KeyringTokenStore \<Rightarrow> keyring TokenStore" where
  "keyring_store t =
     \<lparr>get_token = keyring_get (service t) (access_entry t),
      set_token = keyring_set (service t) (access_entry t),
      get_refresh_token = keyring_get (service t) (refresh_entry t),
      set_refresh_token = keyring_set_refresh t,
      clear_token = keyring_clear t\<rparr>"

text \<open>\<open>KeyringSessionStore\<close> keeps one entry with the same three operations.\<close>

record KeyringSessionStore =
  session_service :: string
  entry_name :: string

definition new_session_store :: "string \<Rightarrow> string \<Rightarrow> KeyringSessionStore" where
  "new_session_store s e = \<lparr>session_service = s, entry_name = e\<rparr>"

definition session_get :: "KeyringSessionStore \<Rightarrow> keyring \<Rightarrow> (ApiError + string option) \<times> keyring" where
  "session_get t k = keyring_get (session_service t) (entry_name t) k"

definition session_set :: "KeyringSessionStore \<Rightarrow> string \<Rightarrow> keyring \<Rightarrow> (ApiError + unit) \<times> keyring" where
  "session_set t json k = keyring_set (session_service t) (entry_name t) json k"

definition session_clear :: "KeyringSessionStore \<Rightarrow> keyring \<Rightarrow> (ApiError + unit) \<times> keyring" where
  "session_clear t k = keyring_delete (session_service t) (entry_name t) k"

section \<open>The keyring keeps the laws\<close>

lemmas keyring_ops = on_entry_def keyring_do_def password_read_def password_written_def
  password_deleted_def

lemma keyring_get_effect:
  assumes "keyring_get s u k = (r, k')"
  shows "passwords k' = passwords k" and "r = Ok v \<Longrightarrow> v = passwords k (s, u)"
  using assms
  by (auto simp: keyring_get_def keyring_ops Let_def split: option.splits)

lemma keyring_set_effect:
  assumes "keyring_set s u p k = (r, k')"
  shows "passwords k' = (if r = Ok () then (passwords k)((s, u) \<mapsto> p) else passwords k)"
  using assms
  by (auto simp: keyring_set_def keyring_ops Let_def split: option.splits)

lemma keyring_delete_effect:
  assumes "keyring_delete s u k = (r, k')"
  shows "passwords k' = (if r = Ok () then (passwords k)((s, u) := None) else passwords k)"
  using assms
  by (auto simp: keyring_delete_def keyring_ops Let_def split: option.splits)

definition never_fails :: "keyring \<Rightarrow> bool" where
  "never_fails k \<longleftrightarrow> keyring_fails k = (\<lambda>_ _. None)"

lemma never_fails_simps:
  assumes "never_fails k"
  shows "keyring_get s u k = (Ok (passwords k (s, u)), snd (keyring_get s u k))"
    and "never_fails (snd (keyring_get s u k))"
    and "keyring_set s u p k = (Ok (), snd (keyring_set s u p k))"
    and "never_fails (snd (keyring_set s u p k))"
    and "keyring_delete s u k = (Ok (), snd (keyring_delete s u k))"
    and "never_fails (snd (keyring_delete s u k))"
  using assms
  by (auto simp: never_fails_def keyring_get_def keyring_set_def keyring_delete_def keyring_ops
      Let_def split: option.splits)

text \<open>Each operation of the store, by what it leaves under its two entries.\<close>

lemma keyring_store_get:
  assumes "get_token (keyring_store t) s = (r, s')"
  shows "passwords s' = passwords s" and "r = Ok v \<Longrightarrow> v = passwords s (service t, access_entry t)"
  using assms keyring_get_effect [of "service t" "access_entry t" s r s'] by (simp_all add: keyring_store_def)

lemma keyring_store_get_refresh:
  assumes "get_refresh_token (keyring_store t) s = (r, s')"
  shows "passwords s' = passwords s" and "r = Ok v \<Longrightarrow> v = passwords s (service t, refresh_entry t)"
  using assms keyring_get_effect [of "service t" "refresh_entry t" s r s'] by (simp_all add: keyring_store_def)

lemma keyring_store_set:
  assumes "set_token (keyring_store t) p s = (q, s')"
  shows "passwords s' = (if q = Ok () then (passwords s)((service t, access_entry t) \<mapsto> p) else passwords s)"
  using assms keyring_set_effect [of "service t" "access_entry t" p s q s'] by (simp add: keyring_store_def)

lemma keyring_store_set_refresh:
  assumes "set_refresh_token (keyring_store t) v s = (q, s')"
  shows "passwords s' = (if q = Ok () then (passwords s)((service t, refresh_entry t) := v) else passwords s)"
  using assms keyring_delete_effect [of "service t" "refresh_entry t" s q s']
    keyring_set_effect [of "service t" "refresh_entry t" _ s q s']
  by (cases v) (simp_all add: keyring_store_def keyring_set_refresh_def)

lemma keyring_store_clear:
  assumes "clear_token (keyring_store t) s = (Ok (), s')"
  shows "passwords s' = (passwords s)((service t, refresh_entry t) := None, (service t, access_entry t) := None)"
proof -
  obtain s1 where "keyring_delete (service t) (refresh_entry t) s = (Ok (), s1)"
    and "keyring_delete (service t) (access_entry t) s1 = (Ok (), s')"
    using assms by (auto simp: keyring_store_def keyring_clear_def keyring_set_refresh_def split: prod.splits sum.splits)
  then show ?thesis by (auto dest!: keyring_delete_effect)
qed

lemma keyring_store_reliable:
  assumes "never_fails s"
  shows "is_ok (fst (get_token (keyring_store t) s)) \<and> never_fails (snd (get_token (keyring_store t) s))"
    and "fst (set_token (keyring_store t) p s) = Ok () \<and> never_fails (snd (set_token (keyring_store t) p s))"
    and "fst (set_refresh_token (keyring_store t) v s) = Ok () \<and>
      never_fails (snd (set_refresh_token (keyring_store t) v s))"
    and "fst (clear_token (keyring_store t) s) = Ok () \<and> never_fails (snd (clear_token (keyring_store t) s))"
proof -
  note reliable = never_fails_simps [OF assms]
  show "is_ok (fst (get_token (keyring_store t) s)) \<and> never_fails (snd (get_token (keyring_store t) s))"
    using reliable(2) by (simp add: keyring_store_def) (subst reliable(1), simp)
  show "fst (set_token (keyring_store t) p s) = Ok () \<and> never_fails (snd (set_token (keyring_store t) p s))"
    using reliable(4) by (simp add: keyring_store_def) (subst reliable(3), simp)
  show "fst (set_refresh_token (keyring_store t) v s) = Ok () \<and>
      never_fails (snd (set_refresh_token (keyring_store t) v s))"
    using reliable(3-6) by (auto simp: keyring_store_def keyring_set_refresh_def prod_eq_iff split: option.splits)
  let ?s1 = "snd (keyring_delete (service t) (refresh_entry t) s)"
  have "clear_token (keyring_store t) s = keyring_delete (service t) (access_entry t) ?s1"
    by (simp add: keyring_store_def keyring_clear_def keyring_set_refresh_def) (subst reliable(5), simp)
  then show "fst (clear_token (keyring_store t) s) = Ok () \<and> never_fails (snd (clear_token (keyring_store t) s))"
    using never_fails_simps(5,6) [OF reliable(6)] by (metis fst_conv)
qed

interpretation keyring: reliable_token_store "keyring_store t"
  "\<lambda>k. passwords k (service t, access_entry t)" "\<lambda>k. passwords k (service t, refresh_entry t)"
  "access_entry t \<noteq> refresh_entry t" never_fails for t
  by unfold_locales
    (auto simp: keyring_store_reliable split: if_splits
      dest: keyring_store_get keyring_store_get_refresh keyring_store_set keyring_store_set_refresh keyring_store_clear)

section \<open>Properties\<close>

text \<open>
  Both stores keep a session: the access token read after a session is stored is the one
  written, whatever is written as the refresh token after it, and none is read after the session
  is cleared; the keyring as long as it does not fail and the two entries have names of their own.
\<close>

theorem sessions_kept:
  "never_fails k \<and> access_entry t \<noteq> refresh_entry t \<Longrightarrow>
   fst (get_token (keyring_store t)
     (snd (set_refresh_token (keyring_store t) r (snd (set_token (keyring_store t) a k))))) = Ok (Some a) \<and>
   fst (get_token (keyring_store t) (snd (clear_token (keyring_store t) k))) = Ok None \<and>
   fst (get_token memory_store
     (snd (set_refresh_token memory_store r (snd (set_token memory_store a m))))) = Ok (Some a) \<and>
   fst (get_token memory_store (snd (clear_token memory_store m))) = Ok None"
  using keyring.session_kept [of k t r a] keyring.session_cleared [of k t]
    memory.session_kept [of r a m] memory.session_cleared [of m]
  by simp

definition example_keyring :: keyring where
  "example_keyring = \<lparr>passwords = Map.empty, keyring_calls = [], keyring_fails = (\<lambda>_ _. None)\<rparr>"

definition example_entries :: KeyringTokenStore where
  "example_entries = \<lparr>service = ''app'', access_entry = ''access'', refresh_entry = ''refresh''\<rparr>"

theorem sessions_kept_witness:
  "fst (get_token (keyring_store example_entries)
     (snd (set_refresh_token (keyring_store example_entries) (Some ''r'')
       (snd (set_token (keyring_store example_entries) ''a'' example_keyring))))) = Ok (Some ''a'')"
  using sessions_kept [of example_keyring example_entries "Some ''r''" "''a''" undefined]
  by (simp add: example_keyring_def example_entries_def never_fails_def)

text \<open>
  Clearing the keyring either removes both tokens or reports an error, and after an error the
  access token is still there; entries of other names are never touched.
\<close>

theorem keyring_clear_outcome:
  assumes "access_entry t \<noteq> refresh_entry t"
    and "clear_token (keyring_store t) k = (r, k')"
  shows "(if r = Ok () then passwords k' (service t, access_entry t) = None \<and>
            passwords k' (service t, refresh_entry t) = None
          else passwords k' (service t, access_entry t) = passwords k (service t, access_entry t)) \<and>
    (\<forall>e. e \<notin> {(service t, access_entry t), (service t, refresh_entry t)} \<longrightarrow>
       passwords k' e = passwords k e)"
proof -
  obtain q k1 where a: "keyring_delete (service t) (refresh_entry t) k = (q, k1)" by fastforce
  have k1: "passwords k1 =
      (if q = Ok () then (passwords k)((service t, refresh_entry t) := None) else passwords k)"
    by (rule keyring_delete_effect [OF a])
  show ?thesis
  proof (cases "q = Ok ()")
    case True
    then have "keyring_delete (service t) (access_entry t) k1 = (r, k')"
      using assms(2) a by (simp add: keyring_store_def keyring_clear_def keyring_set_refresh_def)
    then show ?thesis
      using keyring_delete_effect [of "service t" "access_entry t" k1 r k'] k1 True assms(1) by auto
  next
    case False
    then obtain e where "q = Err e" by (cases q) auto
    then have "r = Err e" "k' = k1"
      using assms(2) a by (simp_all add: keyring_store_def keyring_clear_def keyring_set_refresh_def)
    then show ?thesis using k1 False by simp
  qed
qed

definition locked_keyring :: keyring where
  "locked_keyring = example_keyring\<lparr>keyring_fails := (\<lambda>_ _. Some ''locked'')\<rparr>"

theorem keyring_clear_outcome_witness:
  "fst (clear_token (keyring_store example_entries) locked_keyring) = Err (TokenStoreError ''locked'') \<and>
   passwords (snd (clear_token (keyring_store example_entries) locked_keyring)) (''app'', ''access'') =
     passwords locked_keyring (''app'', ''access'')"
proof -
  have r: "fst (clear_token (keyring_store example_entries) locked_keyring) = Err (TokenStoreError ''locked'')"
    by (simp add: keyring_store_def keyring_clear_def keyring_set_refresh_def keyring_delete_def
        keyring_ops Let_def locked_keyring_def)
  then show ?thesis
    using keyring_clear_outcome [of example_entries, OF _ surjective_pairing, of locked_keyring]
    by (simp add: example_entries_def)
qed

end
