(* ===== verification/Multipart.thy ===== *)
theory Multipart
  imports Prelude
begin

text \<open>
  The body of an upload: \<open>client/multipart.rs\<close> under \<open>toolkit/dovetail_http_client/rust/src\<close>,
  without the request that carries it.  The digest function is a parameter.
\<close>

section \<open>The body\<close>

definition as_bytes :: "string \<Rightarrow> bytes" where
  "as_bytes s = map of_char s"

definition hex_encode :: "bytes \<Rightarrow> string" where
  "hex_encode bs = concat (map (\<lambda>b. [hex_digit (unat b div 16), hex_digit (unat b)]) bs)"

definition boundary_for :: "(bytes \<Rightarrow> bytes) \<Rightarrow> bytes \<Rightarrow> string" where
  "boundary_for sha256 bs = ''----dovetail-'' @ hex_encode (take 12 (sha256 bs))"

definition unsafe_in_name :: "char list" where
  "unsafe_in_name = [CHR 0x22, CHR 0x0D, CHR 0x0A, CHR 0x5C]"

definition safe_filename :: "string \<Rightarrow> string" where
  "safe_filename f = trim (map (\<lambda>c. if c \<in> set unsafe_in_name then CHR ''_'' else c) f)"

definition CRLF :: string where
  "CRLF = [CHR 0x0D, CHR 0x0A]"

definition multipart_head :: "string \<Rightarrow> string \<Rightarrow> string \<Rightarrow> string" where
  "multipart_head boundary filename content_type =
     ''--'' @ boundary @ CRLF @
     ''Content-Disposition: form-data; name='' @ [CHR 0x22] @ ''file'' @ [CHR 0x22] @
     ''; filename='' @ [CHR 0x22] @ safe_filename filename @ [CHR 0x22] @ CRLF @
     ''Content-Type: '' @ content_type @ CRLF @ CRLF"

definition multipart_tail :: "string \<Rightarrow> string" where
  "multipart_tail boundary = CRLF @ ''--'' @ boundary @ ''--'' @ CRLF"

definition multipart_body :: "string \<Rightarrow> string \<Rightarrow> string \<Rightarrow> bytes \<Rightarrow> bytes" where
  "multipart_body boundary filename content_type bs =
     as_bytes (multipart_head boundary filename content_type) @ bs @ as_bytes (multipart_tail boundary)"

text \<open>
  What a receiver does with a part: the lines before the first empty one are its headers, and the
  content lasts until the delimiter of the given boundary.
\<close>

definition part_content :: "string \<Rightarrow> bytes \<Rightarrow> bytes option" where
  "part_content boundary body =
     (case find_str (as_bytes (CRLF @ CRLF)) body of
        None \<Rightarrow> None
      | Some i \<Rightarrow>
          (let content = drop (i + 4) body
           in map_option (\<lambda>j. take j content) (find_str (as_bytes (CRLF @ ''--'' @ boundary)) content)))"

section \<open>Lemmas\<close>

lemma as_bytes_append: "as_bytes (s @ t) = as_bytes s @ as_bytes t"
  by (simp add: as_bytes_def)

lemma of_char_bit:
  "bit (of_char c :: u8) n \<longleftrightarrow>
     n < 8 \<and> [digit0 c, digit1 c, digit2 c, digit3 c, digit4 c, digit5 c, digit6 c, digit7 c] ! n"
  unfolding of_char_def bit_horner_sum_bit_word_iff by auto

lemma of_char_eq: "(of_char c :: u8) = of_char d \<longleftrightarrow> c = d"
proof
  assume "(of_char c :: u8) = of_char d"
  then have *: "bit (of_char c :: u8) n \<longleftrightarrow> bit (of_char d :: u8) n" for n by simp
  show "c = d"
    using * [of 0, unfolded of_char_bit] * [of 1, unfolded of_char_bit]
      * [of 2, unfolded of_char_bit] * [of 3, unfolded of_char_bit]
      * [of 4, unfolded of_char_bit] * [of 5, unfolded of_char_bit]
      * [of 6, unfolded of_char_bit] * [of 7, unfolded of_char_bit]
    by (cases c; cases d) simp
qed simp

lemma as_bytes_member: "of_char c \<in> set (as_bytes s) \<longleftrightarrow> c \<in> set s"
  by (auto simp: as_bytes_def of_char_eq)

lemma as_bytes_CRLF: "as_bytes CRLF = [13, 10]"
  by (simp add: as_bytes_def CRLF_def)

lemma find_str_skip_line:
  assumes "(13 :: u8) \<notin> set l" and "\<not> starts_with [13, 10] m"
  shows "find_str [13, 10, 13, 10] (l @ [13, 10] @ m) =
    map_option ((+) (length l + 2)) (find_str [13, 10, 13, 10] m)"
  using assms(1)
proof (induction l)
  case Nil
  have "m = [] \<or> (\<exists>x xs. m = x # xs)" by (cases m) auto
  then show ?case using assms(2) by (auto simp: option.map_comp o_def)
next
  case (Cons x xs)
  then have "x \<noteq> 13" by auto
  then show ?case using Cons by (simp add: option.map_comp o_def)
qed

lemma find_str_end_of_headers:
  assumes "(13 :: u8) \<notin> set l"
  shows "find_str [13, 10, 13, 10] (l @ [13, 10] @ [13, 10] @ m) = Some (length l)"
  using assms by (induction l) auto

lemma unsafe_not_in_name: "c \<in> set unsafe_in_name \<Longrightarrow> c \<notin> set (safe_filename f)"
proof -
  assume c: "c \<in> set unsafe_in_name"
  have "CHR ''_'' \<notin> set unsafe_in_name" by (simp add: unsafe_in_name_def)
  then have "c \<notin> set (map (\<lambda>c. if c \<in> set unsafe_in_name then CHR ''_'' else c) f)"
    using c by (auto split: if_splits)
  then show ?thesis unfolding safe_filename_def using set_trim by blast
qed

section \<open>Properties\<close>

definition disposition_line :: "string \<Rightarrow> string" where
  "disposition_line filename =
     ''Content-Disposition: form-data; name='' @ [CHR 0x22] @ ''file'' @ [CHR 0x22] @
     ''; filename='' @ [CHR 0x22] @ safe_filename filename @ [CHR 0x22]"

lemma head_lines:
  "multipart_head boundary filename content_type =
     (''--'' @ boundary) @ CRLF @ disposition_line filename @ CRLF @
     (''Content-Type: '' @ content_type) @ CRLF @ CRLF"
  by (simp add: multipart_head_def disposition_line_def)

lemma disposition_no_break: "CHR 0x0D \<notin> set (disposition_line f)" "CHR 0x0A \<notin> set (disposition_line f)"
  using unsafe_not_in_name [of "CHR 0x0D" f] unsafe_not_in_name [of "CHR 0x0A" f]
  by (auto simp: disposition_line_def unsafe_in_name_def)

lemma headers_end:
  assumes "CHR 0x0D \<notin> set boundary" and "CHR 0x0D \<notin> set content_type"
  shows "find_str (as_bytes (CRLF @ CRLF)) (as_bytes (multipart_head boundary filename content_type) @ bs) =
    Some (length (multipart_head boundary filename content_type) - 4)"
proof -
  define a b c where "a = as_bytes (''--'' @ boundary)" and "b = as_bytes (disposition_line filename)"
    and "c = as_bytes (''Content-Type: '' @ content_type)"
  have cr: "(of_char (CHR 0x0D) :: u8) = 13" by simp
  have no: "13 \<notin> set a" "13 \<notin> set b" "13 \<notin> set c"
    unfolding a_def b_def c_def cr [symmetric] as_bytes_member
    using assms disposition_no_break by auto
  have start: "\<not> starts_with [13, 10] (b @ r)" "\<not> starts_with [13, 10] (c @ r)" for r
    by (simp_all add: b_def c_def as_bytes_def disposition_line_def)
  have body: "as_bytes (multipart_head boundary filename content_type) @ bs =
      a @ [13, 10] @ b @ [13, 10] @ c @ [13, 10] @ [13, 10] @ bs"
    unfolding head_lines a_def b_def c_def as_bytes_append as_bytes_CRLF by simp
  have "length (multipart_head boundary filename content_type) =
      length (as_bytes (multipart_head boundary filename content_type))"
    by (simp add: as_bytes_def)
  also have "\<dots> = length a + 2 + (length b + 2) + length c + 4"
    unfolding head_lines a_def b_def c_def as_bytes_append as_bytes_CRLF by simp
  finally have len: "length (multipart_head boundary filename content_type) - 4 =
      length a + 2 + (length b + 2 + length c)" by simp
  have "find_str [13, 10, 13, 10] (a @ [13, 10] @ b @ [13, 10] @ c @ [13, 10] @ [13, 10] @ bs) =
      Some (length a + 2 + (length b + 2 + length c))"
    using find_str_skip_line [OF no(1) start(1)] find_str_skip_line [OF no(2) start(2)]
      find_str_end_of_headers [OF no(3)] by simp
  then show ?thesis by (simp only: body len) (simp add: as_bytes_append as_bytes_CRLF)
qed

lemma find_str_delimiter:
  assumes "d \<noteq> []" and "\<not> contains d (bs @ butlast d)"
  shows "find_str d (bs @ d @ r) = Some (length bs)"
proof (rule find_str_at)
  fix j
  assume j: "j < length bs"
  show "\<not> starts_with d (drop j (bs @ d @ r))"
  proof
    assume "starts_with d (drop j (bs @ d @ r))"
    then obtain t where t: "drop j bs @ d @ r = d @ t" using j by (auto simp: starts_with_iff)
    have "length d \<le> length (drop j bs @ butlast d)" using j by simp
    moreover have "drop j bs @ d @ r = (drop j bs @ butlast d) @ last d # r"
      using assms(1) by (metis append.assoc append_Cons append_Nil append_butlast_last_id)
    ultimately have "d @ drop (length d) (drop j bs @ butlast d) = drop j bs @ butlast d"
      using t by (metis append_eq_append_conv_if append_take_drop_id take_append)
    then have "bs @ butlast d = take j bs @ d @ drop (length d) (drop j bs @ butlast d)"
      by (metis append.assoc append_take_drop_id)
    then show False using assms(2) unfolding contains_iff by blast
  qed
qed simp_all

lemma hex_encode_plain: "c \<in> set (hex_encode bs) \<Longrightarrow> c \<in> set ''0123456789abcdef''"
proof -
  have "hex_digit n \<in> set ''0123456789abcdef''" for n
    unfolding hex_digit_def by (rule nth_mem) simp
  then show "c \<in> set (hex_encode bs) \<Longrightarrow> ?thesis" by (auto simp: hex_encode_def)
qed

lemma boundary_no_break:
  "CHR 0x0D \<notin> set (boundary_for sha256 bs)" "CHR 0x0A \<notin> set (boundary_for sha256 bs)"
  using hex_encode_plain [of "CHR 0x0D"] hex_encode_plain [of "CHR 0x0A"]
  by (auto simp: boundary_for_def)

lemma str_lines_crlf: "CHR 0x0A \<notin> set l \<Longrightarrow> str_lines (l @ CRLF @ s) = l # str_lines s"
  using str_lines_terminated [of "l @ [CHR 0x0D]" s] by (simp add: CRLF_def strip_cr_def)

text \<open>
  C39: a receiver that splits the body of an upload at the first empty line and at the delimiter
  gets the content back byte by byte, provided the delimiter does not occur in it, and reads
  exactly three header lines, whatever the file is called: no name adds a line or ends its quotes.
\<close>

theorem multipart_carries_content:
  assumes "boundary = boundary_for sha256 bs"
    and "CHR 0x0D \<notin> set content_type" and "CHR 0x0A \<notin> set content_type"
    and "\<not> contains (as_bytes (CRLF @ ''--'' @ boundary)) (bs @ butlast (as_bytes (CRLF @ ''--'' @ boundary)))"
  shows "part_content boundary (multipart_body boundary filename content_type bs) = Some bs \<and>
    str_lines (multipart_head boundary filename content_type) =
      [''--'' @ boundary, disposition_line filename, ''Content-Type: '' @ content_type, []] \<and>
    set (safe_filename filename) \<inter> set unsafe_in_name = {}"
proof (intro conjI)
  let ?head = "multipart_head boundary filename content_type"
  let ?d = "as_bytes (CRLF @ ''--'' @ boundary)"
  have "4 \<le> length ?head" by (simp add: multipart_head_def CRLF_def)
  then have rest: "drop (length ?head - 4 + 4) (multipart_body boundary filename content_type bs) =
      bs @ ?d @ as_bytes (''--'' @ CRLF)"
    by (simp add: multipart_body_def multipart_tail_def as_bytes_def)
  have end_of_headers: "find_str (as_bytes (CRLF @ CRLF)) (multipart_body boundary filename content_type bs) =
      Some (length ?head - 4)"
    unfolding multipart_body_def
    by (rule headers_end) (use assms(1,2) boundary_no_break in auto)
  have "?d \<noteq> []" by (simp add: as_bytes_def CRLF_def)
  then have "find_str ?d (bs @ ?d @ as_bytes (''--'' @ CRLF)) = Some (length bs)"
    using assms(4) by (rule find_str_delimiter)
  then show "part_content boundary (multipart_body boundary filename content_type bs) = Some bs"
    unfolding part_content_def end_of_headers option.case rest Let_def by simp
  have "CHR 0x0A \<notin> set (''--'' @ boundary)" "CHR 0x0A \<notin> set (''Content-Type: '' @ content_type)"
    using assms(1,3) boundary_no_break by auto
  moreover have "str_lines CRLF = [[]]" using str_lines_crlf [of "[]" "[]"] by simp
  ultimately show "str_lines ?head =
      [''--'' @ boundary, disposition_line filename, ''Content-Type: '' @ content_type, []]"
    unfolding head_lines by (simp only: str_lines_crlf disposition_no_break not_False_eq_True)
  show "set (safe_filename filename) \<inter> set unsafe_in_name = {}"
    using unsafe_not_in_name by blast
qed

theorem multipart_carries_content_witness:
  "part_content (boundary_for (\<lambda>_. [7]) [1, 2])
     (multipart_body (boundary_for (\<lambda>_. [7]) [1, 2]) ''a.bin'' ''text/plain'' [1, 2]) = Some [1, 2]"
proof -
  have "\<not> contains (as_bytes (CRLF @ ''--'' @ boundary_for (\<lambda>_. [7]) [1, 2]))
      ([1, 2] @ butlast (as_bytes (CRLF @ ''--'' @ boundary_for (\<lambda>_. [7]) [1, 2])))"
    by (simp add: contains_def boundary_for_def hex_encode_def hex_digit_def as_bytes_def CRLF_def)
  then show ?thesis
    using multipart_carries_content [OF refl, of "''text/plain''" "\<lambda>_. [7]" "[1, 2]" "''a.bin''"] by simp
qed

end
