(* ===== verification/RedactRoute.thy ===== *)
theory RedactRoute
  imports Prelude
begin

text \<open>
  The route of a request as the log may show it: \<open>client/safe_route.rs\<close> under
  \<open>toolkit/dovetail_http_client/rust/src\<close>.  What it promises is stated by itself, on an address
  given by its parts.
\<close>

section \<open>The code\<close>

definition looks_like_value :: "string \<Rightarrow> bool" where
  "looks_like_value seg \<longleftrightarrow>
     24 < length seg \<or> CHR ''@'' \<in> set seg \<or> contains ''%40'' seg \<or>
     (\<forall>c\<in>set seg. is_ascii_digit c) \<or>
     (\<exists>c\<in>set seg. is_ascii_digit c) \<and> (\<exists>c\<in>set seg. c = CHR ''-'' \<or> c = CHR ''_'')"

definition shown_segment :: "string \<Rightarrow> string" where
  "shown_segment seg = (if looks_like_value seg then '':x'' else seg)"

definition route_base :: "string \<Rightarrow> string" where
  "route_base url = (case split_once (CHR ''?'') url of Some (base, _) \<Rightarrow> base | None \<Rightarrow> url)"

definition route_parts :: "string \<Rightarrow> string \<times> string" where
  "route_parts base =
     (case find_str ''://'' base of
        Some i \<Rightarrow>
          (case find_str ''/'' (drop (i + 3) base) of
             Some j \<Rightarrow> (take (i + 3 + j) base, drop (i + 3 + j) base)
           | None \<Rightarrow> (base, []))
      | None \<Rightarrow> ([], base))"

definition path_of :: "string list \<Rightarrow> string" where
  "path_of segs = concat (map (\<lambda>seg. CHR ''/'' # seg) segs)"

definition redact_route :: "string \<Rightarrow> string" where
  "redact_route url =
     (let base = route_base url;
          (prefix, path) = route_parts base;
          segs = filter (\<lambda>seg. seg \<noteq> []) (split_char (CHR ''/'') path)
      in prefix @ path_of (map shown_segment segs) @
         (if CHR ''?'' \<in> set base then ''?:x'' else []))"

section \<open>Lemmas\<close>

lemma route_base_no_query: "CHR ''?'' \<notin> set (route_base url)"
  using split_once_Some [of "CHR ''?''" url]
  by (auto simp: route_base_def split: option.splits prod.splits)

lemma route_base_id: "CHR ''?'' \<notin> set url \<Longrightarrow> route_base url = url"
  by (simp add: route_base_def split_once_def)

lemma redact_route_parts:
  "redact_route url =
     fst (route_parts (route_base url)) @
     path_of (map shown_segment (filter (\<lambda>seg. seg \<noteq> []) (split_char (CHR ''/'') (snd (route_parts (route_base url))))))"
  by (simp add: redact_route_def Let_def case_prod_beta route_base_no_query)

lemma route_parts_append: "fst (route_parts base) @ snd (route_parts base) = base"
  by (auto simp: route_parts_def split: option.splits)

lemma shown_not_value: "\<not> looks_like_value (shown_segment seg)"
  by (auto simp: shown_segment_def looks_like_value_def is_ascii_digit_def contains_def)

lemma shown_segment_id: "\<not> looks_like_value seg \<Longrightarrow> shown_segment seg = seg"
  by (simp add: shown_segment_def)

text \<open>What the segments of a route are, and what splitting their path gives back.\<close>

definition plain :: "string list \<Rightarrow> bool" where
  "plain segs \<longleftrightarrow> (\<forall>s\<in>set segs. s \<noteq> [] \<and> CHR ''/'' \<notin> set s \<and> CHR ''?'' \<notin> set s \<and> \<not> looks_like_value s)"

lemma split_segments: "\<forall>s\<in>set segs. CHR ''/'' \<notin> set s \<Longrightarrow> split_char (CHR ''/'') (path_of segs) = [] # segs"
proof (induction segs)
  case (Cons s segs)
  then have "split_char (CHR ''/'') (s @ path_of segs) = s # segs"
  proof (cases segs)
    case Nil
    then show ?thesis using Cons.prems by (simp add: path_of_def split_char_single)
  next
    case (Cons t ts)
    then have tail: "path_of segs = CHR ''/'' # tl (path_of segs)" by (simp add: path_of_def)
    have "split_char (CHR ''/'') (path_of segs) = [] # segs"
      using Cons.IH Cons.prems by simp
    then have "split_char (CHR ''/'') (tl (path_of segs)) = segs" using tail by (metis list.inject split_char.simps(2))
    then show ?thesis
      using Cons.prems tail split_char_append [of "CHR ''/''" s "tl (path_of segs)"] by simp
  qed
  then show ?case by (simp add: path_of_def)
qed (simp add: path_of_def)

lemma split_path: "plain segs \<Longrightarrow> split_char (CHR ''/'') (path_of segs) = [] # segs"
  by (rule split_segments) (simp add: plain_def)

lemma path_no_double_slash:
  assumes "plain segs"
  shows "path_of segs \<noteq> u @ CHR ''/'' # CHR ''/'' # v"
proof
  assume "path_of segs = u @ CHR ''/'' # CHR ''/'' # v"
  then have "[] # segs = split_char (CHR ''/'') u @ [] # split_char (CHR ''/'') v"
    using split_path [OF assms] split_char_sep [of "CHR ''/''" u "CHR ''/'' # v"] by simp
  then have "[] \<in> set segs"
    by (cases "split_char (CHR ''/'') u") auto
  then show False using assms by (auto simp: plain_def)
qed

lemma path_no_scheme: "plain segs \<Longrightarrow> find_str ''://'' (path_of segs) = None"
proof (rule ccontr)
  assume "plain segs" and "find_str ''://'' (path_of segs) \<noteq> None"
  then obtain u v where "path_of segs = u @ ''://'' @ v" using find_str_Some by (metis not_None_eq)
  then show False using path_no_double_slash [OF \<open>plain segs\<close>, of "u @ '':''" v] by simp
qed

lemma path_no_query: "plain segs \<Longrightarrow> CHR ''?'' \<notin> set (path_of segs)"
  by (auto simp: plain_def path_of_def)

lemma shown_plain:
  assumes "CHR ''?'' \<notin> set path"
  shows "plain (map shown_segment (filter (\<lambda>seg. seg \<noteq> []) (split_char (CHR ''/'') path)))"
proof -
  have "shown_segment s \<noteq> [] \<and> CHR ''/'' \<notin> set (shown_segment s) \<and> CHR ''?'' \<notin> set (shown_segment s)"
    if "s \<in> set (split_char (CHR ''/'') path)" and "s \<noteq> []" for s
    using that split_char_no_sep [OF that(1)] split_char_subset [OF that(1)] assms
    by (auto simp: shown_segment_def)
  then show ?thesis by (auto simp: plain_def shown_not_value)
qed

lemma path_again:
  "plain segs \<Longrightarrow>
     path_of (map shown_segment (filter (\<lambda>seg. seg \<noteq> []) (split_char (CHR ''/'') (path_of segs)))) = path_of segs"
proof -
  assume p: "plain segs"
  then have "filter (\<lambda>seg. seg \<noteq> []) ([] # segs) = segs" by (auto simp: plain_def intro: filter_True)
  moreover have "map shown_segment segs = segs"
    using p by (auto simp: plain_def shown_segment_id intro: map_idI)
  ultimately show ?thesis by (simp only: split_path [OF p])
qed

lemma find_slash: "CHR ''/'' \<notin> set h \<Longrightarrow> find_str ''/'' (h @ CHR ''/'' # r) = Some (length h)"
  by (induction h) auto

lemma find_no_slash: "CHR ''/'' \<notin> set h \<Longrightarrow> find_str ''/'' h = None"
  by (induction h) auto

lemma find_slash_Some:
  assumes "find_str ''/'' s = Some j"
  shows "CHR ''/'' \<notin> set (take j s)"
proof
  assume "CHR ''/'' \<in> set (take j s)"
  then obtain k where k: "k < j" "k < length s" "s ! k = CHR ''/''"
    by (auto simp: in_set_conv_nth)
  then have "drop k s = CHR ''/'' # drop (Suc k) s" by (metis Cons_nth_drop_Suc)
  then have "starts_with ''/'' (drop k s)" by simp
  then show False using find_str_first [OF assms k(1)] by blast
qed

lemma scheme_found:
  assumes "find_str ''://'' (u @ ''://'' @ v) = Some i" and "length u = i"
  shows "find_str ''://'' (u @ ''://'' @ r) = Some i"
proof (rule find_str_at)
  fix j
  assume j: "j < i"
  have "\<not> starts_with ''://'' (drop j (u @ ''://'' @ v))"
    using find_str_first [OF assms(1) j] .
  moreover have "starts_with ''://'' (drop j (u @ ''://'' @ r')) = starts_with ''://'' (drop j u @ ''://'')" for r'
    using starts_with_within [of "''://''" "drop j u @ ''://''" r'] j assms(2) by simp
  ultimately show "\<not> starts_with ''://'' (drop j (u @ ''://'' @ r))" by simp
qed (use assms(2) in simp_all)

text \<open>The parts of a route that was already redacted.\<close>

lemma route_parts_again:
  assumes "plain segs" and "route_parts base = (prefix, path)" and "path = [] \<Longrightarrow> segs = []"
  shows "route_parts (prefix @ path_of segs) = (prefix, path_of segs) \<or>
         segs = [] \<and> route_parts (prefix @ path_of segs) = (prefix, [])"
proof (cases "find_str ''://'' base")
  case None
  then have "prefix = []" using assms(2) by (simp add: route_parts_def)
  then show ?thesis using path_no_scheme [OF assms(1)] by (simp add: route_parts_def)
next
  case (Some i)
  obtain u v where base: "base = u @ ''://'' @ v" and i: "length u = i"
    using find_str_Some [OF Some] by blast
  note scheme = scheme_found [OF Some [unfolded base] i]
  show ?thesis
  proof (cases "find_str ''/'' v")
    case None
    then have "prefix = base" "path = []"
      using assms(2) Some base i by (simp_all add: route_parts_def)
    then have "segs = []" using assms(3) by simp
    then show ?thesis using assms(2) \<open>prefix = base\<close> \<open>path = []\<close> by (simp add: path_of_def)
  next
    case (Some j)
    then have prefix: "prefix = u @ ''://'' @ take j v"
      using assms(2) \<open>find_str ''://'' base = Some i\<close> base i
      by (auto simp: route_parts_def numeral_3_eq_3)
    have no: "CHR ''/'' \<notin> set (take j v)" by (rule find_slash_Some [OF Some])
    have j: "j \<le> length v" using find_str_Some [OF Some] by auto
    show ?thesis
    proof (cases segs)
      case Nil
      then show ?thesis
        using scheme [of "take j v"] find_no_slash [OF no] i prefix
        by (simp add: route_parts_def path_of_def)
    next
      case (Cons t ts)
      then have "path_of segs = CHR ''/'' # tl (path_of segs)" by (simp add: path_of_def)
      then have "find_str ''/'' (take j v @ path_of segs) = Some j"
        using find_slash [OF no] j by (metis length_take min.absorb2)
      then show ?thesis
        using scheme [of "take j v @ path_of segs"] i prefix j
        by (simp add: route_parts_def numeral_3_eq_3)
    qed
  qed
qed

text \<open>The parts of an address that is written with a scheme.\<close>

lemma base_of_address:
  assumes "CHR ''?'' \<notin> set base" and "query = [] \<or> hd query = CHR ''?''"
  shows "route_base (base @ query) = base"
proof (cases query)
  case (Cons c q)
  then show ?thesis
    using assms split_once_append [OF assms(1), of q] by (simp add: route_base_def)
qed (use assms(1) in \<open>simp add: route_base_id\<close>)

lemma parts_of_address:
  assumes "CHR '':'' \<notin> set scheme" and "CHR ''/'' \<notin> set host"
  shows "route_parts (scheme @ ''://'' @ host @ path_of segs) = (scheme @ ''://'' @ host, path_of segs)"
proof -
  have "find_str ''://'' (scheme @ ''://'' @ host @ path_of segs) = Some (length scheme)"
  proof (rule find_str_at)
    fix j assume j: "j < length scheme"
    then have "drop j (scheme @ ''://'' @ host @ path_of segs) = scheme ! j # drop (Suc j) (scheme @ ''://'' @ host @ path_of segs)"
      by (subst Cons_nth_drop_Suc [symmetric]) (simp_all add: nth_append)
    moreover have "scheme ! j \<noteq> CHR '':''" using assms(1) j nth_mem by metis
    ultimately show "\<not> starts_with ''://'' (drop j (scheme @ ''://'' @ host @ path_of segs))" by simp
  qed simp_all
  moreover have "find_str ''/'' (host @ path_of segs) = (if segs = [] then None else Some (length host))"
    using find_slash [OF assms(2)] find_no_slash [OF assms(2)] by (cases segs) (simp_all add: path_of_def)
  ultimately show ?thesis by (simp add: route_parts_def path_of_def numeral_3_eq_3)
qed

lemma redact_route_again: "redact_route (redact_route url) = redact_route url"
proof -
  obtain prefix path where parts: "route_parts (route_base url) = (prefix, path)" by fastforce
  define segs where
    "segs = map shown_segment (filter (\<lambda>seg. seg \<noteq> []) (split_char (CHR ''/'') path))"
  have out: "redact_route url = prefix @ path_of segs"
    by (simp add: redact_route_parts parts segs_def)
  have base: "prefix @ path = route_base url" using route_parts_append [of "route_base url"] parts by simp
  then have no_query: "CHR ''?'' \<notin> set prefix" "CHR ''?'' \<notin> set path"
    using route_base_no_query [of url] by (metis Un_iff set_append)+
  have plain: "plain segs" unfolding segs_def by (rule shown_plain [OF no_query(2)])
  have "route_base (prefix @ path_of segs) = prefix @ path_of segs"
    using no_query(1) path_no_query [OF plain] by (intro route_base_id) simp
  moreover have "path = [] \<Longrightarrow> segs = []" by (simp add: segs_def)
  ultimately have "redact_route (prefix @ path_of segs) = prefix @ path_of segs"
    using route_parts_again [OF plain parts] path_again [OF plain]
    by (auto simp: redact_route_parts path_of_def)
  then show ?thesis by (simp only: out)
qed

section \<open>Properties\<close>


definition example_url :: string where
  "example_url = ''https://h/account/482913/a%40b/a-1/-?token=x''"


text \<open>
  What the rules let through: a short code of letters and digits, and credentials in front of the
  host; a query disappears, and nothing stands in its place.
\<close>

lemma short_code_shown: "redact_route ''https://h/reset/a1b2c3'' = ''https://h/reset/a1b2c3''"
  by code_simp

lemma user_info_shown: "redact_route ''https://u:p@h/v'' = ''https://u:p@h/v''"
  by code_simp

lemma query_dropped: "redact_route ''/v?code=1'' = ''/v''"
  by code_simp

end
