(* ===== verification/HttpClient.thy ===== *)
theory HttpClient
  imports TokenStore Multipart RedactRoute
begin

text \<open>
  The HTTP client: \<open>config.rs\<close>, \<open>refresh.rs\<close> and \<open>client/mod.rs\<close>, \<open>executor.rs\<close>, \<open>verbs.rs\<close>,
  \<open>raw_bytes.rs\<close>, \<open>list.rs\<close> and the upload of \<open>multipart.rs\<close> under
  \<open>toolkit/dovetail_http_client/rust/src\<close>.  The HTTP library sends a request and returns what the
  server, a parameter, answers to it, given the requests before it.  The refresher is the
  application's: a parameter that gives what it comes to when it returns, which nothing in the client
  enforces; \<open>RefreshLock\<close> has the refresher that does not return.
\<close>

section \<open>Configuration\<close>

text \<open>Durations are in milliseconds.\<close>

record ClientConfig =
  base_url :: string
  request_timeout :: nat
  connect_timeout :: nat
  max_retries :: nat
  retry_base_delay :: nat
  user_agent :: string

definition new_config :: "string \<Rightarrow> string \<Rightarrow> ClientConfig" where
  "new_config url agent =
     \<lparr>base_url = url, request_timeout = 30000, connect_timeout = 10000, max_retries = 2,
      retry_base_delay = 300, user_agent = agent\<rparr>"

definition with_request_timeout :: "nat \<Rightarrow> ClientConfig \<Rightarrow> ClientConfig" where
  "with_request_timeout t c = c\<lparr>request_timeout := t\<rparr>"

definition with_connect_timeout :: "nat \<Rightarrow> ClientConfig \<Rightarrow> ClientConfig" where
  "with_connect_timeout t c = c\<lparr>connect_timeout := t\<rparr>"

definition with_max_retries :: "nat \<Rightarrow> ClientConfig \<Rightarrow> ClientConfig" where
  "with_max_retries n c = c\<lparr>max_retries := n\<rparr>"

definition with_retry_base_delay :: "nat \<Rightarrow> ClientConfig \<Rightarrow> ClientConfig" where
  "with_retry_base_delay d c = c\<lparr>retry_base_delay := d\<rparr>"

section \<open>Requests and answers\<close>

datatype http_method = GET | POST | PATCH | PUT | DELETE

record http_request =
  rq_method :: http_method
  rq_url :: string
  rq_bearer :: "string option"
  rq_content_type :: "string option"
  rq_body :: "bytes option"

record http_response =
  rs_status :: u16
  rs_content_length :: "u64 option"
  rs_content_type :: "string option"
  rs_body :: "reqwest_error + bytes"

text \<open>
  The world of a client: the state of the token store, the requests sent and the delays slept, and
  how often a refresh was run.  While a request is under way other tasks may change the tokens.
\<close>

record 's http_world =
  tokens :: 's
  sent :: "http_request list"
  slept :: "nat list"
  refreshed :: nat

type_synonym 's TokenRefresher = "'s \<Rightarrow> (ApiError + unit) \<times> 's"

type_synonym http_server = "http_request list \<Rightarrow> http_request \<Rightarrow> reqwest_error + http_response"

record 's ApiClient =
  config :: ClientConfig
  client_store :: "'s TokenStore"
  refresher :: "'s TokenRefresher option"
  server :: http_server
  others :: "http_request list \<Rightarrow> 's \<Rightarrow> 's"
  from_json :: "bytes \<Rightarrow> Value option"
  to_json_text :: "Value \<Rightarrow> string"

text \<open>
  \<open>build\<close> makes the transport from the user agent and the two time limits, or fails.
\<close>

definition new_client :: "(string \<Rightarrow> nat \<Rightarrow> nat \<Rightarrow> reqwest_error + http_server) \<Rightarrow> ClientConfig \<Rightarrow>
    's TokenStore \<Rightarrow> 's TokenRefresher option \<Rightarrow> (http_request list \<Rightarrow> 's \<Rightarrow> 's) \<Rightarrow>
    (bytes \<Rightarrow> Value option) \<Rightarrow> (Value \<Rightarrow> string) \<Rightarrow> ApiError + 's ApiClient" where
  "new_client build conf store refresh other_tasks read_json print_json =
     and_then (map_err Transport (build (user_agent conf) (request_timeout conf) (connect_timeout conf)))
       (\<lambda>http. Ok \<lparr>config = conf, client_store = store, refresher = refresh, server = http,
          others = other_tasks, from_json = read_json, to_json_text = print_json\<rparr>)"

type_synonym ('s, 'a) http = "'s http_world \<Rightarrow> (ApiError + 'a) \<times> 's http_world"

definition on_tokens :: "('s \<Rightarrow> 'a \<times> 's) \<Rightarrow> 's http_world \<Rightarrow> 'a \<times> 's http_world" where
  "on_tokens f w = (let (r, t) = f (tokens w) in (r, w\<lparr>tokens := t\<rparr>))"

definition stored_token :: "'s ApiClient \<Rightarrow> ('s, string option) http" where
  "stored_token c w = on_tokens (get_token (client_store c)) w"

definition send :: "'s ApiClient \<Rightarrow> http_request \<Rightarrow> ('s, http_response) http" where
  "send c req w =
     (map_err Transport (server c (sent w) req),
      w\<lparr>sent := sent w @ [req], tokens := others c (sent w) (tokens w)\<rparr>)"

text \<open>\<open>trim_end_matches\<close> and \<open>trim_start_matches\<close> with one character.\<close>

definition trim_start_char :: "char \<Rightarrow> string \<Rightarrow> string" where
  "trim_start_char c s = dropWhile (\<lambda>x. x = c) s"

definition trim_end_char :: "char \<Rightarrow> string \<Rightarrow> string" where
  "trim_end_char c s = rev (dropWhile (\<lambda>x. x = c) (rev s))"

definition client_url :: "'s ApiClient \<Rightarrow> string \<Rightarrow> string" where
  "client_url c path =
     trim_end_char (CHR ''/'') (base_url (config c)) @ ''/'' @ trim_start_char (CHR ''/'') path"

text \<open>\<open>resp.json::<ApiErrorPayload>().await.ok()\<close>, and \<open>resp.json::<R>()\<close> for the result.\<close>

definition error_payload :: "'s ApiClient \<Rightarrow> http_response \<Rightarrow> ApiErrorPayload option" where
  "error_payload c resp =
     Option.bind (ok (rs_body resp)) (\<lambda>bs. map_option (from_value (to_json_text c)) (from_json c bs))"

definition decoded :: "(bytes \<Rightarrow> reqwest_error + 'r) \<Rightarrow> http_response \<Rightarrow> ApiError + 'r" where
  "decoded decode resp = map_err Decode (and_then (rs_body resp) decode)"

definition outcome :: "'s ApiClient \<Rightarrow> (bytes \<Rightarrow> reqwest_error + 'r) \<Rightarrow> http_response \<Rightarrow> ApiError + 'r" where
  "outcome c decode resp =
     (if is_success (rs_status resp) then decoded decode resp
      else Err (map_status_error (rs_status resp) (error_payload c resp)))"

definition execute_once ::
  "'s ApiClient \<Rightarrow> (bytes \<Rightarrow> reqwest_error + 'r) \<Rightarrow> http_request \<Rightarrow> ('s, 'r) http" where
  "execute_once c decode req w =
     (let (r, w1) = send c req w in (and_then r (outcome c decode), w1))"

section \<open>Refreshing the session\<close>

text \<open>
  What a task does that holds the refresh lock: the token found in the store is taken if it is not
  the one that was refused, otherwise the session is refreshed and the token read again.
\<close>

definition newer_token :: "string option \<Rightarrow> string option \<Rightarrow> string option" where
  "newer_token stored used =
     (case (stored, used) of
        (Some current, Some u) \<Rightarrow> if current \<noteq> u then Some current else None
      | _ \<Rightarrow> None)"

definition given_up :: "ApiError \<Rightarrow> bool" where
  "given_up e \<longleftrightarrow> e = MissingToken \<or> is_unauthorized e"

definition run_refresh :: "'s ApiClient \<Rightarrow> ('s \<Rightarrow> (ApiError + unit) \<times> 's) \<Rightarrow> ('s, string option) http" where
  "run_refresh c refresh w =
     (case on_tokens refresh (w\<lparr>refreshed := Suc (refreshed w)\<rparr>) of
        (Inr _, w1) \<Rightarrow> stored_token c w1
      | (Inl e, w1) \<Rightarrow> (if given_up e then Ok None else Err e, w1))"

definition refresh_session :: "'s ApiClient \<Rightarrow> string option \<Rightarrow> ('s, string option) http" where
  "refresh_session c used w =
     (case refresher c of
        None \<Rightarrow> (Ok None, w)
      | Some refresh \<Rightarrow>
          (case stored_token c w of
             (Inl e, w1) \<Rightarrow> (Err e, w1)
           | (Inr stored, w1) \<Rightarrow>
               (case newer_token stored used of
                  Some current \<Rightarrow> (Ok (Some current), w1)
                | None \<Rightarrow> run_refresh c refresh w1)))"

section \<open>A request\<close>

definition backoff_delay :: "'s ApiClient \<Rightarrow> nat \<Rightarrow> nat" where
  "backoff_delay c attempt = retry_base_delay (config c) * 2 ^ min attempt 6"

definition build_request :: "http_method \<Rightarrow> string \<Rightarrow> bytes option \<Rightarrow> string option \<Rightarrow> http_request" where
  "build_request m url body bearer =
     \<lparr>rq_method = m, rq_url = url, rq_bearer = bearer,
      rq_content_type = map_option (\<lambda>_. ''application/json'') body, rq_body = body\<rparr>"

function request_loop ::
  "'s ApiClient \<Rightarrow> (bytes \<Rightarrow> reqwest_error + 'r) \<Rightarrow> (string option \<Rightarrow> http_request) \<Rightarrow> bool \<Rightarrow>
   string option \<Rightarrow> bool \<Rightarrow> nat \<Rightarrow> ('s, 'r) http" where
  "request_loop c decode req auth bearer already_refreshed attempt w =
     (case execute_once c decode (req bearer) w of
        (Inr v, w1) \<Rightarrow> (Ok v, w1)
      | (Inl err, w1) \<Rightarrow>
          if auth \<and> \<not> already_refreshed \<and> is_unauthorized err then
            (case refresh_session c bearer w1 of
               (Inl e, w2) \<Rightarrow> (Err e, w2)
             | (Inr (Some new_token), w2) \<Rightarrow> request_loop c decode req auth (Some new_token) True attempt w2
             | (Inr None, w2) \<Rightarrow> (Err err, w2))
          else if is_retryable err \<and> attempt < max_retries (config c) then
            request_loop c decode req auth bearer already_refreshed (Suc attempt)
              (w1\<lparr>slept := slept w1 @ [backoff_delay c attempt]\<rparr>)
          else (Err err, w1))"
  by pat_completeness auto
termination
  by (relation "measure (\<lambda>(c, decode, req, auth, bearer, already_refreshed, attempt, w).
      (if already_refreshed then 0 else 1) + (max_retries (config c) - attempt))") auto

declare request_loop.simps [simp del]

text \<open>\<open>serde_json::to_vec\<close> on the body is a parameter: the bytes, or the text of its error.\<close>

definition json_body :: "(string + bytes) option \<Rightarrow> ApiError + bytes option" where
  "json_body body =
     (case body of
        None \<Rightarrow> Ok None
      | Some (Inr bs) \<Rightarrow> Ok (Some bs)
      | Some (Inl e) \<Rightarrow> Err (Internal e))"

definition bearer_for :: "'s ApiClient \<Rightarrow> bool \<Rightarrow> ('s, string option) http" where
  "bearer_for c auth w =
     (if auth then
        (case stored_token c w of
           (Inl e, w1) \<Rightarrow> (Err e, w1)
         | (Inr (Some t), w1) \<Rightarrow> (Ok (Some t), w1)
         | (Inr None, w1) \<Rightarrow> (Err MissingToken, w1))
      else (Ok None, w))"

definition request ::
  "'s ApiClient \<Rightarrow> (bytes \<Rightarrow> reqwest_error + 'r) \<Rightarrow> http_method \<Rightarrow> string \<Rightarrow> (string + bytes) option \<Rightarrow> bool \<Rightarrow>
   ('s, 'r) http" where
  "request c decode m path body auth w =
     (case bearer_for c auth w of
        (Inl e, w1) \<Rightarrow> (Err e, w1)
      | (Inr bearer, w1) \<Rightarrow>
          (case json_body body of
             Inl e \<Rightarrow> (Err e, w1)
           | Inr bytes \<Rightarrow>
               request_loop c decode (build_request m (client_url c path) bytes) auth bearer False 0 w1))"

section \<open>The verbs\<close>

definition get :: "'s ApiClient \<Rightarrow> (bytes \<Rightarrow> reqwest_error + 'r) \<Rightarrow> string \<Rightarrow> ('s, 'r) http" where
  "get c decode path = request c decode GET path None True"

definition get_unauth :: "'s ApiClient \<Rightarrow> (bytes \<Rightarrow> reqwest_error + 'r) \<Rightarrow> string \<Rightarrow> ('s, 'r) http" where
  "get_unauth c decode path = request c decode GET path None False"

definition post :: "'s ApiClient \<Rightarrow> (bytes \<Rightarrow> reqwest_error + 'r) \<Rightarrow> string \<Rightarrow> string + bytes \<Rightarrow> ('s, 'r) http" where
  "post c decode path body = request c decode POST path (Some body) True"

definition patch :: "'s ApiClient \<Rightarrow> (bytes \<Rightarrow> reqwest_error + 'r) \<Rightarrow> string \<Rightarrow> string + bytes \<Rightarrow> ('s, 'r) http" where
  "patch c decode path body = request c decode PATCH path (Some body) True"

definition delete_with_body ::
  "'s ApiClient \<Rightarrow> (bytes \<Rightarrow> reqwest_error + 'r) \<Rightarrow> string \<Rightarrow> string + bytes \<Rightarrow> ('s, 'r) http" where
  "delete_with_body c decode path body = request c decode DELETE path (Some body) True"

definition post_unauth ::
  "'s ApiClient \<Rightarrow> (bytes \<Rightarrow> reqwest_error + 'r) \<Rightarrow> string \<Rightarrow> string + bytes \<Rightarrow> ('s, 'r) http" where
  "post_unauth c decode path body = request c decode POST path (Some body) False"

definition patch_unauth ::
  "'s ApiClient \<Rightarrow> (bytes \<Rightarrow> reqwest_error + 'r) \<Rightarrow> string \<Rightarrow> string + bytes \<Rightarrow> ('s, 'r) http" where
  "patch_unauth c decode path body = request c decode PATCH path (Some body) False"

text \<open>The three calls outside the loop: no refresh, no second attempt.\<close>

definition put_no_content :: "'s ApiClient \<Rightarrow> string \<Rightarrow> string + bytes \<Rightarrow> ('s, unit) http" where
  "put_no_content c path body w =
     (case bearer_for c True w of
        (Inl e, w1) \<Rightarrow> (Err e, w1)
      | (Inr bearer, w1) \<Rightarrow>
          (case json_body (Some body) of
             Inl e \<Rightarrow> (Err e, w1)
           | Inr bytes \<Rightarrow>
               (let (r, w2) = send c (build_request PUT (client_url c path) bytes bearer) w1
                in (and_then r (\<lambda>resp.
                      if is_success (rs_status resp) then Ok ()
                      else Err (map_status_error (rs_status resp) (error_payload c resp))), w2))))"

definition post_multipart_file ::
  "'s ApiClient \<Rightarrow> (bytes \<Rightarrow> bytes) \<Rightarrow> (bytes \<Rightarrow> reqwest_error + 'r) \<Rightarrow> string \<Rightarrow> string \<Rightarrow> string \<Rightarrow> bytes \<Rightarrow>
   ('s, 'r) http" where
  "post_multipart_file c sha256 decode path filename content_type bs w =
     (case bearer_for c True w of
        (Inl e, w1) \<Rightarrow> (Err e, w1)
      | (Inr bearer, w1) \<Rightarrow>
          (let boundary = boundary_for sha256 bs
           in execute_once c decode
                \<lparr>rq_method = POST, rq_url = client_url c path, rq_bearer = bearer,
                 rq_content_type = Some (''multipart/form-data; boundary='' @ boundary),
                 rq_body = Some (multipart_body boundary filename content_type bs)\<rparr> w1))"

definition mime_of :: "string option \<Rightarrow> string" where
  "mime_of header =
     (let value = (case header of Some v \<Rightarrow> v | None \<Rightarrow> ''application/octet-stream'')
      in to_ascii_lowercase (trim (hd (split_char (CHR '';'') value))))"

definition TOO_LARGE :: ApiError where
  "TOO_LARGE = Internal ''resource exceeds the maximum size''"

definition bytes_outcome :: "nat \<Rightarrow> http_response \<Rightarrow> ApiError + string \<times> bytes" where
  "bytes_outcome max_bytes resp =
     (if \<not> is_success (rs_status resp) then Err (map_status_error (rs_status resp) None)
      else if (case rs_content_length resp of Some n \<Rightarrow> max_bytes < unat n | None \<Rightarrow> False) then Err TOO_LARGE
      else and_then (map_err Transport (rs_body resp)) (\<lambda>bs.
        if max_bytes < length bs then Err TOO_LARGE
        else Ok (mime_of (rs_content_type resp), bs)))"

definition bytes_at :: "'s ApiClient \<Rightarrow> string \<Rightarrow> nat \<Rightarrow> bool \<Rightarrow> ('s, string \<times> bytes) http" where
  "bytes_at c url max_bytes auth w =
     (case bearer_for c auth w of
        (Inl e, w1) \<Rightarrow> (Err e, w1)
      | (Inr bearer, w1) \<Rightarrow>
          (let (r, w2) = send c (build_request GET url None bearer) w1
           in (and_then r (bytes_outcome max_bytes), w2)))"

definition get_bytes :: "'s ApiClient \<Rightarrow> string \<Rightarrow> nat \<Rightarrow> ('s, string \<times> bytes) http" where
  "get_bytes c url max_bytes = bytes_at c url max_bytes True"

definition get_bytes_unauth :: "'s ApiClient \<Rightarrow> string \<Rightarrow> nat \<Rightarrow> ('s, string \<times> bytes) http" where
  "get_bytes_unauth c url max_bytes = bytes_at c url max_bytes False"

text \<open>\<open>get_list\<close>: the answer is decoded as a value, and the list found in it is typed.\<close>

definition get_list ::
  "'s ApiClient \<Rightarrow> (bytes \<Rightarrow> reqwest_error + Value) \<Rightarrow> (Value list \<Rightarrow> string + 'r list) \<Rightarrow> string \<Rightarrow>
   ('s, 'r list) http" where
  "get_list c decode typed path w =
     (let (r, w1) = get c decode path w
      in (and_then r (\<lambda>v. map_err (\<lambda>e. Internal (''failed to type list from '' @ path @ '': '' @ e))
                             (typed (extract_list_envelope v))), w1))"

section \<open>What each step keeps\<close>

definition exchange ::
  "'s ApiClient \<Rightarrow> (bytes \<Rightarrow> reqwest_error + 'r) \<Rightarrow> http_request list \<Rightarrow> http_request \<Rightarrow> ApiError + 'r" where
  "exchange c decode before q = and_then (map_err Transport (server c before q)) (outcome c decode)"

lemma execute_once_exchange:
  "fst (execute_once c decode q w) = exchange c decode (sent w) q"
  by (simp add: execute_once_def send_def exchange_def)

lemma execute_once_frame [simp]:
  "sent (snd (execute_once c decode q w)) = sent w @ [q]"
  "slept (snd (execute_once c decode q w)) = slept w"
  "refreshed (snd (execute_once c decode q w)) = refreshed w"
  by (simp_all add: execute_once_def send_def)

lemma execute_once_frame_eq:
  assumes "execute_once c decode q w = (r, w1)"
  shows "sent w1 = sent w @ [q]" "slept w1 = slept w" "refreshed w1 = refreshed w"
    "r = exchange c decode (sent w) q"
  using execute_once_frame [of c decode q w] execute_once_exchange [of c decode q w] assms
  by simp_all

lemma stored_token_same:
  "stored_token c w = (r, w1) \<Longrightarrow> sent w1 = sent w \<and> slept w1 = slept w \<and> refreshed w1 = refreshed w"
  by (auto simp: stored_token_def on_tokens_def split: prod.splits)

lemma run_refresh_same:
  "run_refresh c refresh w = (r, w1) \<Longrightarrow>
     sent w1 = sent w \<and> slept w1 = slept w \<and> refreshed w1 = Suc (refreshed w)"
  by (auto simp: run_refresh_def on_tokens_def split: prod.splits sum.splits if_splits
      dest!: stored_token_same)

lemma refresh_session_frame:
  assumes "refresh_session c used w = (r, w1)"
  shows "sent w1 = sent w \<and> slept w1 = slept w \<and>
    refreshed w \<le> refreshed w1 \<and> refreshed w1 \<le> Suc (refreshed w)"
  using assms
  by (auto simp: refresh_session_def split: option.splits prod.splits sum.splits
      dest!: stored_token_same run_refresh_same)

lemma bearer_for_frame:
  assumes "bearer_for c auth w = (r, w1)"
  shows "sent w1 = sent w \<and> slept w1 = slept w \<and> refreshed w1 = refreshed w \<and>
    (\<forall>b. r = Ok b \<longrightarrow> (b \<noteq> None) = auth)"
  using assms
  by (auto simp: bearer_for_def split: if_splits prod.splits sum.splits option.splits
      dest!: stored_token_same)

text \<open>Retryable errors and refusals exclude each other.\<close>

lemma retryable_not_unauthorized: "is_retryable e \<Longrightarrow> \<not> is_unauthorized e"
  by (cases e) simp_all

section \<open>The trace of a request\<close>

text \<open>What other tasks make of the tokens while the same request is sent a number of times.\<close>

primrec others_ran :: "'s ApiClient \<Rightarrow> http_request list \<Rightarrow> http_request \<Rightarrow> nat \<Rightarrow> 's \<Rightarrow> 's" where
  "others_ran c before q 0 s = s"
| "others_ran c before q (Suc n) s = others_ran c (before @ [q]) q n (others c before s)"

text \<open>
  The same request is sent until it does not fail in a way worth retrying, or the retries are used
  up: \<open>k\<close> failures, and one more exchange, which the loop acts on.
\<close>

definition keeps_failing ::
  "'s ApiClient \<Rightarrow> (bytes \<Rightarrow> reqwest_error + 'r) \<Rightarrow> http_request list \<Rightarrow> http_request \<Rightarrow> nat \<Rightarrow> bool" where
  "keeps_failing c decode before q k \<longleftrightarrow>
     (\<forall>i<k. \<exists>e. exchange c decode (before @ replicate i q) q = Err e \<and> is_retryable e)"

definition after_attempts :: "'s ApiClient \<Rightarrow> http_request \<Rightarrow> nat \<Rightarrow> nat \<Rightarrow> 's http_world \<Rightarrow> 's http_world" where
  "after_attempts c q k attempt w =
     w\<lparr>tokens := others_ran c (sent w) q (Suc k) (tokens w), sent := sent w @ replicate (Suc k) q,
       slept := slept w @ map (backoff_delay c) [attempt..<attempt + k]\<rparr>"

definition loop_ends ::
  "'s ApiClient \<Rightarrow> (bytes \<Rightarrow> reqwest_error + 'r) \<Rightarrow> (string option \<Rightarrow> http_request) \<Rightarrow> bool \<Rightarrow> string option \<Rightarrow>
   bool \<Rightarrow> nat \<Rightarrow> 's http_world \<Rightarrow> ApiError + 'r \<Rightarrow> (ApiError + 'r) \<times> 's http_world \<Rightarrow> bool" where
  "loop_ends c decode req auth bearer already attempt w x res \<longleftrightarrow>
     (case x of
        Inr v \<Rightarrow> res = (Ok v, w)
      | Inl err \<Rightarrow>
          if auth \<and> \<not> already \<and> is_unauthorized err then
            (case refresh_session c bearer w of
               (Inl e, w2) \<Rightarrow> res = (Err e, w2)
             | (Inr None, w2) \<Rightarrow> res = (Err err, w2)
             | (Inr (Some t), w2) \<Rightarrow> res = request_loop c decode req auth (Some t) True attempt w2)
          else res = (Err err, w) \<and> (is_retryable err \<longrightarrow> max_retries (config c) \<le> attempt))"

lemma keeps_failing_Suc:
  assumes "exchange c decode before q = Err e" and "is_retryable e" and "keeps_failing c decode (before @ [q]) q k"
  shows "keeps_failing c decode before q (Suc k)"
  unfolding keeps_failing_def
proof (intro allI impI)
  fix i assume "i < Suc k"
  then show "\<exists>e. exchange c decode (before @ replicate i q) q = Err e \<and> is_retryable e"
    using assms by (cases i) (auto simp: keeps_failing_def)
qed

lemma after_attempts_0:
  "execute_once c decode q w = (x, w1) \<Longrightarrow> after_attempts c q 0 attempt w = w1"
  by (auto simp: after_attempts_def execute_once_def send_def)

lemma after_attempts_Suc:
  assumes "execute_once c decode q w = (x, w1)"
  shows "after_attempts c q k (Suc attempt) (w1\<lparr>slept := slept w1 @ [backoff_delay c attempt]\<rparr>) =
    after_attempts c q (Suc k) attempt w"
proof -
  have "[attempt..<attempt + Suc k] = attempt # [Suc attempt..<Suc attempt + k]"
    by (simp add: upt_conv_Cons del: upt_Suc)
  then show ?thesis using assms by (auto simp: after_attempts_def execute_once_def send_def)
qed

lemma request_loop_attempts:
  "\<exists>k. keeps_failing c decode (sent w) (req bearer) k \<and> (k = 0 \<or> attempt + k \<le> max_retries (config c)) \<and>
     loop_ends c decode req auth bearer already (attempt + k) (after_attempts c (req bearer) k attempt w)
       (exchange c decode (sent w @ replicate k (req bearer)) (req bearer))
       (request_loop c decode req auth bearer already attempt w)"
proof (induction "max_retries (config c) - attempt" arbitrary: attempt w rule: less_induct)
  case (less attempt w)
  obtain q w1 where once: "execute_once c decode (req bearer) w = (q, w1)" by fastforce
  note frame = execute_once_frame_eq [OF once]
  show ?case
  proof (cases "\<exists>err. q = Inl err \<and> \<not> (auth \<and> \<not> already \<and> is_unauthorized err) \<and> is_retryable err \<and>
      attempt < max_retries (config c)")
    case False
    have "loop_ends c decode req auth bearer already (attempt + 0) (after_attempts c (req bearer) 0 attempt w)
       (exchange c decode (sent w @ replicate 0 (req bearer)) (req bearer))
       (request_loop c decode req auth bearer already attempt w)"
      using False once frame(4) after_attempts_0 [OF once]
      by (subst request_loop.simps) (auto simp: loop_ends_def split: sum.splits prod.splits option.splits)
    then show ?thesis by (intro exI [of _ 0]) (simp add: keeps_failing_def)
  next
    case True
    then obtain err where err: "q = Inl err" "is_retryable err" "attempt < max_retries (config c)"
        "\<not> (auth \<and> \<not> already \<and> is_unauthorized err)" by blast
    let ?w2 = "w1\<lparr>slept := slept w1 @ [backoff_delay c attempt]\<rparr>"
    have again: "request_loop c decode req auth bearer already attempt w =
        request_loop c decode req auth bearer already (Suc attempt) ?w2"
      using once err by (subst request_loop.simps) auto
    have "max_retries (config c) - Suc attempt < max_retries (config c) - attempt" using err(3) by simp
    from less.hyps [OF this, of ?w2] obtain k where
      "keeps_failing c decode (sent w @ [req bearer]) (req bearer) k"
      "k = 0 \<or> Suc attempt + k \<le> max_retries (config c)"
      "loop_ends c decode req auth bearer already (attempt + Suc k) (after_attempts c (req bearer) (Suc k) attempt w)
        (exchange c decode (sent w @ replicate (Suc k) (req bearer)) (req bearer))
        (request_loop c decode req auth bearer already attempt w)"
      using frame(1) after_attempts_Suc [OF once, of k attempt for k] again by auto
    then show ?thesis
      using keeps_failing_Suc [of c decode "sent w" "req bearer" err k] frame(4) err by (intro exI [of _ "Suc k"]) auto
  qed
qed

lemma exchange_ok:
  "exchange c decode before q = Ok v \<longleftrightarrow>
     (\<exists>resp. server c before q = Ok resp \<and> is_success (rs_status resp) \<and> decoded decode resp = Ok v)"
  by (auto simp: exchange_def outcome_def)

lemma request_loop_ok:
  "request_loop c decode req auth bearer already attempt w = (Ok v, w') \<Longrightarrow>
     \<exists>before q. sent w' = before @ [q] \<and> exchange c decode before q = Ok v"
proof (induction c decode req auth bearer already attempt w arbitrary: w' rule: request_loop.induct)
  case (1 c decode req auth bearer already attempt w)
  obtain q w1 where once: "execute_once c decode (req bearer) w = (q, w1)" by fastforce
  note frame = execute_once_frame_eq [OF once]
  show ?case
  proof (cases q)
    case (Inr u)
    then have "w' = w1" "u = v" using "1.prems" once by (subst (asm) request_loop.simps, simp)+
    then show ?thesis using frame Inr by metis
  next
    case (Inl err)
    show ?thesis
    proof (cases "auth \<and> \<not> already \<and> is_unauthorized err")
      case True
      obtain s w2 where s: "refresh_session c bearer w1 = (s, w2)" by fastforce
      then obtain t where t: "s = Inr (Some t)"
        and again: "request_loop c decode req auth (Some t) True attempt w2 = (Ok v, w')"
        using "1.prems" once Inl True
        by (subst (asm) request_loop.simps) (auto split: sum.splits option.splits)
      show ?thesis using "1.IH"(1) [OF once [symmetric] Inl True s [symmetric] t refl again] .
    next
      case False
      then have retry: "is_retryable err \<and> attempt < max_retries (config c)"
        and again: "request_loop c decode req auth bearer already (Suc attempt)
            (w1\<lparr>slept := slept w1 @ [backoff_delay c attempt]\<rparr>) = (Ok v, w')"
        using "1.prems" once Inl by (subst (asm) request_loop.simps, auto split: if_splits)+
      show ?thesis using "1.IH"(2) [OF once [symmetric] Inl False retry again] .
    qed
  qed
qed

lemma request_loop_persists:
  "(\<forall>i<k. \<exists>e. exchange c decode (sent w @ replicate i (req bearer)) (req bearer) = Err e \<and> is_retryable e) \<Longrightarrow>
   exchange c decode (sent w @ replicate k (req bearer)) (req bearer) = Ok v \<Longrightarrow>
   attempt + k \<le> max_retries (config c) \<Longrightarrow>
   \<exists>w'. request_loop c decode req auth bearer already attempt w = (Ok v, w') \<and>
        sent w' = sent w @ replicate (Suc k) (req bearer) \<and>
        slept w' = slept w @ map (backoff_delay c) [attempt..<attempt + k]"
proof (induction k arbitrary: attempt w)
  case 0
  obtain q w1 where once: "execute_once c decode (req bearer) w = (q, w1)" by fastforce
  then show ?case
    using execute_once_frame_eq [OF once] 0 by (subst request_loop.simps) simp
next
  case (Suc k)
  obtain q w1 where once: "execute_once c decode (req bearer) w = (q, w1)" by fastforce
  note frame = execute_once_frame_eq [OF once]
  obtain e where e: "q = Err e" "is_retryable e" using Suc.prems(1) frame(4) by fastforce
  let ?w2 = "w1\<lparr>slept := slept w1 @ [backoff_delay c attempt]\<rparr>"
  have before: "sent ?w2 @ replicate i (req bearer) = sent w @ replicate (Suc i) (req bearer)" for i
    using frame(1) by simp
  have "\<exists>w'. request_loop c decode req auth bearer already (Suc attempt) ?w2 = (Ok v, w') \<and>
      sent w' = sent ?w2 @ replicate (Suc k) (req bearer) \<and>
      slept w' = slept ?w2 @ map (backoff_delay c) [Suc attempt..<Suc attempt + k]"
    by (rule Suc.IH) (use Suc.prems before in \<open>auto simp del: replicate_Suc simp: less_Suc_eq_0_disj\<close>)
  moreover have "[attempt..<attempt + Suc k] = attempt # [Suc attempt..<Suc attempt + k]"
    by (simp add: upt_conv_Cons del: upt_Suc)
  moreover have "request_loop c decode req auth bearer already attempt w =
      request_loop c decode req auth bearer already (Suc attempt) ?w2"
    using once e Suc.prems(3) retryable_not_unauthorized [OF e(2)]
    by (subst request_loop.simps) simp
  ultimately show ?case using frame by simp
qed

section \<open>Properties\<close>

text \<open>
  What a refresh may come to, for a store in state \<open>s\<close>: nothing without a refresher; the token in the
  store, if it is another one than the one used; otherwise the refresher runs once, and the token
  that is in the store after it is the new one, or its error says whether to give up quietly.
\<close>

definition renewal ::
  "'s ApiClient \<Rightarrow> string option \<Rightarrow> 's \<Rightarrow> ApiError + string option \<Rightarrow> nat \<Rightarrow> bool" where
  "renewal c used s result runs \<longleftrightarrow>
     (case refresher c of
        None \<Rightarrow> result = Ok None \<and> runs = 0
      | Some refresh \<Rightarrow>
          (case get_token (client_store c) s of
             (Inl e, _) \<Rightarrow> result = Err e \<and> runs = 0
           | (Inr stored, s1) \<Rightarrow>
               if stored \<noteq> None \<and> used \<noteq> None \<and> stored \<noteq> used then result = Ok stored \<and> runs = 0
               else runs = 1 \<and>
                 (case refresh s1 of
                    (Inr _, s2) \<Rightarrow> result = fst (get_token (client_store c) s2)
                  | (Inl e, _) \<Rightarrow> result = (if e = MissingToken \<or> is_unauthorized e then Ok None else Err e))))"

lemma refresh_session_renewal:
  assumes "refresh_session c used w = (r, w1)"
  shows "\<exists>runs. renewal c used (tokens w) r runs \<and> refreshed w1 = refreshed w + runs"
  using assms
  by (auto simp: refresh_session_def renewal_def stored_token_def on_tokens_def run_refresh_def newer_token_def
      given_up_def split: option.splits prod.splits sum.splits if_splits)

lemma bearer_for_stored:
  assumes "bearer_for c auth w = (Ok bearer, w1)"
  shows "(if auth then bearer \<noteq> None \<and> fst (get_token (client_store c) (tokens w)) = Ok bearer else bearer = None) \<and>
    w1 = w\<lparr>tokens := (if auth then snd (get_token (client_store c) (tokens w)) else tokens w)\<rparr>"
  using assms
  by (auto simp: bearer_for_def stored_token_def on_tokens_def split: if_splits prod.splits sum.splits option.splits)

lemma bearer_for_fails:
  assumes "bearer_for c auth w = (Err e, w1)"
  shows "auth \<and> (fst (get_token (client_store c) (tokens w)) = Err e \<or>
    fst (get_token (client_store c) (tokens w)) = Ok None \<and> e = MissingToken)"
  using assms
  by (auto simp: bearer_for_def stored_token_def on_tokens_def split: if_splits prod.splits sum.splits option.splits)

lemma second_run:
  assumes "request_loop c decode req auth (Some t) True k w = (r, w')" and "k \<le> max_retries (config c)"
  shows "\<exists>j. k + j \<le> max_retries (config c) \<and>
    (\<forall>i<j. \<exists>e. exchange c decode (sent w @ replicate i (req (Some t))) (req (Some t)) = Err e \<and> is_retryable e) \<and>
    r = exchange c decode (sent w @ replicate j (req (Some t))) (req (Some t)) \<and>
    (\<forall>e. r = Err e \<and> is_retryable e \<longrightarrow> k + j = max_retries (config c)) \<and>
    sent w' = sent w @ replicate (Suc j) (req (Some t)) \<and> refreshed w' = refreshed w \<and>
    slept w' = slept w @ map (backoff_delay c) [k..<k + j]"
proof -
  obtain j where j: "keeps_failing c decode (sent w) (req (Some t)) j" "j = 0 \<or> k + j \<le> max_retries (config c)"
    "loop_ends c decode req auth (Some t) True (k + j) (after_attempts c (req (Some t)) j k w)
       (exchange c decode (sent w @ replicate j (req (Some t))) (req (Some t))) (r, w')"
    using request_loop_attempts [of c decode w req "Some t" k auth True] assms(1) by auto
  have "k + j \<le> max_retries (config c)" using j(2) assms(2) by auto
  then show ?thesis
    using j(1,3) by (intro exI [of _ j]) (auto simp: loop_ends_def after_attempts_def keeps_failing_def split: sum.splits)
qed

lemma first_run:
  fixes c :: "'s ApiClient" and w w' :: "'s http_world"
  assumes "loop_ends c decode req auth bearer False k w x (r, w')" and "k \<le> max_retries (config c)"
  shows "r = x \<and> sent w' = sent w \<and> slept w' = slept w \<and> refreshed w' = refreshed w \<and>
      (\<forall>e. r = Err e \<longrightarrow> \<not> (auth \<and> is_unauthorized e) \<and> (is_retryable e \<longrightarrow> k = max_retries (config c))) \<or>
    auth \<and> (\<exists>err renewed runs. x = Err err \<and> is_unauthorized err \<and>
      renewal c bearer (tokens w) renewed runs \<and> refreshed w' = refreshed w + runs \<and>
      (case renewed of
         Inl e \<Rightarrow> r = Err e \<and> sent w' = sent w \<and> slept w' = slept w
       | Inr None \<Rightarrow> r = Err err \<and> sent w' = sent w \<and> slept w' = slept w
       | Inr (Some t) \<Rightarrow> (\<exists>j. k + j \<le> max_retries (config c) \<and>
           (\<forall>i<j. \<exists>e. exchange c decode (sent w @ replicate i (req (Some t))) (req (Some t)) = Err e \<and> is_retryable e) \<and>
           r = exchange c decode (sent w @ replicate j (req (Some t))) (req (Some t)) \<and>
           (\<forall>e. r = Err e \<and> is_retryable e \<longrightarrow> k + j = max_retries (config c)) \<and>
           sent w' = sent w @ replicate (Suc j) (req (Some t)) \<and>
           slept w' = slept w @ map (backoff_delay c) [k..<k + j])))"
proof (cases "\<exists>err. x = Inl err \<and> auth \<and> is_unauthorized err")
  case False
  then show ?thesis using assms by (auto simp: loop_ends_def split: sum.splits)
next
  case True
  then obtain err where err: "x = Inl err" "auth" "is_unauthorized err" by blast
  obtain renewed w2 where s: "refresh_session c bearer w = (renewed, w2)" by fastforce
  obtain runs where runs: "renewal c bearer (tokens w) renewed runs" "refreshed w2 = refreshed w + runs"
    using refresh_session_renewal [OF s] by blast
  have same: "sent w2 = sent w" "slept w2 = slept w" using refresh_session_frame [OF s] by simp_all
  show ?thesis
  proof (cases "\<exists>t. renewed = Inr (Some t)")
    case True
    then obtain t where t: "renewed = Inr (Some t)" by blast
    then have "request_loop c decode req auth (Some t) True k w2 = (r, w')"
      using assms(1) err s by (simp add: loop_ends_def)
    from second_run [OF this assms(2)] show ?thesis
      using err runs unfolding same t by (intro disjI2 conjI exI [of _ err] exI [of _ "Inr (Some t)"] exI [of _ runs]) auto
  next
    case False
    then have "w' = w2 \<and> r = (case renewed of Inl e \<Rightarrow> Err e | Inr _ \<Rightarrow> Err err)"
      using assms(1) err s by (auto simp: loop_ends_def split: sum.splits option.splits)
    then show ?thesis
      using err runs same False
      by (intro disjI2 conjI exI [of _ err] exI [of _ renewed] exI [of _ runs]) (auto split: sum.splits option.splits)
  qed
qed

text \<open>
  C28: what a request sends, and what it returns.  It ends before anything is sent with the error of
  the store, for a missing token, or with the error of its body; or it sends the same request over
  and over while the answers are failures worth retrying, with the token the store held (none if it
  is not authenticated), waiting between attempts for delays that double six times at most, and
  returns what the last exchange gives: a failure worth retrying only when the retries are used up.
  An authenticated request that is refused is renewed once: it goes on with the token found in the
  store if that is another one, or with the one the store holds after the refresher ran, with the
  retries it has left; or it returns the refusal or the error of the renewal.
\<close>

theorem request_trace:
  assumes "request c decode m path body auth w = (r, w')"
  shows "(\<exists>e. r = Err e \<and> sent w' = sent w \<and> slept w' = slept w \<and> refreshed w' = refreshed w \<and>
       (auth \<and> fst (get_token (client_store c) (tokens w)) = Err e \<or>
        auth \<and> fst (get_token (client_store c) (tokens w)) = Ok None \<and> e = MissingToken \<or>
        json_body body = Err e)) \<or>
    (\<exists>bytes bearer k. json_body body = Ok bytes \<and> k \<le> max_retries (config c) \<and>
       (if auth then bearer \<noteq> None \<and> fst (get_token (client_store c) (tokens w)) = Ok bearer else bearer = None) \<and>
       (let q = build_request m (client_url c path) bytes;
            delays = (\<lambda>n. map (\<lambda>i. retry_base_delay (config c) * 2 ^ min i 6) [0..<n]);
            sent1 = sent w @ replicate (Suc k) (q bearer);
            tokens1 = others_ran c (sent w) (q bearer) (Suc k)
              (if auth then snd (get_token (client_store c) (tokens w)) else tokens w);
            result = exchange c decode (sent w @ replicate k (q bearer)) (q bearer)
        in (\<forall>i<k. \<exists>e. exchange c decode (sent w @ replicate i (q bearer)) (q bearer) = Err e \<and> is_retryable e) \<and>
          (r = result \<and> sent w' = sent1 \<and> slept w' = slept w @ delays k \<and> refreshed w' = refreshed w \<and>
             (\<forall>e. r = Err e \<longrightarrow> \<not> (auth \<and> is_unauthorized e) \<and> (is_retryable e \<longrightarrow> k = max_retries (config c))) \<or>
           auth \<and> (\<exists>err renewed runs. result = Err err \<and> is_unauthorized err \<and>
             renewal c bearer tokens1 renewed runs \<and> refreshed w' = refreshed w + runs \<and>
             (case renewed of
                Inl e \<Rightarrow> r = Err e \<and> sent w' = sent1 \<and> slept w' = slept w @ delays k
              | Inr None \<Rightarrow> r = Err err \<and> sent w' = sent1 \<and> slept w' = slept w @ delays k
              | Inr (Some t) \<Rightarrow> (\<exists>j. k + j \<le> max_retries (config c) \<and>
                  (\<forall>i<j. \<exists>e. exchange c decode (sent1 @ replicate i (q (Some t))) (q (Some t)) = Err e \<and> is_retryable e) \<and>
                  r = exchange c decode (sent1 @ replicate j (q (Some t))) (q (Some t)) \<and>
                  (\<forall>e. r = Err e \<and> is_retryable e \<longrightarrow> k + j = max_retries (config c)) \<and>
                  sent w' = sent1 @ replicate (Suc j) (q (Some t)) \<and> slept w' = slept w @ delays (k + j)))))))"
    (is "?unsent \<or> (\<exists>bytes bearer k. ?spec bytes bearer k)")
proof -
  obtain s w0 where s: "bearer_for c auth w = (s, w0)" by fastforce
  note frame = bearer_for_frame [OF s]
  consider (unsent) e where "s = Inl e \<or> json_body body = Inl e"
    | (loop) bearer bytes where "s = Inr bearer" "json_body body = Inr bytes"
    by (cases s; cases "json_body body") auto
  then show ?thesis
  proof cases
    case unsent
    then have ?unsent
      using assms s frame bearer_for_fails [of c auth w] by (auto simp: request_def split: sum.splits)
    then show ?thesis ..
  next
    case loop
    have w0: "w0 = w\<lparr>tokens := (if auth then snd (get_token (client_store c) (tokens w)) else tokens w)\<rparr>"
      and bearer: "if auth then bearer \<noteq> None \<and> fst (get_token (client_store c) (tokens w)) = Ok bearer else bearer = None"
      using s loop(1) bearer_for_stored [of c auth w bearer w0] by simp_all
    define q where "q = build_request m (client_url c path) bytes"
    have l: "request_loop c decode q auth bearer False 0 w0 = (r, w')"
      using assms s loop by (simp add: request_def q_def)
    obtain k where k: "keeps_failing c decode (sent w) (q bearer) k" "k \<le> max_retries (config c)"
        "loop_ends c decode q auth bearer False k (after_attempts c (q bearer) k 0 w0)
          (exchange c decode (sent w @ replicate k (q bearer)) (q bearer)) (r, w')"
      using request_loop_attempts [of c decode w0 q bearer 0 auth False] l frame by auto
    define w1 where "w1 = after_attempts c (q bearer) k 0 w0"
    have w1: "sent w1 = sent w @ replicate (Suc k) (q bearer)" "refreshed w1 = refreshed w"
      "slept w1 = slept w @ map (\<lambda>i. retry_base_delay (config c) * 2 ^ min i 6) [0..<k]"
      "tokens w1 = others_ran c (sent w) (q bearer) (Suc k)
         (if auth then snd (get_token (client_store c) (tokens w)) else tokens w)"
      by (simp_all add: w1_def after_attempts_def w0 backoff_delay_def [abs_def])
    have join: "(slept w @ map (\<lambda>i. retry_base_delay (config c) * 2 ^ min i 6) [0..<k]) @
        map (backoff_delay c) [k..<k + j] = slept w @ map (\<lambda>i. retry_base_delay (config c) * 2 ^ min i 6) [0..<k + j]" for j
      by (simp add: backoff_delay_def [abs_def] upt_add_eq_append [of 0 k j])
    have "?spec bytes bearer k"
      unfolding Let_def q_def [symmetric]
      using first_run [OF k(3) [folded w1_def] k(2), unfolded w1 join] k(1,2) bearer loop(2)
      unfolding keeps_failing_def by (intro conjI)
    then show ?thesis by blast
  qed
qed

text \<open>A client on the memory store whose server fails twice and then answers.\<close>

definition example_server :: "http_request list \<Rightarrow> http_request \<Rightarrow> reqwest_error + http_response" where
  "example_server before q =
     Ok \<lparr>rs_status = (if length before < 2 then 503 else 200), rs_content_length = None,
         rs_content_type = None, rs_body = Ok [1]\<rparr>"

definition example_client :: "MemoryTokenStore ApiClient" where
  "example_client =
     \<lparr>config = new_config ''https://h/'' ''agent'', client_store = memory_store, refresher = None,
      server = example_server, others = (\<lambda>_ t. t), from_json = (\<lambda>_. None), to_json_text = (\<lambda>_. [])\<rparr>"

definition example_world :: "MemoryTokenStore http_world" where
  "example_world =
     \<lparr>tokens = \<lparr>mem_token = Some ''t'', mem_refresh = None\<rparr>, sent = [], slept = [], refreshed = 0\<rparr>"

text \<open>
  C29: as long as the failures are ones worth retrying and there are no more of them than retries,
  a request gets the first good answer, after exactly that many further attempts and the delays
  between them.
\<close>

theorem request_persists:
  assumes "bearer_for c auth w = (Ok bearer, w1)" and "json_body body = Ok bytes"
    and "q = build_request m (client_url c path) bytes bearer"
    and "k \<le> max_retries (config c)"
    and "\<forall>i<k. \<exists>e. exchange c decode (sent w @ replicate i q) q = Err e \<and> is_retryable e"
    and "exchange c decode (sent w @ replicate k q) q = Ok v"
  shows "\<exists>w'. request c decode m path body auth w = (Ok v, w') \<and>
    sent w' = sent w @ replicate (Suc k) q \<and>
    slept w' = slept w @ map (\<lambda>i. retry_base_delay (config c) * 2 ^ min i 6) [0..<k]"
proof -
  have frame: "sent w1 = sent w" "slept w1 = slept w" using bearer_for_frame [OF assms(1)] by simp_all
  have "\<exists>w'. request_loop c decode (build_request m (client_url c path) bytes) auth bearer False 0 w1 = (Ok v, w') \<and>
      sent w' = sent w1 @ replicate (Suc k) (build_request m (client_url c path) bytes bearer) \<and>
      slept w' = slept w1 @ map (backoff_delay c) [0..<0 + k]"
    by (rule request_loop_persists) (use assms(3-6) frame in simp_all)
  then obtain w' where "request_loop c decode (build_request m (client_url c path) bytes) auth bearer False 0 w1 = (Ok v, w')"
      "sent w' = sent w @ replicate (Suc k) q" "slept w' = slept w @ map (backoff_delay c) [0..<k]"
    using assms(3) frame by auto
  then show ?thesis using assms(1,2) by (auto simp: request_def backoff_delay_def)
qed

theorem request_persists_witness:
  "\<exists>w'. request example_client Ok GET ''/x'' None True example_world = (Ok [1], w') \<and>
     length (sent w') = 3 \<and> slept w' = [300, 600]"
proof -
  define q where "q = build_request GET (client_url example_client ''/x'') None (Some ''t'')"
  have bearer: "bearer_for example_client True example_world = (Ok (Some ''t''), example_world)"
    by (simp add: bearer_for_def stored_token_def on_tokens_def example_client_def example_world_def
        memory_store_def)
  have fails: "\<exists>e. exchange example_client Ok (replicate i q) q = Err e \<and> is_retryable e" if "i < 2" for i
    using that
    by (simp add: exchange_def example_client_def example_server_def outcome_def is_success_def
        is_server_error_def)
  have good: "exchange example_client Ok (replicate 2 q) q = Ok [1]"
    by (simp add: exchange_def example_client_def example_server_def outcome_def is_success_def
        decoded_def)
  have "max_retries (config example_client) = 2" "retry_base_delay (config example_client) = 300"
      "sent example_world = []" "slept example_world = []"
    by (simp_all add: example_client_def new_config_def example_world_def)
  then show ?thesis
    using request_persists [OF bearer, of None None q GET "''/x''" 2 Ok "[1]"] fails good
    by (auto simp: json_body_def q_def eval_nat_numeral)
qed

text \<open>
  An authenticated request that is refused runs one refresh and is sent once more with the
  token the refresh leaves in the store; a session that cannot be refreshed returns the refusal.
\<close>

theorem request_refreshes:
  assumes "bearer_for c True w = (Ok (Some t), w1)" and "json_body body = Ok bytes"
    and "q = build_request m (client_url c path) bytes"
    and "execute_once c decode (q (Some t)) w1 = (Err err, w2)" and "is_unauthorized err"
    and "refresh_session c (Some t) w2 = (s, w3)"
  shows "request c decode m path body True w =
    (case s of
       Inl e \<Rightarrow> (Err e, w3)
     | Inr None \<Rightarrow> (Err err, w3)
     | Inr (Some t') \<Rightarrow> request_loop c decode q True (Some t') True 0 w3) \<and>
    (\<forall>v w'. request c decode m path body True w = (Ok v, w') \<longrightarrow>
       (\<exists>t'. s = Ok (Some t') \<and> last (sent w') = q (Some t')))"
proof -
  have eq: "request c decode m path body True w =
    (case s of
       Inl e \<Rightarrow> (Err e, w3)
     | Inr None \<Rightarrow> (Err err, w3)
     | Inr (Some t') \<Rightarrow> request_loop c decode q True (Some t') True 0 w3)"
  proof -
    have "request c decode m path body True w = request_loop c decode q True (Some t) False 0 w1"
      using assms(1-3) by (simp add: request_def)
    also have "\<dots> = (case s of
       Inl e \<Rightarrow> (Err e, w3)
     | Inr None \<Rightarrow> (Err err, w3)
     | Inr (Some t') \<Rightarrow> request_loop c decode q True (Some t') True 0 w3)"
      by (subst request_loop.simps) (simp add: assms(4-6))
    finally show ?thesis .
  qed
  moreover have "\<exists>t'. s = Ok (Some t') \<and> last (sent w') = q (Some t')"
    if ok: "request c decode m path body True w = (Ok v, w')" for v w'
  proof -
    obtain t' where t': "s = Ok (Some t')"
      and again: "request_loop c decode q True (Some t') True 0 w3 = (Ok v, w')"
      using ok eq by (auto split: sum.splits option.splits)
    obtain j where "sent w' = sent w3 @ replicate (Suc j) (q (Some t'))" using second_run [OF again] by auto
    then have "last (sent w') = q (Some t')" by (simp add: replicate_append_same [symmetric])
    then show ?thesis using t' by blast
  qed
  ultimately show ?thesis by blast
qed

definition refusing_client :: "MemoryTokenStore ApiClient" where
  "refusing_client = example_client\<lparr>
     server := (\<lambda>before q. Ok \<lparr>rs_status = (if rq_bearer q = Some ''t'' then 401 else 200),
       rs_content_length = None, rs_content_type = None, rs_body = Ok [1]\<rparr>),
     refresher := Some (\<lambda>s. (Ok (), s\<lparr>mem_token := Some ''new''\<rparr>))\<rparr>"

theorem request_refreshes_witness:
  "\<exists>w w2 w3. refresh_session refusing_client (Some ''t'') w2 = (Ok (Some ''new''), w3) \<and>
     request refusing_client Ok GET ''/x'' None True w =
       request_loop refusing_client Ok (build_request GET (client_url refusing_client ''/x'') None)
         True (Some ''new'') True 0 w3"
proof -
  let ?q = "build_request GET (client_url refusing_client ''/x'') None"
  have bearer: "bearer_for refusing_client True example_world = (Ok (Some ''t''), example_world)"
    by (simp add: bearer_for_def stored_token_def on_tokens_def refusing_client_def example_client_def
        example_world_def memory_store_def)
  define w2 where "w2 = snd (execute_once refusing_client Ok (?q (Some ''t'')) example_world)"
  have refused: "execute_once refusing_client Ok (?q (Some ''t'')) example_world =
      (Err (map_status_error 401 None), w2)"
    by (simp add: w2_def prod_eq_iff execute_once_exchange)
      (simp add: exchange_def outcome_def refusing_client_def example_client_def build_request_def
        is_success_def error_payload_def)
  have "mem_token (tokens w2) = Some ''t''"
    by (simp add: w2_def execute_once_def send_def refusing_client_def example_client_def
        example_world_def)
  then have "fst (refresh_session refusing_client (Some ''t'') w2) = Ok (Some ''new'')"
    by (simp add: refresh_session_def stored_token_def on_tokens_def run_refresh_def newer_token_def
        refusing_client_def example_client_def memory_store_def)
  then obtain w3 where fresh: "refresh_session refusing_client (Some ''t'') w2 = (Ok (Some ''new''), w3)"
    by (metis prod.collapse)
  show ?thesis
    using request_refreshes [OF bearer _ refl refused _ fresh, of None] fresh
    by (auto simp: json_body_def)
qed

lemma refusing_exchange:
  "exchange refusing_client Ok before (build_request GET url None bearer) =
     (if bearer = Some ''t'' then Err (map_status_error 401 None) else Ok [1])"
  by (simp add: exchange_def outcome_def refusing_client_def example_client_def build_request_def
      is_success_def error_payload_def decoded_def)

lemma refusing_others: "others_ran refusing_client before q n s = s"
  by (induction n arbitrary: before s) (simp_all add: refusing_client_def example_client_def)

text \<open>The refused token is renewed, and the second request goes through.\<close>

theorem request_trace_witness:
  "\<exists>w'. request refusing_client Ok GET ''/x'' None True example_world = (Ok [1], w') \<and>
     map rq_bearer (sent w') = [Some ''t'', Some ''new''] \<and> slept w' = [] \<and> refreshed w' = 1"
proof -
  obtain r w' where run: "request refusing_client Ok GET ''/x'' None True example_world = (r, w')" by fastforce
  have token: "fst (get_token (client_store refusing_client) (tokens example_world)) = Ok (Some ''t'')"
    "get_token (client_store refusing_client) s = (Ok (mem_token s), s)"
    "refresher refusing_client = Some (\<lambda>s. (Ok (), s\<lparr>mem_token := Some ''new''\<rparr>))"
    "json_body None = Ok None" "sent example_world = []" "slept example_world = []" "refreshed example_world = 0"
    "tokens example_world = \<lparr>mem_token = Some ''t'', mem_refresh = None\<rparr>" for s
    by (simp_all add: refusing_client_def example_client_def example_world_def memory_store_def json_body_def)
  have refused: "\<not> is_retryable (map_status_error 401 None)" "is_unauthorized (map_status_error 401 None)" by (simp_all add: is_server_error_def)
  have bearer: "rq_bearer (build_request m url body b) = b" for m url body b by (simp add: build_request_def)
  have none: "(\<forall>i. \<not> i < k) \<longleftrightarrow> k = 0" for k :: nat by auto
  have alone: "others refusing_client before s = s" for before s by (simp add: refusing_client_def example_client_def)
  from request_trace [OF run] obtain t k where t: "t = Some ''t''" "k = 0"
    and "r = Ok [1] \<and> sent w' = [build_request GET (client_url refusing_client ''/x'') None t,
           build_request GET (client_url refusing_client ''/x'') None (Some ''new'')] \<and> slept w' = [] \<and> refreshed w' = 1"
    using refused by (auto simp: token renewal_def refusing_exchange refusing_others Let_def none alone split: sum.splits option.splits if_splits)
  then show ?thesis using run bearer by auto
qed

text \<open>
  A download never returns more than the limit, and only from an answer that was a success;
  one that declares a greater length is refused before its content is read.
\<close>

theorem bytes_bounded:
  assumes "bytes_at c url max_bytes auth w = (Ok (mime, bs), w')"
  shows "length bs \<le> max_bytes \<and>
    (\<exists>before q resp. sent w' = before @ [q] \<and> server c before q = Ok resp \<and>
       is_success (rs_status resp) \<and> rs_body resp = Ok bs \<and> mime = mime_of (rs_content_type resp) \<and>
       rq_url q = url \<and> (rq_bearer q \<noteq> None) = auth \<and>
       (\<forall>n. rs_content_length resp = Some n \<longrightarrow> unat n \<le> max_bytes))"
proof -
  obtain s w1 where s: "bearer_for c auth w = (s, w1)" by fastforce
  obtain bearer where b: "s = Ok bearer" using assms s by (cases s) (simp_all add: bytes_at_def)
  let ?q = "build_request GET url None bearer"
  have w': "sent w' = sent w1 @ [?q]"
    and o: "and_then (map_err Transport (server c (sent w1) ?q)) (bytes_outcome max_bytes) = Ok (mime, bs)"
    using assms s b by (auto simp: bytes_at_def send_def)
  from o obtain resp where resp: "server c (sent w1) ?q = Ok resp" "bytes_outcome max_bytes resp = Ok (mime, bs)"
    by auto
  then have "is_success (rs_status resp)" "rs_body resp = Ok bs" "length bs \<le> max_bytes"
      "mime = mime_of (rs_content_type resp)"
      "\<forall>n. rs_content_length resp = Some n \<longrightarrow> unat n \<le> max_bytes"
    by (auto simp: bytes_outcome_def split: if_splits option.splits)
  then show ?thesis
    using w' resp(1) bearer_for_frame [OF s] b by (auto simp: build_request_def)
qed

theorem bytes_bounded_witness:
  "length [1 :: u8] \<le> 5 \<and>
   (\<exists>before q resp. server refusing_client before q = Ok resp \<and> rs_body resp = Ok [1 :: u8])"
proof -
  have "fst (bytes_at refusing_client ''u'' 5 False example_world) =
      Ok (mime_of None, [1])"
    by (simp add: bytes_at_def bearer_for_def send_def build_request_def bytes_outcome_def
        refusing_client_def example_client_def is_success_def)
  then obtain w' where "bytes_at refusing_client ''u'' 5 False example_world = (Ok (mime_of None, [1]), w')"
    by (metis prod.collapse)
  from bytes_bounded [OF this] show ?thesis by blast
qed

end
