(* ===== verification/RefreshLock.thy ===== *)
theory RefreshLock
  imports HttpClient
begin

text \<open>
  Several requests of one client that are refused at the same time, \<open>refresh_session\<close> of
  \<open>client/executor.rs\<close> under \<open>toolkit/dovetail_http_client/rust/src\<close>: each waits for the lock, looks
  at the stored token, and refreshes the session or takes the token another task left.  A task
  moves at its await points, in any order.  The refresher is the application's and is awaited under
  the lock without a time limit: \<open>returns\<close> says for which tokens its future comes to an end.  One that
  waits for a server that does not answer does not, nor does one whose own requests over the same
  client are refused and wait for the lock it holds.
\<close>

section \<open>Tasks and their steps\<close>

datatype task =
    Waiting string
  | Checking string
  | Refreshing string
  | Finished "ApiError + string option"

record 's lock_world =
  lk_world :: "'s http_world"
  holder :: "nat option"
  tasks :: "nat \<Rightarrow> task"
  succeeded :: "nat list"

definition finish :: "nat \<Rightarrow> ApiError + string option \<Rightarrow> 's lock_world \<Rightarrow> 's lock_world" where
  "finish i r s = s\<lparr>holder := None, tasks := (tasks s)(i := Finished r)\<rparr>"

inductive refresh_step ::
  "'s ApiClient \<Rightarrow> ('s \<Rightarrow> (ApiError + unit) \<times> 's) \<Rightarrow> ('s \<Rightarrow> bool) \<Rightarrow>
   's lock_world \<Rightarrow> 's lock_world \<Rightarrow> bool"
  for c refresh returns where
  acquire: "tasks s i = Waiting u \<Longrightarrow> holder s = None \<Longrightarrow>
    refresh_step c refresh returns s (s\<lparr>holder := Some i, tasks := (tasks s)(i := Checking u)\<rparr>)"
| check_fails: "tasks s i = Checking u \<Longrightarrow> stored_token c (lk_world s) = (Inl e, w) \<Longrightarrow>
    refresh_step c refresh returns s (finish i (Err e) (s\<lparr>lk_world := w\<rparr>))"
| check_newer: "tasks s i = Checking u \<Longrightarrow> stored_token c (lk_world s) = (Inr stored, w) \<Longrightarrow>
    newer_token stored (Some u) = Some current \<Longrightarrow>
    refresh_step c refresh returns s (finish i (Ok (Some current)) (s\<lparr>lk_world := w\<rparr>))"
| check_old: "tasks s i = Checking u \<Longrightarrow> stored_token c (lk_world s) = (Inr stored, w) \<Longrightarrow>
    newer_token stored (Some u) = None \<Longrightarrow>
    refresh_step c refresh returns s (s\<lparr>lk_world := w, tasks := (tasks s)(i := Refreshing u)\<rparr>)"
| refresh: "tasks s i = Refreshing u \<Longrightarrow> returns (http_world.tokens (lk_world s)) \<Longrightarrow> run_refresh c refresh (lk_world s) = (r, w) \<Longrightarrow>
    refresh_step c refresh returns s
      (finish i r (s\<lparr>lk_world := w,
         succeeded := (if is_ok (fst (refresh (http_world.tokens (lk_world s)))) then succeeded s @ [i] else succeeded s)\<rparr>))"

inductive_cases refresh_stepE: "refresh_step c refresh returns s s'"

inductive refresh_run ::
  "'s ApiClient \<Rightarrow> ('s \<Rightarrow> (ApiError + unit) \<times> 's) \<Rightarrow> ('s \<Rightarrow> bool) \<Rightarrow>
   's lock_world \<Rightarrow> nat \<Rightarrow> 's lock_world \<Rightarrow> bool"
  for c refresh returns s where
  run_start: "refresh_run c refresh returns s 0 s"
| run_step: "refresh_run c refresh returns s n s' \<Longrightarrow> refresh_step c refresh returns s' s'' \<Longrightarrow>
    refresh_run c refresh returns s (Suc n) s''"

text \<open>\<open>n\<close> tasks that were all refused with the same token.\<close>

definition refused_tasks :: "nat \<Rightarrow> string \<Rightarrow> 's http_world \<Rightarrow> 's lock_world" where
  "refused_tasks n t w =
     \<lparr>lk_world = w, holder = None,
      tasks = (\<lambda>i. if i < n then Waiting t else Finished (Ok None)), succeeded = []\<rparr>"

section \<open>The invariant\<close>

definition lock_inv :: "'s lock_world \<Rightarrow> bool" where
  "lock_inv s \<longleftrightarrow>
     (\<forall>i. holder s = Some i \<longleftrightarrow> (\<exists>u. tasks s i = Checking u \<or> tasks s i = Refreshing u))"

fun used_ok :: "string \<Rightarrow> task \<Rightarrow> bool" where
  "used_ok t (Finished r) = (r \<noteq> Ok (Some t))"
| "used_ok t (Waiting u) = (u = t)"
| "used_ok t (Checking u) = (u = t)"
| "used_ok t (Refreshing u) = (u = t)"

definition used_inv :: "string \<Rightarrow> 's lock_world \<Rightarrow> bool" where
  "used_inv t s \<longleftrightarrow> (\<forall>i. used_ok t (tasks s i))"

lemma used_inv_update:
  "used_inv t s \<Longrightarrow> tasks s' = (tasks s)(i := k) \<Longrightarrow> used_ok t k \<Longrightarrow> used_inv t s'"
  by (simp add: used_inv_def)

lemma used_inv_at: "used_inv t s \<Longrightarrow> used_ok t (tasks s i)"
  by (simp add: used_inv_def)

text \<open>A task that was told to go on with a token, or failed to read it.\<close>

definition answered :: "'s TokenStore \<Rightarrow> string \<Rightarrow> task \<Rightarrow> bool" where
  "answered store v k \<longleftrightarrow>
     k = Finished (Ok (Some v)) \<or> (\<exists>e x. k = Finished (Err e) \<and> fst (get_token store x) = Err e)"

lemma answered_finished [simp]:
  "\<not> answered store v (Waiting u)" "\<not> answered store v (Checking u)" "\<not> answered store v (Refreshing u)"
  by (simp_all add: answered_def)

definition flight_inv :: "'s TokenStore \<Rightarrow> ('s \<Rightarrow> string option) \<Rightarrow> string \<Rightarrow> 's lock_world \<Rightarrow> bool" where
  "flight_inv store access t s \<longleftrightarrow>
     succeeded s = [] \<or>
     (\<exists>i v. succeeded s = [i] \<and> access (http_world.tokens (lk_world s)) = Some v \<and> v \<noteq> t \<and>
        answered store v (tasks s i) \<and> (\<forall>j u. tasks s j \<noteq> Refreshing u))"

lemma flight_inv_update:
  assumes "flight_inv store access t s" and "tasks s' = (tasks s)(i := k)" and "\<And>v. \<not> answered store v (tasks s i)"
    and "\<And>u. k \<noteq> Refreshing u" and "succeeded s' = succeeded s"
    and "access (http_world.tokens (lk_world s')) = access (http_world.tokens (lk_world s))"
  shows "flight_inv store access t s'"
proof (cases "succeeded s = []")
  case False
  then obtain j v where j: "succeeded s = [j]" "access (http_world.tokens (lk_world s)) = Some v" "v \<noteq> t"
      "answered store v (tasks s j)" "\<forall>j u. tasks s j \<noteq> Refreshing u"
    using assms(1) by (auto simp: flight_inv_def)
  then have "j \<noteq> i" using assms(3) by metis
  then show ?thesis unfolding flight_inv_def using j assms(2,4-6) by auto
qed (use assms(5) in \<open>simp add: flight_inv_def\<close>)

text \<open>What a refresh that succeeds leaves behind is not the token that was refused.\<close>

definition fresh_refresh ::
  "('s \<Rightarrow> string option) \<Rightarrow> string \<Rightarrow> ('s \<Rightarrow> (ApiError + unit) \<times> 's) \<Rightarrow> bool" where
  "fresh_refresh access t refresh \<longleftrightarrow>
     (\<forall>x x'. refresh x = (Ok (), x') \<longrightarrow> (\<exists>v. access x' = Some v \<and> v \<noteq> t))"

lemma newer_token_Some: "newer_token stored (Some u) = Some v \<longleftrightarrow> stored = Some v \<and> v \<noteq> u"
  by (auto simp: newer_token_def split: option.splits if_splits)

lemma newer_token_None: "newer_token stored (Some u) = None \<longleftrightarrow> stored = None \<or> stored = Some u"
  by (auto simp: newer_token_def split: option.splits if_splits)

definition inside :: "task \<Rightarrow> bool" where
  "inside k \<longleftrightarrow> (\<exists>u. k = Checking u \<or> k = Refreshing u)"

lemma inside_simps [simp]:
  "inside (Checking u)" "inside (Refreshing u)" "\<not> inside (Waiting u)" "\<not> inside (Finished r)"
  by (simp_all add: inside_def)

lemma lock_inv_inside: "lock_inv s \<longleftrightarrow> (\<forall>i. holder s = Some i \<longleftrightarrow> inside (tasks s i))"
  by (simp add: lock_inv_def inside_def)

lemma lock_inv_release:
  assumes "lock_inv s" and "inside (tasks s i)" and "holder s' = None"
    and "tasks s' = (tasks s)(i := Finished r)"
  shows "lock_inv s'"
proof -
  have "j = i" if "inside (tasks s j)" for j
    using that assms(1,2) unfolding lock_inv_inside by (metis option.inject)
  then show ?thesis using assms(3,4) by (auto simp: lock_inv_inside)
qed

lemma lock_inv_alone:
  assumes "lock_inv s" and "tasks s i = Refreshing u" and "tasks s j = Refreshing v"
  shows "i = j"
proof -
  have "holder s = Some i" "holder s = Some j" using assms by (simp_all add: lock_inv_inside)
  then show ?thesis by simp
qed

lemma lock_inv_keep:
  assumes "lock_inv s" and "inside (tasks s i)" and "holder s' = holder s"
    and "tasks s' = (tasks s)(i := Refreshing u)"
  shows "lock_inv s'"
  using assms unfolding lock_inv_inside by auto

lemma lock_inv_step: "refresh_step c refresh returns s s' \<Longrightarrow> lock_inv s \<Longrightarrow> lock_inv s'"
proof (induction rule: refresh_step.induct)
  case (acquire s i u)
  then show ?case by (auto simp: lock_inv_inside)
next
  case (check_fails s i u e w)
  then show ?case by (auto intro: lock_inv_release [of s i] simp: finish_def)
next
  case (check_newer s i u stored w current)
  then show ?case by (auto intro: lock_inv_release [of s i] simp: finish_def)
next
  case (check_old s i u stored w)
  then show ?case by (auto intro: lock_inv_keep [of s i])
next
  case (refresh s i u r w)
  show ?case
    by (rule lock_inv_release [of s i]) (use refresh in \<open>simp_all add: finish_def\<close>)
qed

context token_store
begin

lemma stored_token_reads:
  assumes "stored_token c w = (r, w')" and "client_store c = store"
  shows "access (http_world.tokens w') = access (http_world.tokens w)"
    and "r = Ok v \<Longrightarrow> v = access (http_world.tokens w)"
  using assms get_reads [of "http_world.tokens w"]
  by (auto simp: stored_token_def on_tokens_def split: prod.splits)

lemma run_refresh_fresh:
  assumes "client_store c = store"
    and fresh: "fresh_refresh access t ref"
    and "run_refresh c ref w = (r, w')"
  shows "r = Ok (Some v) \<Longrightarrow> v \<noteq> t"
    and "is_ok (fst (ref (http_world.tokens w))) \<Longrightarrow>
      \<exists>v. access (http_world.tokens w') = Some v \<and> v \<noteq> t \<and> answered store v (Finished r)"
proof -
  obtain q x where x: "ref (http_world.tokens w) = (q, x)" by fastforce
  let ?w1 = "w\<lparr>refreshed := Suc (refreshed w), http_world.tokens := x\<rparr>"
  have on: "on_tokens ref (w\<lparr>refreshed := Suc (refreshed w)\<rparr>) = (q, ?w1)"
    by (simp add: on_tokens_def x)
  have main: "(\<forall>v. r = Ok (Some v) \<longrightarrow> v \<noteq> t) \<and>
      (is_ok q \<longrightarrow> (\<exists>v. access (http_world.tokens w') = Some v \<and> v \<noteq> t \<and> answered store v (Finished r)))"
  proof (cases q)
    case (Inl e)
    then show ?thesis using assms(3) on by (auto simp: run_refresh_def split: if_splits)
  next
    case (Inr u)
    then have read: "stored_token c ?w1 = (r, w')" using assms(3) on by (simp add: run_refresh_def)
    have "ref (http_world.tokens w) = (Ok (), x)" using x Inr by simp
    then obtain v where "access x = Some v" "v \<noteq> t" using fresh unfolding fresh_refresh_def by blast
    moreover have "answered store v (Finished r)" if "access x = Some v" for v
      using stored_token_reads(2) [OF read assms(1)] read that assms(1)
      by (cases r) (auto simp: answered_def stored_token_def on_tokens_def split: prod.splits, metis fst_conv)
    ultimately show ?thesis using stored_token_reads [OF read assms(1)] by auto
  qed
  show "r = Ok (Some v) \<Longrightarrow> v \<noteq> t" using main by blast
  show "is_ok (fst (ref (http_world.tokens w))) \<Longrightarrow>
      \<exists>v. access (http_world.tokens w') = Some v \<and> v \<noteq> t \<and> answered store v (Finished r)"
    using main x by simp
qed

lemma old_token_first:
  assumes "client_store c = store" and "flight_inv store access t s"
    and "stored_token c (lk_world s) = (Ok stored, w)" and "newer_token stored (Some t) = None"
  shows "succeeded s = []"
proof (rule ccontr)
  assume "succeeded s \<noteq> []"
  then obtain v where "access (http_world.tokens (lk_world s)) = Some v" "v \<noteq> t"
    using assms(2) by (auto simp: flight_inv_def)
  then show False
    using stored_token_reads(2) [OF assms(3,1), of stored] assms(4) by (auto simp: newer_token_None)
qed

lemma flight_step:
  assumes "refresh_step c ref returns s s'" and "client_store c = store"
    and fresh: "fresh_refresh access t ref"
    and "lock_inv s" and "used_inv t s" and "flight_inv store access t s"
  shows "used_inv t s' \<and> flight_inv store access t s'"
  using assms(1)
proof cases
  case (acquire i u)
  have "used_inv t s'"
    by (rule used_inv_update [OF assms(5), of _ i "Checking u"]) (use acquire used_inv_at [OF assms(5), of i] in auto)
  then show ?thesis using flight_inv_update [OF assms(6), of s' i "Checking u"] acquire(1,2) by simp
next
  case (check_fails i u e w)
  have "used_inv t s'"
    by (rule used_inv_update [OF assms(5), of _ i "Finished (Err e)"]) (use check_fails(1) in \<open>simp_all add: finish_def\<close>)
  then show ?thesis
    using flight_inv_update [OF assms(6), of s' i "Finished (Err e)"] check_fails(1,2)
      stored_token_reads(1) [OF check_fails(3) assms(2)] by (simp add: finish_def)
next
  case (check_newer i u stored w current)
  have "used_ok t (tasks s i)" by (rule used_inv_at [OF assms(5)])
  then have "current \<noteq> t" using check_newer(2,4) by (simp add: newer_token_Some)
  then have "used_inv t s'"
    by (intro used_inv_update [OF assms(5), of _ i "Finished (Ok (Some current))"]) (use check_newer(1) in \<open>simp_all add: finish_def\<close>)
  then show ?thesis
    using flight_inv_update [OF assms(6), of s' i "Finished (Ok (Some current))"] check_newer(1,2)
      stored_token_reads(1) [OF check_newer(3) assms(2)] by (simp add: finish_def)
next
  case (check_old i u stored w)
  have u: "u = t" using used_inv_at [OF assms(5), of i] check_old(2) by simp
  have "succeeded s = []"
    by (rule old_token_first [OF assms(2,6) check_old(3) check_old(4) [unfolded u]])
  moreover have "used_inv t s'"
    by (rule used_inv_update [OF assms(5), of _ i "Refreshing u"]) (use check_old(1) u in simp_all)
  ultimately show ?thesis using check_old(1) by (simp add: flight_inv_def)
next
  case (refresh i u r w)
  have none: "succeeded s = []" using assms(6) refresh(2) by (auto simp: flight_inv_def)
  have alone: "tasks s j \<noteq> Refreshing x" if "j \<noteq> i" for j x
    using lock_inv_alone [OF assms(4)] refresh(2) that by blast
  note run = run_refresh_fresh [OF assms(2) fresh refresh(4)]
  have "used_ok t (Finished r)" using run(1) by auto
  then have "used_inv t s'"
    by (intro used_inv_update [OF assms(5), of _ i "Finished r"]) (use refresh(1) in \<open>simp_all add: finish_def\<close>)
  then show ?thesis using none alone run(2) refresh(1) by (auto simp: flight_inv_def finish_def)
qed

lemma flight_run:
  assumes "refresh_run c ref returns s k s'" and "client_store c = store"
    and fresh: "fresh_refresh access t ref"
    and "lock_inv s \<and> used_inv t s \<and> flight_inv store access t s"
  shows "lock_inv s' \<and> used_inv t s' \<and> flight_inv store access t s'"
  using assms(1)
proof (induction rule: refresh_run.induct)
  case run_start
  show ?case by (rule assms(4))
next
  case (run_step k s' s'')
  then have "used_inv t s'' \<and> flight_inv store access t s''"
    by (intro flight_step [of c ref returns s' s'' t]) (use assms(2) fresh in auto)
  then show ?case using lock_inv_step [OF run_step(2)] run_step.IH by blast
qed

text \<open>Once a refresh has succeeded, nothing but the token it stored is handed out.\<close>

lemma settled_step:
  assumes "refresh_step c ref returns s s'" and "client_store c = store" and "used_inv t s"
    and "flight_inv store access t s" and "succeeded s \<noteq> []" and v: "access (http_world.tokens (lk_world s)) = Some v"
  shows "succeeded s' = succeeded s \<and> access (http_world.tokens (lk_world s')) = Some v \<and>
    (\<forall>j. tasks s' j = tasks s j \<or> inside (tasks s' j) \<or> answered store v (tasks s' j))"
  using assms(1)
proof cases
  case (acquire i u)
  then show ?thesis using v by simp
next
  case (check_fails i u e w)
  have "fst (get_token store (http_world.tokens (lk_world s))) = Err e"
    using check_fails(3) assms(2) by (auto simp: stored_token_def on_tokens_def split: prod.splits)
  then have "answered store v (Finished (Err e))" by (auto simp: answered_def)
  then show ?thesis
    using check_fails(1) v stored_token_reads(1) [OF check_fails(3) assms(2)] by (simp add: finish_def)
next
  case (check_newer i u stored w current)
  have "current = v"
    using stored_token_reads(2) [OF check_newer(3) assms(2), of stored] check_newer(4) v by (simp add: newer_token_Some)
  then show ?thesis
    using check_newer(1) v stored_token_reads(1) [OF check_newer(3) assms(2)] by (simp add: finish_def answered_def)
next
  case (check_old i u stored w)
  have "u = t" using used_inv_at [OF assms(3), of i] check_old(2) by simp
  then show ?thesis using old_token_first [OF assms(2,4) check_old(3)] check_old(4) assms(5) by simp
next
  case (refresh i u r w)
  then show ?thesis using assms(4,5) by (auto simp: flight_inv_def)
qed

lemma settled_run:
  assumes "refresh_run c ref returns s k s'" and "client_store c = store" and "fresh_refresh access t ref"
    and inv: "lock_inv s \<and> used_inv t s \<and> flight_inv store access t s" and "succeeded s \<noteq> []"
    and "access (http_world.tokens (lk_world s)) = Some v"
  shows "succeeded s' = succeeded s \<and> access (http_world.tokens (lk_world s')) = Some v \<and>
    (\<forall>j. tasks s' j = tasks s j \<or> inside (tasks s' j) \<or> answered store v (tasks s' j))"
  using assms(1)
proof (induction rule: refresh_run.induct)
  case run_start
  show ?case using assms(6) by simp
next
  case (run_step k s' s'')
  have "used_inv t s'" "flight_inv store access t s'" using flight_run [OF run_step(1) assms(2,3) inv] by simp_all
  from settled_step [OF run_step(2) assms(2) this] have
    "succeeded s'' = succeeded s' \<and> access (http_world.tokens (lk_world s'')) = Some v \<and>
      (\<forall>j. tasks s'' j = tasks s' j \<or> inside (tasks s'' j) \<or> answered store v (tasks s'' j))"
    using run_step.IH assms(5) by simp
  then show ?case using run_step.IH by metis
qed

end

lemma refused_inv: "lock_inv (refused_tasks n t w) \<and> used_inv t (refused_tasks n t w) \<and>
    flight_inv store access t (refused_tasks n t w)"
  by (simp add: lock_inv_def used_inv_def flight_inv_def refused_tasks_def)

section \<open>Progress\<close>

fun weight :: "task \<Rightarrow> nat" where
  "weight (Waiting _) = 3"
| "weight (Checking _) = 2"
| "weight (Refreshing _) = 1"
| "weight (Finished _) = 0"

lemma step_weight:
  "refresh_step c ref returns s s' \<Longrightarrow>
     \<exists>i k. tasks s' = (tasks s)(i := k) \<and> weight k < weight (tasks s i)"
proof (induction rule: refresh_step.induct)
  case (acquire s i u)
  then show ?case by (intro exI [of _ i] exI [of _ "Checking u"]) simp
next
  case (check_fails s i u e w)
  then show ?case by (intro exI [of _ i] exI [of _ "Finished (Err e)"]) (simp add: finish_def)
next
  case (check_newer s i u stored w current)
  then show ?case
    by (intro exI [of _ i] exI [of _ "Finished (Ok (Some current))"]) (simp add: finish_def)
next
  case (check_old s i u stored w)
  then show ?case by (intro exI [of _ i] exI [of _ "Refreshing u"]) simp
next
  case (refresh s i u r w)
  then show ?case by (intro exI [of _ i] exI [of _ "Finished r"]) (simp add: finish_def)
qed

lemma sum_update_less:
  fixes f :: "nat \<Rightarrow> task"
  assumes "i < n" and "weight k < weight (f i)"
  shows "(\<Sum>j<n. weight ((f(i := k)) j)) < (\<Sum>j<n. weight (f j))"
  by (rule sum_strict_mono_ex1) (use assms in auto)

lemma refresh_run_weight:
  "refresh_run c ref returns (refused_tasks n t w) k s \<Longrightarrow>
     (\<Sum>i<n. weight (tasks s i)) + k \<le> 3 * n \<and> (\<forall>i\<ge>n. weight (tasks s i) = 0)"
proof (induction rule: refresh_run.induct)
  case run_start
  have "(\<Sum>i<n. weight (tasks (refused_tasks n t w) i)) = (\<Sum>i<n. 3)"
    by (rule sum.cong) (simp_all add: refused_tasks_def)
  then show ?case by (simp add: refused_tasks_def)
next
  case (run_step k s' s'')
  obtain i q where i: "tasks s'' = (tasks s')(i := q)" "weight q < weight (tasks s' i)"
    using step_weight [OF run_step(2)] by blast
  then have "i < n" using run_step.IH by (metis less_nat_zero_code linorder_not_le)
  then have "(\<Sum>j<n. weight (tasks s'' j)) < (\<Sum>j<n. weight (tasks s' j))"
    unfolding i(1) by (rule sum_update_less) (rule i(2))
  then show ?case using run_step.IH i \<open>i < n\<close> by auto
qed

lemma step_possible:
  assumes "lock_inv s" and "weight (tasks s i) \<noteq> 0"
    and "\<forall>j u. tasks s j = Refreshing u \<longrightarrow> returns (http_world.tokens (lk_world s))"
  shows "\<exists>s'. refresh_step c ref returns s s'"
proof (cases "holder s")
  case None
  then have "\<not> inside (tasks s i)" using assms(1) by (simp add: lock_inv_inside)
  then obtain u where "tasks s i = Waiting u" using assms(2) by (cases "tasks s i") auto
  then show ?thesis using None by (blast intro: refresh_step.acquire)
next
  case (Some j)
  then have "inside (tasks s j)" using assms(1) unfolding lock_inv_inside by blast
  then consider u where "tasks s j = Checking u" | u where "tasks s j = Refreshing u"
    by (auto simp: inside_def)
  then show ?thesis
  proof cases
    case 1
    obtain r w where r: "stored_token c (lk_world s) = (r, w)" by fastforce
    show ?thesis
    proof (cases r)
      case (Inl e)
      then show ?thesis using 1 r by (blast intro: refresh_step.check_fails)
    next
      case (Inr stored)
      then show ?thesis
        using 1 r
        by (cases "newer_token stored (Some u)") (blast intro: refresh_step.check_old refresh_step.check_newer)+
    qed
  next
    case 2
    obtain r w where "run_refresh c ref (lk_world s) = (r, w)" by fastforce
    moreover have "returns (http_world.tokens (lk_world s))" using 2 assms(3) by blast
    ultimately show ?thesis using 2 by (blast intro: refresh_step.refresh)
  qed
qed

text \<open>While the refresher of the task that holds the lock does not return, nobody moves.\<close>

lemma hanging_refresher_blocks:
  assumes "lock_inv s" and "holder s = Some i" and "tasks s i = Refreshing u"
    and "\<not> returns (http_world.tokens (lk_world s))"
  shows "\<not> refresh_step c ref returns s s'"
proof -
  have "\<not> inside (tasks s j)" if "j \<noteq> i" for j
    using assms(1,2) that unfolding lock_inv_inside by (metis option.inject)
  then have "tasks s j \<noteq> Checking x" for j x using assms(3) by (cases "j = i") (auto simp: inside_def)
  then show ?thesis using assms(2-4) by (auto elim: refresh_stepE)
qed

lemma run_lock_inv: "refresh_run c ref returns (refused_tasks n t w) k s \<Longrightarrow> lock_inv s"
proof (induction rule: refresh_run.induct)
  case run_start
  show ?case by (simp add: lock_inv_def refused_tasks_def)
next
  case (run_step k s' s'')
  then show ?case by (blast intro: lock_inv_step)
qed

text \<open>One task alone does what \<open>refresh_session\<close> does.\<close>

lemma refresh_session_run:
  assumes "refresher c = Some ref" and "refresh_session c (Some t) w = (r, w')" and "\<forall>x. returns x"
  shows "\<exists>k s. refresh_run c ref returns (refused_tasks 1 t w) k s \<and> tasks s 0 = Finished r \<and> lk_world s = w'"
proof -
  let ?s0 = "refused_tasks 1 t w"
  let ?s1 = "?s0\<lparr>holder := Some 0, tasks := (tasks ?s0)(0 := Checking t)\<rparr>"
  have "refresh_step c ref returns ?s0 ?s1" by (rule refresh_step.acquire) (simp_all add: refused_tasks_def)
  then have one: "refresh_run c ref returns ?s0 (Suc 0) ?s1" by (rule run_step [OF run_start])
  have at1: "tasks ?s1 0 = Checking t" "lk_world ?s1 = w" by (simp_all add: refused_tasks_def)
  obtain q w1 where q: "stored_token c w = (q, w1)" by fastforce
  show ?thesis
  proof (cases q)
    case (Inl e)
    then have "refresh_step c ref returns ?s1 (finish 0 (Err e) (?s1\<lparr>lk_world := w1\<rparr>))"
      using q at1 by (intro refresh_step.check_fails [of _ _ t]) simp_all
    then have "refresh_run c ref returns ?s0 (Suc (Suc 0)) (finish 0 (Err e) (?s1\<lparr>lk_world := w1\<rparr>))"
      by (rule run_step [OF one])
    moreover have "r = Err e" "w' = w1" using assms q Inl by (simp_all add: refresh_session_def)
    ultimately show ?thesis by (intro exI conjI) (assumption, simp_all add: finish_def)
  next
    case (Inr stored)
    show ?thesis
    proof (cases "newer_token stored (Some t)")
      case None
      let ?s2 = "?s1\<lparr>lk_world := w1, tasks := (tasks ?s1)(0 := Refreshing t)\<rparr>"
      have "refresh_step c ref returns ?s1 ?s2"
        using q at1 None Inr by (intro refresh_step.check_old) simp_all
      then have two: "refresh_run c ref returns ?s0 (Suc (Suc 0)) ?s2" by (rule run_step [OF one])
      have r: "run_refresh c ref (lk_world ?s2) = (r, w')"
        using assms q Inr None by (simp add: refresh_session_def)
      have "tasks ?s2 0 = Refreshing t" "returns (http_world.tokens (lk_world ?s2))" using assms(3) by simp_all
      from run_step [OF two refresh_step.refresh [where returns = returns, OF this(1,2) r]]
      show ?thesis by (intro exI conjI) (assumption, simp_all add: finish_def)
    next
      case (Some current)
      then have "refresh_step c ref returns ?s1 (finish 0 (Ok (Some current)) (?s1\<lparr>lk_world := w1\<rparr>))"
        using q at1 Inr by (intro refresh_step.check_newer) simp_all
      then have "refresh_run c ref returns ?s0 (Suc (Suc 0)) (finish 0 (Ok (Some current)) (?s1\<lparr>lk_world := w1\<rparr>))"
        by (rule run_step [OF one])
      moreover have "r = Ok (Some current)" "w' = w1"
        using assms q Inr Some by (simp_all add: refresh_session_def)
      ultimately show ?thesis by (intro exI conjI) (assumption, simp_all add: finish_def)
    qed
  qed
qed

section \<open>Properties\<close>

text \<open>
  C30: when several requests on the keyring were refused with the same token, then in whatever
  order they move only one of them holds the lock, the session is refreshed successfully at most
  once and no request is told to go on with the refused token.  Once a refresh has succeeded,
  nobody refreshes again, the token it stored stays, and the task that refreshed as well as every
  task that finishes after it goes on with that token, or fails with an error of the keyring.
\<close>

theorem refresh_single_flight:
  assumes "client_store c = keyring_store e"
    and "fresh_refresh (\<lambda>k. passwords k (service e, access_entry e)) t ref"
    and "refresh_run c ref returns (refused_tasks n t w) k s" and "refresh_run c ref returns s m s'"
  shows "length (succeeded s') \<le> 1 \<and>
    (\<forall>i. tasks s' i \<noteq> Finished (Ok (Some t))) \<and>
    (\<forall>i j. inside (tasks s' i) \<and> inside (tasks s' j) \<longrightarrow> i = j) \<and>
    (succeeded s \<noteq> [] \<longrightarrow>
       succeeded s' = succeeded s \<and> (\<forall>j u. tasks s' j \<noteq> Refreshing u) \<and>
       (\<exists>v. v \<noteq> t \<and> passwords (http_world.tokens (lk_world s)) (service e, access_entry e) = Some v \<and>
          passwords (http_world.tokens (lk_world s')) (service e, access_entry e) = Some v \<and>
          (\<forall>j r. tasks s' j = Finished r \<and> (tasks s j \<noteq> Finished r \<or> j \<in> set (succeeded s)) \<longrightarrow>
             r = Ok (Some v) \<or> (\<exists>err x. r = Err err \<and> fst (get_token (keyring_store e) x) = Err err))))"
proof -
  let ?access = "\<lambda>k. passwords k (service e, access_entry e)"
  note inv = keyring.flight_run [OF assms(3,1,2) refused_inv]
  note inv' = keyring.flight_run [OF assms(4,1,2) inv]
  then have "used_ok t (tasks s' i)" for i by (simp add: used_inv_def)
  then have "tasks s' i \<noteq> Finished (Ok (Some t))" for i by (metis used_ok.simps(1))
  moreover have "i = j" if "inside (tasks s' i)" "inside (tasks s' j)" for i j
    using inv' that unfolding lock_inv_inside by (metis option.inject)
  moreover have "length (succeeded s') \<le> 1" using inv' by (auto simp: flight_inv_def)
  moreover have "succeeded s' = succeeded s \<and> (\<forall>j u. tasks s' j \<noteq> Refreshing u) \<and>
       (\<exists>v. v \<noteq> t \<and> ?access (http_world.tokens (lk_world s)) = Some v \<and> ?access (http_world.tokens (lk_world s')) = Some v \<and>
          (\<forall>j r. tasks s' j = Finished r \<and> (tasks s j \<noteq> Finished r \<or> j \<in> set (succeeded s)) \<longrightarrow>
             r = Ok (Some v) \<or> (\<exists>err x. r = Err err \<and> fst (get_token (keyring_store e) x) = Err err)))"
    if won: "succeeded s \<noteq> []"
  proof -
    obtain i v where v: "succeeded s = [i]" "?access (http_world.tokens (lk_world s)) = Some v" "v \<noteq> t"
        "answered (keyring_store e) v (tasks s i)"
      using inv won by (auto simp: flight_inv_def)
    note settled = keyring.settled_run [OF assms(4,1,2) inv won v(2)]
    have "answered (keyring_store e) v (tasks s' j)"
      if "tasks s' j = Finished r" "tasks s j \<noteq> Finished r \<or> j \<in> set (succeeded s)" for j r
      using settled that v(1,4) by (metis empty_iff empty_set inside_simps(4) set_ConsD)
    then have "r = Ok (Some v) \<or> (\<exists>err x. r = Err err \<and> fst (get_token (keyring_store e) x) = Err err)"
      if "tasks s' j = Finished r" "tasks s j \<noteq> Finished r \<or> j \<in> set (succeeded s)" for j r
      using that by (force simp: answered_def)
    moreover have "\<forall>j u. tasks s' j \<noteq> Refreshing u"
      using inv' settled won by (auto simp: flight_inv_def)
    ultimately show ?thesis using settled v(2,3) by blast
  qed
  ultimately show ?thesis by blast
qed

definition keyring_client :: "keyring ApiClient" where
  "keyring_client =
     \<lparr>config = new_config ''https://h'' ''agent'', client_store = keyring_store example_entries,
      refresher = Some (\<lambda>k. (Ok (), k\<lparr>passwords := (passwords k)((''app'', ''access'') \<mapsto> ''new'')\<rparr>)),
      server = example_server, others = (\<lambda>_ t. t), from_json = (\<lambda>_. None), to_json_text = (\<lambda>_. [])\<rparr>"

definition keyring_world :: "keyring http_world" where
  "keyring_world = \<lparr>tokens = example_keyring, sent = [], slept = [], refreshed = 0\<rparr>"

text \<open>The first of two tasks refreshes, the second goes on with the token it finds.\<close>

lemma keyring_reads:
  assumes "never_fails (http_world.tokens w)"
  shows "\<exists>w'. stored_token keyring_client w = (Ok (passwords (http_world.tokens w) (''app'', ''access'')), w') \<and>
    passwords (http_world.tokens w') = passwords (http_world.tokens w) \<and> never_fails (http_world.tokens w')"
  using assms
  by (simp add: keyring_client_def stored_token_def on_tokens_def keyring_store_def keyring_get_def keyring_ops
      example_entries_def Let_def never_fails_def split: option.splits)

definition keyring_refresh :: "keyring \<Rightarrow> (ApiError + unit) \<times> keyring" where
  "keyring_refresh = the (refresher keyring_client)"

lemma keyring_refreshes:
  assumes "never_fails (http_world.tokens w)"
  shows "\<exists>w'. run_refresh keyring_client keyring_refresh w = (Ok (Some ''new''), w') \<and>
    passwords (http_world.tokens w') (''app'', ''access'') = Some ''new'' \<and> never_fails (http_world.tokens w')"
  using assms
  by (simp add: keyring_refresh_def keyring_client_def run_refresh_def stored_token_def on_tokens_def keyring_store_def
      keyring_get_def keyring_ops example_entries_def Let_def never_fails_def)

lemma keyring_refresh_fresh:
  "fresh_refresh (\<lambda>k. passwords k (service example_entries, access_entry example_entries)) ''old'' keyring_refresh"
  "is_ok (fst (keyring_refresh k))"
  by (auto simp: fresh_refresh_def keyring_refresh_def keyring_client_def example_entries_def)

lemma one_refreshes:
  "\<exists>s w. refresh_run keyring_client keyring_refresh (\<lambda>_. True) (refused_tasks 2 ''old'' keyring_world) 3 s \<and>
     s = \<lparr>lk_world = w, holder = None,
       tasks = (\<lambda>i. if i = 0 then Finished (Ok (Some ''new'')) else if i < 2 then Waiting ''old'' else Finished (Ok None)),
       succeeded = [0]\<rparr> \<and>
     passwords (http_world.tokens w) (''app'', ''access'') = Some ''new'' \<and> never_fails (http_world.tokens w)"
proof -
  let ?step = "refresh_step keyring_client keyring_refresh (\<lambda>_. True)"
    and ?run = "refresh_run keyring_client keyring_refresh (\<lambda>_. True)" and ?s0 = "refused_tasks 2 ''old'' keyring_world"
  let ?s1 = "?s0\<lparr>holder := Some 0, tasks := (tasks ?s0)(0 := Checking ''old'')\<rparr>"
  have start: "passwords (http_world.tokens keyring_world) (''app'', ''access'') = None" "never_fails (http_world.tokens keyring_world)"
    by (simp_all add: keyring_world_def example_keyring_def never_fails_def)
  obtain w1 where w1: "stored_token keyring_client keyring_world = (Ok None, w1)" "never_fails (http_world.tokens w1)"
    using keyring_reads [OF start(2)] start(1) by auto
  obtain w2 where w2: "run_refresh keyring_client keyring_refresh w1 = (Ok (Some ''new''), w2)"
      "passwords (http_world.tokens w2) (''app'', ''access'') = Some ''new''" "never_fails (http_world.tokens w2)"
    using keyring_refreshes [OF w1(2)] by blast
  let ?s2 = "?s1\<lparr>lk_world := w1, tasks := (tasks ?s1)(0 := Refreshing ''old'')\<rparr>"
  let ?s3 = "finish 0 (Ok (Some ''new'')) (?s2\<lparr>lk_world := w2, succeeded := succeeded ?s2 @ [0]\<rparr>)"
  have "?step ?s0 ?s1" by (rule refresh_step.acquire) (simp_all add: refused_tasks_def)
  then have r1: "?run ?s0 (Suc 0) ?s1" by (rule run_step [OF run_start])
  have "?step ?s1 ?s2"
    by (rule refresh_step.check_old [of ?s1 0 "''old''" keyring_client None w1])
      (use w1 in \<open>simp_all add: refused_tasks_def newer_token_def\<close>)
  then have r2: "?run ?s0 (Suc (Suc 0)) ?s2" by (rule run_step [OF r1])
  have "?step ?s2 ?s3"
    using refresh_step.refresh [of ?s2 0 "''old''" "\<lambda>_. True" keyring_client keyring_refresh "Ok (Some ''new'')" w2]
      w2(1) keyring_refresh_fresh(2) [of "http_world.tokens w1"] by simp
  then have run: "?run ?s0 3 ?s3" unfolding numeral_3_eq_3 by (rule run_step [OF r2])
  have state: "?s3 = \<lparr>lk_world = w2, holder = None,
       tasks = (\<lambda>i. if i = 0 then Finished (Ok (Some ''new'')) else if i < 2 then Waiting ''old'' else Finished (Ok None)),
       succeeded = [0]\<rparr>"
    by (simp add: finish_def refused_tasks_def fun_eq_iff)
  show ?thesis by (rule exI, rule exI, rule conjI [OF run conjI [OF state conjI [OF w2(2,3)]]])
qed

theorem refresh_single_flight_witness:
  "\<exists>s s'. refresh_run keyring_client keyring_refresh (\<lambda>_. True) (refused_tasks 2 ''old'' keyring_world) 3 s \<and>
     refresh_run keyring_client keyring_refresh (\<lambda>_. True) s 2 s' \<and> tasks s 1 = Waiting ''old'' \<and>
     tasks s' 1 = Finished (Ok (Some ''new'')) \<and> length (succeeded s') \<le> 1"
proof -
  obtain s w where s: "refresh_run keyring_client keyring_refresh (\<lambda>_. True) (refused_tasks 2 ''old'' keyring_world) 3 s"
    "s = \<lparr>lk_world = w, holder = None,
       tasks = (\<lambda>i. if i = 0 then Finished (Ok (Some ''new'')) else if i < 2 then Waiting ''old'' else Finished (Ok None)),
       succeeded = [0]\<rparr>"
    and w: "passwords (http_world.tokens w) (''app'', ''access'') = Some ''new''" "never_fails (http_world.tokens w)"
    using one_refreshes by blast
  obtain w' where w': "stored_token keyring_client w = (Ok (Some ''new''), w')" using keyring_reads [OF w(2)] w(1) by auto
  let ?s1 = "s\<lparr>holder := Some 1, tasks := (tasks s)(1 := Checking ''old'')\<rparr>"
  let ?s2 = "finish 1 (Ok (Some ''new'')) (?s1\<lparr>lk_world := w'\<rparr>)"
  have "refresh_step keyring_client keyring_refresh (\<lambda>_. True) s ?s1"
    by (rule refresh_step.acquire) (simp_all add: s(2))
  then have "refresh_run keyring_client keyring_refresh (\<lambda>_. True) s (Suc 0) ?s1" by (rule run_step [OF run_start])
  moreover have "refresh_step keyring_client keyring_refresh (\<lambda>_. True) ?s1 ?s2"
    by (rule refresh_step.check_newer [of _ 1 "''old''" _ "Some ''new''"]) (use w' in \<open>simp_all add: s(2) newer_token_def\<close>)
  ultimately have run: "refresh_run keyring_client keyring_refresh (\<lambda>_. True) s 2 ?s2"
    unfolding numeral_2_eq_2 by (rule run_step)
  have "client_store keyring_client = keyring_store example_entries" by (simp add: keyring_client_def)
  from refresh_single_flight [OF this keyring_refresh_fresh(1) s(1) run] have "length (succeeded ?s2) \<le> 1" by (rule conjunct1)
  then show ?thesis using s run by (intro exI [of _ s] exI [of _ ?s2]) (simp add: finish_def)
qed

text \<open>
  C31: what the refused requests wait for.  Each takes at most three steps, so every run of \<open>n\<close> of
  them ends; and it stops only when all of them have their answers, or when the one that holds the
  lock is in a refresher that does not return: nothing but the refresher, which has no time limit, can
  block them.  With one that always returns some request can move until all are answered.
\<close>

theorem refresh_always_ends:
  assumes "refresh_run c ref returns (refused_tasks n t w) k s"
  shows "k \<le> 3 * n \<and>
    ((\<nexists>s'. refresh_step c ref returns s s') \<longleftrightarrow>
       (\<forall>i. \<exists>r. tasks s i = Finished r) \<or>
       (\<exists>i u. holder s = Some i \<and> tasks s i = Refreshing u \<and> \<not> returns (http_world.tokens (lk_world s))))"
proof
  show "k \<le> 3 * n" using refresh_run_weight [OF assms] by linarith
next
  note inv = run_lock_inv [OF assms]
  show "(\<nexists>s'. refresh_step c ref returns s s') \<longleftrightarrow>
       (\<forall>i. \<exists>r. tasks s i = Finished r) \<or>
       (\<exists>i u. holder s = Some i \<and> tasks s i = Refreshing u \<and> \<not> returns (http_world.tokens (lk_world s)))"
  proof
    assume stuck: "\<nexists>s'. refresh_step c ref returns s s'"
    show "(\<forall>i. \<exists>r. tasks s i = Finished r) \<or>
       (\<exists>i u. holder s = Some i \<and> tasks s i = Refreshing u \<and> \<not> returns (http_world.tokens (lk_world s)))"
    proof (cases "\<exists>j u. tasks s j = Refreshing u \<and> \<not> returns (http_world.tokens (lk_world s))")
      case True
      then show ?thesis using inv unfolding lock_inv_inside by (metis inside_simps(2))
    next
      case False
      then have none: "weight (tasks s i) = 0" for i using step_possible [OF inv, of i returns c ref] stuck by blast
      have "\<exists>r. tasks s i = Finished r" for i using none [of i] by (cases "tasks s i") auto
      then show ?thesis by blast
    qed
  next
    assume "(\<forall>i. \<exists>r. tasks s i = Finished r) \<or>
       (\<exists>i u. holder s = Some i \<and> tasks s i = Refreshing u \<and> \<not> returns (http_world.tokens (lk_world s)))"
    then show "\<nexists>s'. refresh_step c ref returns s s'"
    proof
      assume "\<forall>i. \<exists>r. tasks s i = Finished r"
      then show ?thesis using step_weight by (metis weight.simps(4) less_nat_zero_code)
    next
      assume "\<exists>i u. holder s = Some i \<and> tasks s i = Refreshing u \<and> \<not> returns (http_world.tokens (lk_world s))"
      then show ?thesis by (metis hanging_refresher_blocks [OF inv])
    qed
  qed
qed

text \<open>A refresher that does not return blocks the task behind it as well.\<close>

theorem refresh_always_ends_witness:
  "(\<exists>s'. refresh_step keyring_client keyring_refresh (\<lambda>_. False) (refused_tasks 2 ''old'' keyring_world) s') \<and>
   (\<exists>s. refresh_run keyring_client keyring_refresh (\<lambda>_. False) (refused_tasks 2 ''old'' keyring_world) 2 s \<and>
      tasks s 1 = Waiting ''old'' \<and> (\<nexists>s'. refresh_step keyring_client keyring_refresh (\<lambda>_. False) s s'))"
proof
  let ?s0 = "refused_tasks 2 ''old'' keyring_world"
  show "\<exists>s'. refresh_step keyring_client keyring_refresh (\<lambda>_. False) ?s0 s'"
    using refresh_always_ends [OF run_start [of keyring_client keyring_refresh "\<lambda>_. False" ?s0]]
    by (auto simp: refused_tasks_def split: if_splits dest: spec [of "\<lambda>i. \<not> i < 2" 0])
  have "never_fails (http_world.tokens keyring_world)" by (simp add: keyring_world_def example_keyring_def never_fails_def)
  from keyring_reads [OF this] obtain w1 where w1: "stored_token keyring_client keyring_world = (Ok None, w1)"
    by (auto simp: keyring_world_def example_keyring_def)
  let ?s1 = "?s0\<lparr>holder := Some 0, tasks := (tasks ?s0)(0 := Checking ''old'')\<rparr>"
  let ?s2 = "?s1\<lparr>lk_world := w1, tasks := (tasks ?s1)(0 := Refreshing ''old'')\<rparr>"
  have "refresh_step keyring_client keyring_refresh (\<lambda>_. False) ?s0 ?s1"
    by (rule refresh_step.acquire) (simp_all add: refused_tasks_def)
  then have "refresh_run keyring_client keyring_refresh (\<lambda>_. False) ?s0 (Suc 0) ?s1" by (rule run_step [OF run_start])
  moreover have "refresh_step keyring_client keyring_refresh (\<lambda>_. False) ?s1 ?s2"
    by (rule refresh_step.check_old [of ?s1 0 "''old''" keyring_client None w1])
      (use w1 in \<open>simp_all add: refused_tasks_def newer_token_def\<close>)
  ultimately have run: "refresh_run keyring_client keyring_refresh (\<lambda>_. False) ?s0 2 ?s2"
    unfolding numeral_2_eq_2 by (rule run_step)
  then show "\<exists>s. refresh_run keyring_client keyring_refresh (\<lambda>_. False) ?s0 2 s \<and>
      tasks s 1 = Waiting ''old'' \<and> (\<nexists>s'. refresh_step keyring_client keyring_refresh (\<lambda>_. False) s s')"
    using refresh_always_ends [OF run] by (intro exI [of _ ?s2]) (simp add: refused_tasks_def)
qed

end
