(* ===== verification/BridgeCore.thy ===== *)
theory BridgeCore
  imports Prelude
begin

text \<open>
  The core the bridge uses: \<open>domain/bridge_error.rs\<close>, \<open>domain/abortable_pump.rs\<close>,
  \<open>data/event_pump.rs\<close>, \<open>data/pump_table.rs\<close>, \<open>data/line_subscriber.rs\<close>, \<open>infra/tokio_runtime.rs\<close>,
  \<open>infra/runtime_pump_task.rs\<close> and \<open>infra/log_lines.rs\<close> under \<open>toolkit/dovetail_rust_core/rust/src\<close>.
  The runtime and its channels belong to tokio: what they answer is a parameter.
\<close>

section \<open>Errors of the bridge\<close>

datatype BridgeError =
    RuntimeUnavailable string
  | TaskPanicked string
  | LogUnavailable string

fun bridge_error_display :: "BridgeError \<Rightarrow> string" where
  "bridge_error_display (RuntimeUnavailable r) = ''could not start the bridge runtime: '' @ r"
| "bridge_error_display (TaskPanicked r) = ''a bridge task did not finish: '' @ r"
| "bridge_error_display (LogUnavailable r) = ''could not forward the log lines: '' @ r"

section \<open>The event pump\<close>

text \<open>
  What the receiver of a broadcast channel returns, one after another; where the list ends the
  pump is waiting.  \<open>emit\<close> keeps a state and says whether to go on.
\<close>

datatype 'a recv = Received 'a | Lagged u64 | Closed

datatype 'a pump_end = StillWaiting | SinkRefused "'a recv list" | ChannelClosed

fun pump :: "'a recv list \<Rightarrow> ('a \<Rightarrow> 'e \<Rightarrow> bool \<times> 'e) \<Rightarrow> 'e \<Rightarrow> 'a pump_end \<times> 'e" where
  "pump [] emit e = (StillWaiting, e)"
| "pump (Received ev # rs) emit e =
     (let (go, e1) = emit ev e in if go then pump rs emit e1 else (SinkRefused rs, e1))"
| "pump (Lagged _ # rs) emit e = pump rs emit e"
| "pump (Closed # rs) emit e = (ChannelClosed, e)"

text \<open>The specification: what is delivered before the channel closes, up to the first refusal.\<close>

fun delivered :: "'a recv list \<Rightarrow> 'a list" where
  "delivered [] = []"
| "delivered (Received ev # rs) = ev # delivered rs"
| "delivered (Lagged _ # rs) = delivered rs"
| "delivered (Closed # rs) = []"

fun up_to_refusal :: "('a \<Rightarrow> bool) \<Rightarrow> 'a list \<Rightarrow> 'a list" where
  "up_to_refusal accepts [] = []"
| "up_to_refusal accepts (x # xs) = x # (if accepts x then up_to_refusal accepts xs else [])"

definition recording :: "('a \<Rightarrow> bool) \<Rightarrow> 'a \<Rightarrow> 'a list \<Rightarrow> bool \<times> 'a list" where
  "recording accepts ev seen = (accepts ev, seen @ [ev])"

section \<open>Pumps and their table\<close>

text \<open>
  A pump is a handle; what becomes of it is in the world of whoever runs it.  A table that loses a
  pump drops it.
\<close>

record ('p, 'w) AbortablePump =
  abort :: "'p \<Rightarrow> 'w \<Rightarrow> 'w"
  is_finished :: "'p \<Rightarrow> 'w \<Rightarrow> bool"
  drop_pump :: "'p \<Rightarrow> 'w \<Rightarrow> 'w"

text \<open>The lock of the table may have been poisoned by a thread that panicked while it held it.\<close>

record 'p PumpTable =
  poisoned :: bool
  locked_entries :: "(string \<times> 'p) list"

record Replacement =
  replaced_name :: string
  displaced_a_live_pump :: bool

definition new_table :: "'p PumpTable" where
  "new_table = \<lparr>poisoned = False, locked_entries = []\<rparr>"

text \<open>\<open>lock()\<close> reports the poison, and \<open>into_inner\<close> takes the entries all the same.\<close>

definition lock_table :: "'p PumpTable \<Rightarrow> (string \<times> 'p) list + (string \<times> 'p) list" where
  "lock_table t = (if poisoned t then Inl (locked_entries t) else Inr (locked_entries t))"

definition entries :: "'p PumpTable \<Rightarrow> (string \<times> 'p) list" where
  "entries t = (case lock_table t of Inl inner \<Rightarrow> inner | Inr inner \<Rightarrow> inner)"

definition insert_entry :: "string \<Rightarrow> 'p \<Rightarrow> (string \<times> 'p) list \<Rightarrow> 'p option \<times> (string \<times> 'p) list" where
  "insert_entry name p es = (map_of es name, (name, p) # filter (\<lambda>e. fst e \<noteq> name) es)"

definition remove_entry :: "string \<Rightarrow> (string \<times> 'p) list \<Rightarrow> 'p option \<times> (string \<times> 'p) list" where
  "remove_entry name es = (map_of es name, filter (\<lambda>e. fst e \<noteq> name) es)"

definition drop_displaced :: "('p, 'w) AbortablePump \<Rightarrow> 'p option \<Rightarrow> 'w \<Rightarrow> 'w" where
  "drop_displaced ap displaced w = (case displaced of None \<Rightarrow> w | Some p \<Rightarrow> drop_pump ap p w)"

definition table_replace ::
  "('p, 'w) AbortablePump \<Rightarrow> string \<Rightarrow> 'p \<Rightarrow> 'p PumpTable \<Rightarrow> 'w \<Rightarrow> Replacement \<times> 'p PumpTable \<times> 'w" where
  "table_replace ap name p t w =
     (let (displaced, es) = insert_entry name p (entries t);
          live = (case displaced of Some previous \<Rightarrow> \<not> is_finished ap previous w | None \<Rightarrow> False)
      in (\<lparr>replaced_name = name, displaced_a_live_pump = live\<rparr>, t\<lparr>locked_entries := es\<rparr>,
          drop_displaced ap displaced w))"

definition table_remove ::
  "('p, 'w) AbortablePump \<Rightarrow> string \<Rightarrow> 'p PumpTable \<Rightarrow> 'w \<Rightarrow> bool \<times> 'p PumpTable \<times> 'w" where
  "table_remove ap name t w =
     (let (removed, es) = remove_entry name (entries t)
      in (removed \<noteq> None, t\<lparr>locked_entries := es\<rparr>, drop_displaced ap removed w))"

definition table_len :: "'p PumpTable \<Rightarrow> nat" where
  "table_len t = length (entries t)"

definition table_is_empty :: "'p PumpTable \<Rightarrow> bool" where
  "table_is_empty t \<longleftrightarrow> table_len t = 0"

definition table_is_live :: "('p, 'w) AbortablePump \<Rightarrow> string \<Rightarrow> 'p PumpTable \<Rightarrow> 'w \<Rightarrow> bool" where
  "table_is_live ap name t w \<longleftrightarrow>
     (case map_of (entries t) name of Some p \<Rightarrow> \<not> is_finished ap p w | None \<Rightarrow> False)"

definition table_clear :: "('p, 'w) AbortablePump \<Rightarrow> 'p PumpTable \<Rightarrow> 'w \<Rightarrow> 'p PumpTable \<times> 'w" where
  "table_clear ap t w =
     (t\<lparr>locked_entries := []\<rparr>, fold (\<lambda>e. drop_pump ap (snd e)) (entries t) w)"

text \<open>A history of a table; every pump handed to it is a value of its own.\<close>

datatype 'p table_op = Replace string 'p | Remove string | Clear

fun apply_op :: "('p, 'w) AbortablePump \<Rightarrow> 'p table_op \<Rightarrow> 'p PumpTable \<times> 'w \<Rightarrow> 'p PumpTable \<times> 'w" where
  "apply_op ap (Replace name p) (t, w) = snd (table_replace ap name p t w)"
| "apply_op ap (Remove name) (t, w) = snd (table_remove ap name t w)"
| "apply_op ap Clear (t, w) = table_clear ap t w"

definition run_table :: "('p, 'w) AbortablePump \<Rightarrow> 'p table_op list \<Rightarrow> 'p PumpTable \<times> 'w \<Rightarrow> 'p PumpTable \<times> 'w" where
  "run_table ap ops s = fold (apply_op ap) ops s"

fun pumps_of :: "'p table_op list \<Rightarrow> 'p list" where
  "pumps_of [] = []"
| "pumps_of (Replace _ p # ops) = p # pumps_of ops"
| "pumps_of (_ # ops) = pumps_of ops"

lemma entries_simp [simp]: "entries t = locked_entries t"
  by (simp add: entries_def lock_table_def)

definition names_once :: "(string \<times> 'p) list \<Rightarrow> bool" where
  "names_once es \<longleftrightarrow> distinct (map fst es) \<and> distinct (map snd es)"

lemma names_once_without:
  assumes "names_once es"
  shows "names_once (filter (\<lambda>e. fst e \<noteq> n) es)"
    and "snd ` set (filter (\<lambda>e. fst e \<noteq> n) es) = snd ` set es - {p. map_of es n = Some p}"
proof -
  show "names_once (filter (\<lambda>e. fst e \<noteq> n) es)"
    using assms by (simp add: names_once_def distinct_map_filter)
  have one: "fst e = n \<longleftrightarrow> map_of es n = Some (snd e)" if "e \<in> set es" for e
  proof
    assume "fst e = n"
    then show "map_of es n = Some (snd e)"
      using assms that by (auto simp: names_once_def intro: map_of_is_SomeI)
  next
    assume "map_of es n = Some (snd e)"
    then have "(n, snd e) \<in> set es" by (rule map_of_SomeD)
    then show "fst e = n"
      using assms that by (metis names_once_def distinct_map inj_onD snd_conv fst_conv)
  qed
  show "snd ` set (filter (\<lambda>e. fst e \<noteq> n) es) = snd ` set es - {p. map_of es n = Some p}"
    using one by auto
qed

lemma account_step:
  assumes "snd ` set es1 \<subseteq> A \<union> B" and "E' \<subseteq> snd ` set es1 \<union> C" and "C \<inter> A = {}" and "B \<inter> C = {}"
    and "l1 \<longleftrightarrow> l \<or> p \<in> A \<union> B \<and> p \<notin> snd ` set es1"
    and "l2 \<longleftrightarrow> l1 \<or> p \<in> snd ` set es1 \<union> C \<and> p \<notin> E'"
  shows "l2 \<longleftrightarrow> l \<or> p \<in> A \<union> (B \<union> C) \<and> p \<notin> E'"
  using assms by (cases "p \<in> snd ` set es1"; cases "p \<in> A"; cases "p \<in> B"; cases "p \<in> C") auto

section \<open>What a table relies on\<close>

text \<open>
  Dropping a pump lets its work go, and no other pump's; work that was let go stays so.
\<close>

locale droppable_pump =
  fixes ap :: "('p, 'w) AbortablePump" and let_go :: "'p \<Rightarrow> 'w \<Rightarrow> bool"
  assumes drop_lets_go: "let_go p (drop_pump ap p w)"
    and let_go_stays: "let_go p w \<Longrightarrow> let_go p (drop_pump ap q w)"
    and drop_other: "p \<noteq> q \<Longrightarrow> let_go p (drop_pump ap q w) = let_go p w"
begin

lemma drop_all:
  "let_go p (fold (\<lambda>e. drop_pump ap (snd e)) es w) \<longleftrightarrow> let_go p w \<or> p \<in> snd ` set es"
proof (induction es arbitrary: w)
  case (Cons e es)
  show ?case
    using Cons [of "drop_pump ap (snd e) w"] drop_lets_go [of p w] let_go_stays [of p w "snd e"]
      drop_other [of p "snd e" w]
    by (cases "p = snd e") auto
qed simp

lemma drop_displaced_lets_go:
  "let_go p (drop_displaced ap d w) \<longleftrightarrow> let_go p w \<or> d = Some p"
proof (cases d)
  case (Some q)
  then show ?thesis
    using drop_lets_go [of p w] let_go_stays [of p w q] drop_other [of p q w]
    by (cases "p = q") (auto simp: drop_displaced_def)
qed (simp add: drop_displaced_def)

text \<open>Every pump a table was ever given is still in it or was let go, and none but those.\<close>

lemma table_step_accounts:
  assumes "names_once (locked_entries t)" and "set (pumps_of [op]) \<inter> snd ` set (locked_entries t) = {}"
    and "apply_op ap op (t, w) = (t1, w1)"
  shows "names_once (locked_entries t1) \<and>
      snd ` set (locked_entries t1) \<subseteq> snd ` set (locked_entries t) \<union> set (pumps_of [op]) \<and>
      (\<forall>p. let_go p w1 \<longleftrightarrow> let_go p w \<or>
         p \<in> snd ` set (locked_entries t) \<union> set (pumps_of [op]) \<and> p \<notin> snd ` set (locked_entries t1))"
proof -
  let ?es = "locked_entries t" and ?es1 = "locked_entries t1"
  have entry: "map_of ?es name = Some p \<Longrightarrow> p \<in> snd ` set ?es" for name p
    by (metis image_eqI map_of_SomeD snd_conv)
  note left = names_once_without [OF assms(1)]
  show ?thesis
  proof (cases op)
    case (Replace name q)
    have es1: "?es1 = (name, q) # filter (\<lambda>e. fst e \<noteq> name) ?es"
      and w1: "w1 = drop_displaced ap (map_of ?es name) w"
      using assms(3) Replace by (auto simp: table_replace_def insert_entry_def Let_def)
    have q: "q \<notin> snd ` set ?es" using assms(2) Replace by auto
    have "names_once ?es1" using left [of name] q unfolding es1 names_once_def by auto
    then show ?thesis
      using entry left(2) [of name] q Replace unfolding es1 w1 drop_displaced_lets_go by auto
  next
    case (Remove name)
    have "?es1 = filter (\<lambda>e. fst e \<noteq> name) ?es" and w1: "w1 = drop_displaced ap (map_of ?es name) w"
      using assms(3) Remove by (auto simp: table_remove_def remove_entry_def Let_def)
    then show ?thesis
      using entry left [of name] Remove unfolding w1 drop_displaced_lets_go by auto
  next
    case Clear
    have "?es1 = []" and w1: "w1 = fold (\<lambda>e. drop_pump ap (snd e)) ?es w"
      using assms(3) Clear by (auto simp: table_clear_def)
    then show ?thesis using Clear by (auto simp: names_once_def drop_all)
  qed
qed

lemma table_accounts:
  "names_once (locked_entries t) \<Longrightarrow> distinct (pumps_of ops) \<Longrightarrow>
   set (pumps_of ops) \<inter> snd ` set (locked_entries t) = {} \<Longrightarrow>
   run_table ap ops (t, w) = (t', w') \<Longrightarrow>
     names_once (locked_entries t') \<and>
     snd ` set (locked_entries t') \<subseteq> snd ` set (locked_entries t) \<union> set (pumps_of ops) \<and>
     (\<forall>p. let_go p w' \<longleftrightarrow> let_go p w \<or>
        p \<in> snd ` set (locked_entries t) \<union> set (pumps_of ops) \<and> p \<notin> snd ` set (locked_entries t'))"
proof (induction ops arbitrary: t w)
  case Nil
  then show ?case by (auto simp: run_table_def)
next
  case (Cons op ops)
  obtain t1 w1 where one: "apply_op ap op (t, w) = (t1, w1)" by fastforce
  then have later: "run_table ap ops (t1, w1) = (t', w')" using Cons.prems(4) by (simp add: run_table_def)
  let ?es = "locked_entries t" and ?es1 = "locked_entries t1"
  have "set (pumps_of [op]) \<inter> snd ` set ?es = {}" using Cons.prems(3) by (cases op) auto
  note step = table_step_accounts [OF Cons.prems(1) this one]
  have split: "pumps_of (op # ops) = pumps_of [op] @ pumps_of ops" by (cases op) simp_all
  then have own: "distinct (pumps_of ops)" "set (pumps_of [op]) \<inter> set (pumps_of ops) = {}"
      "set (pumps_of ops) \<inter> snd ` set ?es = {}"
    using Cons.prems(2,3) by auto
  note sub1 = conjunct1 [OF conjunct2 [OF step]] and go1 = conjunct2 [OF conjunct2 [OF step]]
  have new: "set (pumps_of ops) \<inter> snd ` set ?es1 = {}" using own(2,3) sub1 by blast
  have rest: "names_once (locked_entries t') \<and>
      snd ` set (locked_entries t') \<subseteq> snd ` set ?es1 \<union> set (pumps_of ops) \<and>
      (\<forall>p. let_go p w' \<longleftrightarrow> let_go p w1 \<or>
         p \<in> snd ` set ?es1 \<union> set (pumps_of ops) \<and> p \<notin> snd ` set (locked_entries t'))"
    by (rule Cons.IH [OF conjunct1 [OF step] own(1) new later])
  note sub2 = conjunct1 [OF conjunct2 [OF rest]] and go2 = conjunct2 [OF conjunct2 [OF rest]]
  have every: "set (pumps_of (op # ops)) = set (pumps_of [op]) \<union> set (pumps_of ops)"
    by (simp only: split set_append)
  show ?case
  proof (intro conjI allI)
    show "names_once (locked_entries t')" by (rule conjunct1 [OF rest])
    show "snd ` set (locked_entries t') \<subseteq> snd ` set ?es \<union> set (pumps_of (op # ops))"
      unfolding every by (rule order_trans [OF sub2]) (use sub1 in blast)
    show "let_go p w' \<longleftrightarrow> let_go p w \<or>
        p \<in> snd ` set ?es \<union> set (pumps_of (op # ops)) \<and> p \<notin> snd ` set (locked_entries t')" for p
      unfolding every
      by (rule account_step [OF sub1 sub2 own(3,2) spec [OF go1, of p] spec [OF go2, of p]])
  qed
qed

end

text \<open>The contract of the trait: asking a pump to stop lets its work go as well.\<close>

locale abortable_pump = droppable_pump +
  assumes abort_lets_go: "let_go p (abort ap p w)"

section \<open>Tasks of the runtime\<close>

text \<open>
  A spawned task runs, is asked to stop, or has ended; a handle is its number.  Aborting a task
  that has ended does nothing.
\<close>

datatype task_state = Running | Aborting | Ended

record bridge_world =
  runtime_cell :: "(string + unit) option"
  runtime_builds :: "string + unit"
  built :: nat
  tasks :: "task_state list"
  lines_cell :: "(string + unit) option"
  subscriber_set :: bool
  channels :: nat

text \<open>\<open>OnceLock::get_or_init\<close>.\<close>

definition runtime :: "bridge_world \<Rightarrow> (BridgeError + unit) \<times> bridge_world" where
  "runtime w =
     (let w1 = (if runtime_cell w = None
                then w\<lparr>runtime_cell := Some (runtime_builds w), built := Suc (built w)\<rparr> else w)
      in (case runtime_cell w1 of
            Some (Inr _) \<Rightarrow> Ok ()
          | Some (Inl reason) \<Rightarrow> Err (RuntimeUnavailable reason)
          | None \<Rightarrow> Ok (), w1))"

text \<open>The task's value, or what the join handle says when it panicked or was cancelled.\<close>

definition run_on_runtime :: "string + 'a \<Rightarrow> bridge_world \<Rightarrow> (BridgeError + 'a) \<times> bridge_world" where
  "run_on_runtime joined w =
     (case runtime w of
        (Inl e, w1) \<Rightarrow> (Err e, w1)
      | (Inr _, w1) \<Rightarrow> (map_err TaskPanicked joined, w1))"

definition spawn_task :: "bridge_world \<Rightarrow> nat \<times> bridge_world" where
  "spawn_task w = (length (tasks w), w\<lparr>tasks := tasks w @ [Running]\<rparr>)"

definition pump_task_spawn :: "bridge_world \<Rightarrow> (BridgeError + nat) \<times> bridge_world" where
  "pump_task_spawn w =
     (case runtime w of
        (Inl e, w1) \<Rightarrow> (Err e, w1)
      | (Inr _, w1) \<Rightarrow> (let (h, w2) = spawn_task w1 in (Ok h, w2)))"

definition abort_task :: "nat \<Rightarrow> bridge_world \<Rightarrow> bridge_world" where
  "abort_task h w =
     (if h < length (tasks w) \<and> tasks w ! h = Running
      then w\<lparr>tasks := (tasks w)[h := Aborting]\<rparr> else w)"

definition task_finished :: "nat \<Rightarrow> bridge_world \<Rightarrow> bool" where
  "task_finished h w \<longleftrightarrow> h < length (tasks w) \<and> tasks w ! h = Ended"

definition pump_task :: "(nat, bridge_world) AbortablePump" where
  "pump_task = \<lparr>abort = abort_task, is_finished = task_finished, drop_pump = abort_task\<rparr>"

definition not_running :: "nat \<Rightarrow> bridge_world \<Rightarrow> bool" where
  "not_running h w \<longleftrightarrow> \<not> (h < length (tasks w) \<and> tasks w ! h = Running)"

interpretation runtime_tasks: abortable_pump pump_task not_running
  by unfold_locales
    (auto simp: pump_task_def abort_task_def not_running_def nth_list_update)

text \<open>The pump of the tests keeps whether it was dropped; its handle says whether it is finished.\<close>

record FakePump =
  fake_id :: nat
  fake_finished :: bool

definition fake_pump :: "(FakePump, FakePump set) AbortablePump" where
  "fake_pump = \<lparr>abort = (\<lambda>p w. w), is_finished = (\<lambda>p w. fake_finished p), drop_pump = insert\<rparr>"

interpretation fake_tasks: droppable_pump fake_pump "\<lambda>p w. p \<in> w"
  by unfold_locales (auto simp: fake_pump_def)

section \<open>Lines of the log\<close>

datatype Level = ERROR | WARN | INFO | DEBUG | TRACE

fun verbosity :: "Level \<Rightarrow> nat" where
  "verbosity ERROR = 0"
| "verbosity WARN = 1"
| "verbosity INFO = 2"
| "verbosity DEBUG = 3"
| "verbosity TRACE = 4"

text \<open>Levels are ordered by how much they let through, as \<open>tracing\<close> orders them.\<close>

instantiation Level :: linorder
begin

definition less_eq_Level :: "Level \<Rightarrow> Level \<Rightarrow> bool" where
  "less_eq_Level a b \<longleftrightarrow> verbosity a \<le> verbosity b"

definition less_Level :: "Level \<Rightarrow> Level \<Rightarrow> bool" where
  "less_Level a b \<longleftrightarrow> verbosity a < verbosity b"

instance
proof
  fix a b :: Level
  show "a \<le> b \<Longrightarrow> b \<le> a \<Longrightarrow> a = b"
    by (cases a; cases b) (simp_all add: less_eq_Level_def)
qed (auto simp: less_eq_Level_def less_Level_def)

end

fun level_name :: "Level \<Rightarrow> string" where
  "level_name ERROR = ''ERROR''"
| "level_name WARN = ''WARN''"
| "level_name INFO = ''INFO''"
| "level_name DEBUG = ''DEBUG''"
| "level_name TRACE = ''TRACE''"

text \<open>A field is recorded as text or as what its \<open>Debug\<close> prints.\<close>

datatype field_value = StrValue string | DebugValue string

record log_event =
  ev_level :: Level
  ev_target :: string
  ev_fields :: "(string \<times> field_value) list"

record LineSubscriber =
  lines_sent :: "string list"
  max_level :: Level
  next_span :: u64

definition new_subscriber :: "Level \<Rightarrow> LineSubscriber" where
  "new_subscriber level = \<lparr>lines_sent = [], max_level = level, next_span = 1\<rparr>"

record Line =
  line_message :: string
  line_fields :: string

fun record_field :: "string \<times> field_value \<Rightarrow> Line \<Rightarrow> Line" where
  "record_field (name, StrValue v) l =
     (if name = ''message'' then l\<lparr>line_message := line_message l @ v\<rparr>
      else l\<lparr>line_fields := line_fields l @ '' '' @ name @ ''='' @ v\<rparr>)"
| "record_field (name, DebugValue v) l =
     (if name = ''message'' then l\<lparr>line_message := line_message l @ v\<rparr>
      else l\<lparr>line_fields := line_fields l @ '' '' @ name @ ''='' @ v\<rparr>)"

definition line_of :: "log_event \<Rightarrow> string" where
  "line_of ev =
     (let l = fold record_field (ev_fields ev) \<lparr>line_message = [], line_fields = []\<rparr>
      in level_name (ev_level ev) @ '' '' @ ev_target ev @ '': '' @ line_message l @ line_fields l)"

definition level_enabled :: "LineSubscriber \<Rightarrow> Level \<Rightarrow> bool" where
  "level_enabled s level \<longleftrightarrow> level \<le> max_level s"

definition log_event :: "log_event \<Rightarrow> LineSubscriber \<Rightarrow> LineSubscriber" where
  "log_event ev s = s\<lparr>lines_sent := lines_sent s @ [line_of ev]\<rparr>"

definition new_span :: "LineSubscriber \<Rightarrow> u64 \<times> LineSubscriber" where
  "new_span s = (next_span s, s\<lparr>next_span := next_span s + 1\<rparr>)"

text \<open>The library asks \<open>enabled\<close> before it hands over an event.\<close>

definition dispatch :: "log_event \<Rightarrow> LineSubscriber \<Rightarrow> LineSubscriber" where
  "dispatch ev s = (if level_enabled s (ev_level ev) then log_event ev s else s)"

lemma dispatched_lines:
  "lines_sent (fold dispatch evs s) =
     lines_sent s @ map line_of (filter (\<lambda>ev. ev_level ev \<le> max_level s) evs) \<and>
   max_level (fold dispatch evs s) = max_level s"
  by (induction evs arbitrary: s) (simp_all add: dispatch_def level_enabled_def log_event_def)

text \<open>
  \<open>log_lines\<close>: the first call makes the channel and installs the subscriber, unless the process has
  one already, and every call subscribes to the channel of the first.
\<close>

definition ALREADY_SET :: string where
  "ALREADY_SET = ''a global default trace dispatcher has already been set''"

definition log_lines :: "bridge_world \<Rightarrow> (BridgeError + unit) \<times> bridge_world" where
  "log_lines w =
     (let w1 = (if lines_cell w = None
                then w\<lparr>channels := Suc (channels w), subscriber_set := True,
                       lines_cell := Some (if subscriber_set w then Inl ALREADY_SET else Inr ())\<rparr>
                else w)
      in (case lines_cell w1 of
            Some (Inr _) \<Rightarrow> Ok ()
          | Some (Inl reason) \<Rightarrow> Err (LogUnavailable reason)
          | None \<Rightarrow> Ok (), w1))"

section \<open>Properties\<close>

lemma pump_recording:
  "snd (pump rs (recording accepts) seen) = seen @ up_to_refusal accepts (delivered rs)"
  by (induction rs "recording accepts" seen rule: pump.induct) (simp_all add: recording_def)

lemma pump_ends:
  "fst (pump rs (recording accepts) seen) =
     (case find (\<lambda>x. \<not> accepts x) (delivered rs) of
        Some x \<Rightarrow> fst (pump rs (recording accepts) seen)
      | None \<Rightarrow> if Closed \<in> set rs then ChannelClosed else StillWaiting)"
  by (induction rs "recording accepts" seen rule: pump.induct)
    (auto simp: recording_def split: option.splits)

text \<open>
  The pump hands over exactly the events received before the channel closes, in order, up to
  and including the first one its sink refuses; falling behind never ends it, and it ends on its
  own only when the channel is closed.
\<close>

theorem pump_emits_delivered:
  "snd (pump rs (recording accepts) seen) = seen @ up_to_refusal accepts (delivered rs) \<and>
   ((\<forall>x\<in>set (delivered rs). accepts x) \<longrightarrow>
      snd (pump rs (recording accepts) seen) = seen @ delivered rs \<and>
      fst (pump rs (recording accepts) seen) = (if Closed \<in> set rs then ChannelClosed else StillWaiting))"
proof -
  have "up_to_refusal accepts xs = xs" if "\<forall>x\<in>set xs. accepts x" for xs
    using that by (induction xs) auto
  moreover have "find (\<lambda>x. \<not> accepts x) (delivered rs) = None" if "\<forall>x\<in>set (delivered rs). accepts x"
    using that by (auto simp: find_None_iff)
  ultimately show ?thesis using pump_recording pump_ends [of rs accepts seen] by fastforce
qed

theorem pump_emits_delivered_witness:
  "snd (pump [Received 1, Lagged 6, Received 2, Closed, Received 3] (recording (\<lambda>x::nat. True)) []) = [1, 2]"
  using pump_emits_delivered [of "[Received 1, Lagged 6, Received 2, Closed, Received 3]" "\<lambda>x::nat. True" "[]"]
  by simp

text \<open>
  C37: whatever is put into, taken out of or cleared from a table of pumps, each name has at most
  one, and a pump's task is told to stop exactly when the table gave it up: none is kept running
  outside the table, and none in it is stopped.
\<close>

theorem table_keeps_account:
  assumes "distinct (pumps_of ops)" and "run_table pump_task ops (new_table, w) = (t, w')"
  shows "distinct (map fst (entries t)) \<and>
    (\<forall>h. not_running h w' \<longleftrightarrow>
       not_running h w \<or> h \<in> set (pumps_of ops) \<and> h \<notin> snd ` set (entries t))"
  using runtime_tasks.table_accounts [of new_table ops w t w'] assms
  by (auto simp: new_table_def names_once_def)

definition example_bridge :: bridge_world where
  "example_bridge = \<lparr>runtime_cell = None, runtime_builds = Ok (), built = 0,
     tasks = [Running, Running], lines_cell = None, subscriber_set = False, channels = 0\<rparr>"

theorem table_keeps_account_witness:
  "not_running 0 (snd (run_table pump_task [Replace ''state'' 0, Replace ''state'' 1] (new_table, example_bridge))) \<and>
   \<not> not_running 1 (snd (run_table pump_task [Replace ''state'' 0, Replace ''state'' 1] (new_table, example_bridge)))"
proof -
  let ?ops = "[Replace ''state'' 0, Replace ''state'' (1 :: nat)]"
  have "snd ` set (entries (fst (run_table pump_task ?ops (new_table, example_bridge)))) = {1}"
    by (simp add: run_table_def table_replace_def insert_entry_def new_table_def Let_def)
  then have "not_running h (snd (run_table pump_task ?ops (new_table, example_bridge))) \<longleftrightarrow>
      not_running h example_bridge \<or> h \<in> {0, 1} \<and> h \<notin> {1}" for h
    using table_keeps_account [of ?ops example_bridge, OF _ surjective_pairing] by simp
  moreover have "\<not> not_running 1 example_bridge" by (simp add: not_running_def example_bridge_def)
  ultimately show ?thesis by simp
qed

text \<open>
  Replacing a pump says that it displaced a live one exactly if the name was live before,
  leaves every other name as it is, and none of this depends on whether a thread died holding the
  table's lock.
\<close>

theorem replace_reports_displaced:
  "table_replace ap name p t w = (r, t', w') \<Longrightarrow>
     replaced_name r = name \<and> displaced_a_live_pump r = table_is_live ap name t w \<and>
     map_of (entries t') = (map_of (entries t))(name \<mapsto> p) \<and>
     (fst (table_replace ap name p (t\<lparr>poisoned := b\<rparr>) w) = r \<and>
      entries (fst (snd (table_replace ap name p (t\<lparr>poisoned := b\<rparr>) w))) = entries t')"
proof -
  assume r: "table_replace ap name p t w = (r, t', w')"
  have "map_of (filter (\<lambda>e. fst e \<noteq> name) es) = (map_of es)(name := None)" for es :: "(string \<times> 'a) list"
    by (induction es) auto
  then show ?thesis
    using r by (auto simp: table_replace_def insert_entry_def table_is_live_def Let_def)
qed

theorem replace_reports_displaced_witness:
  "displaced_a_live_pump (fst (table_replace pump_task ''state'' 1
     \<lparr>poisoned = True, locked_entries = [(''state'', 0)]\<rparr> example_bridge))"
proof -
  let ?t = "\<lparr>poisoned = True, locked_entries = [(''state'', 0)]\<rparr>"
  obtain r t w where r: "table_replace pump_task ''state'' 1 ?t example_bridge = (r, t, w)"
    using prod_cases3 by blast
  have "table_is_live pump_task ''state'' ?t example_bridge"
    by (simp add: table_is_live_def pump_task_def task_finished_def example_bridge_def)
  then show ?thesis using replace_reports_displaced [OF r] r by simp
qed

text \<open>Whatever a process does with the bridge, one call after another.\<close>

datatype bridge_op = UseRuntime | RunTask "string + unit" | SpawnPump | LogLines

fun bridge_step :: "bridge_op \<Rightarrow> bridge_world \<Rightarrow> bridge_world" where
  "bridge_step UseRuntime w = snd (runtime w)"
| "bridge_step (RunTask joined) w = snd (run_on_runtime joined w)"
| "bridge_step SpawnPump w = snd (pump_task_spawn w)"
| "bridge_step LogLines w = snd (log_lines w)"

definition once_inv :: "bridge_world \<Rightarrow> bool" where
  "once_inv w \<longleftrightarrow>
     built w = (if runtime_cell w = None then 0 else 1) \<and>
     channels w = (if lines_cell w = None then 0 else 1) \<and>
     (runtime_cell w \<in> {None, Some (runtime_builds w)})"

lemma runtime_once_inv:
  assumes "once_inv w"
  shows "once_inv (snd (runtime w))" and "runtime_builds (snd (runtime w)) = runtime_builds w"
    and "fst (runtime w) = map_err RuntimeUnavailable (runtime_builds w)"
  using assms
  by (auto simp: once_inv_def runtime_def Let_def split: sum.splits)

lemma spawn_once_inv:
  "once_inv w \<Longrightarrow> once_inv (snd (spawn_task w)) \<and> runtime_builds (snd (spawn_task w)) = runtime_builds w"
  by (simp add: once_inv_def spawn_task_def)

lemma bridge_step_inv:
  assumes "once_inv w"
  shows "once_inv (bridge_step op w) \<and> runtime_builds (bridge_step op w) = runtime_builds w"
proof (cases op)
  case LogLines
  then show ?thesis using assms by (simp add: once_inv_def log_lines_def Let_def)
next
  case SpawnPump
  obtain r w1 where r: "runtime w = (r, w1)" by fastforce
  then show ?thesis
    using runtime_once_inv [OF assms] spawn_once_inv [of w1] SpawnPump
    by (auto simp: pump_task_spawn_def split: sum.splits prod.splits)
next
  case (RunTask joined)
  obtain r w1 where r: "runtime w = (r, w1)" by fastforce
  then show ?thesis
    using runtime_once_inv [OF assms] RunTask
    by (auto simp: run_on_runtime_def split: sum.splits prod.splits)
qed (simp add: runtime_once_inv [OF assms])

text \<open>
  However often a process asks for the runtime, spawns on it or subscribes to the log, the
  runtime is built at most once and the log's channel made at most once, and every later use is
  answered as the first build came out.
\<close>

theorem bridge_built_once:
  assumes "runtime_cell w = None" and "lines_cell w = None" and "built w = 0" and "channels w = 0"
  shows "built (fold bridge_step ops w) \<le> 1 \<and> channels (fold bridge_step ops w) \<le> 1 \<and>
    fst (runtime (fold bridge_step ops w)) = map_err RuntimeUnavailable (runtime_builds w)"
proof -
  have "once_inv (fold bridge_step ops w') \<and> runtime_builds (fold bridge_step ops w') = runtime_builds w'"
    if "once_inv w'" for w'
    using that
  proof (induction ops arbitrary: w')
    case (Cons op ops)
    then show ?case using bridge_step_inv [OF Cons.prems, of op] by simp
  qed simp
  moreover have "once_inv w" using assms by (simp add: once_inv_def)
  ultimately have inv: "once_inv (fold bridge_step ops w)"
    "runtime_builds (fold bridge_step ops w) = runtime_builds w" by blast+
  then show ?thesis using runtime_once_inv(3) [OF inv(1)] by (simp add: once_inv_def)
qed

theorem bridge_built_once_witness:
  "built (fold bridge_step [SpawnPump, UseRuntime, LogLines, LogLines] example_bridge) \<le> 1 \<and>
   fst (runtime (fold bridge_step [SpawnPump, UseRuntime, LogLines, LogLines] example_bridge)) = Ok ()"
  using bridge_built_once [of example_bridge "[SpawnPump, UseRuntime, LogLines, LogLines]"]
  by (simp add: example_bridge_def)

end
