(* ===== verification/Templates.thy ===== *)
theory Templates
  imports BridgeCore
begin

text \<open>
  The code an application is generated with: \<open>tool/sdk/templates/app/core/src/handle.rs\<close>,
  \<open>tool/sdk/templates/app/core_bridge/rust/src/api/handle.rs\<close> and
  \<open>tool/sdk/templates/bridge/rust/src/support.rs\<close>.  The bridge takes each call of the app to the
  core through the runtime of \<open>BridgeCore\<close>.
\<close>

section \<open>The core\<close>

datatype CoreHandle = CoreHandle

definition new_core :: CoreHandle where "new_core = CoreHandle"

definition greeting :: "CoreHandle \<Rightarrow> string + string" where
  "greeting core = Ok ''Hello from the Rust core''"

section \<open>The bridge\<close>

text \<open>
  \<open>support::run\<close> runs a future on the runtime and flattens its error: the future's own, what the
  join handle says of a task that panicked or was cancelled (\<open>Some reason\<close>), or that there is no
  runtime.
\<close>

definition run :: "string option \<Rightarrow> string + 'a \<Rightarrow> bridge_world \<Rightarrow> (string + 'a) \<times> bridge_world" where
  "run panicked future w =
     (case run_on_runtime (case panicked of None \<Rightarrow> Ok future | Some reason \<Rightarrow> Err reason) w of
        (Inr (Inr v), w1) \<Rightarrow> (Ok v, w1)
      | (Inr (Inl e), w1) \<Rightarrow> (Err e, w1)
      | (Inl bridge, w1) \<Rightarrow> (Err (bridge_error_display bridge), w1))"

datatype RustCore = RustCore (inner: CoreHandle)

definition start :: "string option \<Rightarrow> bridge_world \<Rightarrow> (string + RustCore) \<times> bridge_world" where
  "start panicked w =
     (case run panicked (Ok new_core) w of
        (Inl e, w1) \<Rightarrow> (Err e, w1)
      | (Inr handle, w1) \<Rightarrow> (Ok (RustCore handle), w1))"

definition core_greeting :: "string option \<Rightarrow> RustCore \<Rightarrow> bridge_world \<Rightarrow> (string + string) \<times> bridge_world" where
  "core_greeting panicked core w = run panicked (greeting (inner core)) w"

section \<open>Lemmas\<close>

lemma run_result:
  assumes "once_inv w"
  shows "fst (run panicked future w) =
    (case runtime_builds w of
       Inl reason \<Rightarrow> Err (bridge_error_display (RuntimeUnavailable reason))
     | Inr _ \<Rightarrow>
         (case panicked of None \<Rightarrow> future | Some reason \<Rightarrow> Err (bridge_error_display (TaskPanicked reason))))"
    and "once_inv (snd (run panicked future w))" and "runtime_builds (snd (run panicked future w)) = runtime_builds w"
  using runtime_once_inv [OF assms]
  by (cases "runtime w"; cases "runtime_builds w"; cases panicked; cases future;
      auto simp: run_def run_on_runtime_def)+

text \<open>
  A generated application greets, or says why not: when the runtime is there and no task panics,
  the core starts and its greeting arrives; otherwise the first failure is the text the app sees.
\<close>

lemma core_greets:
  assumes "once_inv w" and "start panicked w = (r, w1)"
  shows "(runtime_builds w = Ok () \<and> panicked = None \<longrightarrow>
      r = Ok (RustCore CoreHandle) \<and> fst (core_greeting None (RustCore CoreHandle) w1) = Ok ''Hello from the Rust core'') \<and>
    (\<forall>reason. runtime_builds w = Err reason \<longrightarrow>
      r = Err (bridge_error_display (RuntimeUnavailable reason)) \<and>
      fst (core_greeting q (RustCore CoreHandle) w1) = Err (bridge_error_display (RuntimeUnavailable reason))) \<and>
    (\<forall>reason. runtime_builds w = Ok () \<and> panicked = Some reason \<longrightarrow>
      r = Err (bridge_error_display (TaskPanicked reason)))"
proof -
  note ran = run_result [OF assms(1), of panicked "Ok new_core"]
  have "w1 = snd (run panicked (Ok new_core) w)" and "r = (case fst (run panicked (Ok new_core) w) of
      Inl e \<Rightarrow> Err e | Inr handle \<Rightarrow> Ok (RustCore handle))"
    using assms(2) by (auto simp: start_def split: prod.splits sum.splits)
  then show ?thesis
    using ran run_result(1) [OF ran(2)]
    by (auto simp: core_greeting_def greeting_def new_core_def split: option.splits sum.splits)
qed

end
