(* ===== verification/Shortcut.thy ===== *)
theory Shortcut
  imports Prelude
begin

text \<open>
  The global shortcut: \<open>domain/backend.rs\<close>, \<open>domain/status.rs\<close>, \<open>infra/backend_probe.rs\<close>,
  \<open>infra/hotkey_parser.rs\<close>, \<open>infra/event_pump.rs\<close> and \<open>presentation/shortcut_ffi.rs\<close> under
  \<open>toolkit/dovetail_shortcut_channel/rust/src\<close>.  The library that grabs keys is a parameter: how it
  reads an accelerator, and the error it has for a call, given the calls before it.
\<close>

section \<open>Backends\<close>

datatype Backend = NoBackend | Win32RegisterHotKey | CarbonEventHotKey | X11GrabKey | WaylandPortal

fun backend_code :: "Backend \<Rightarrow> int" where
  "backend_code NoBackend = 0"
| "backend_code Win32RegisterHotKey = 1"
| "backend_code CarbonEventHotKey = 2"
| "backend_code X11GrabKey = 3"
| "backend_code WaylandPortal = 4"

definition registers :: "Backend \<Rightarrow> bool" where
  "registers b \<longleftrightarrow> b = Win32RegisterHotKey \<or> b = CarbonEventHotKey \<or> b = X11GrabKey"

definition cannot_register :: "Backend \<Rightarrow> string" where
  "cannot_register b =
     (if b = WaylandPortal then
        ''a Wayland session grants a system-wide shortcut only through '' @
        ''the desktop portal, where the compositor owns the chord. '' @
        ''This channel does not speak that portal yet. Registering '' @
        ''anyway would grab the key on XWayland, report success, and '' @
        ''never fire.''
      else
        ''no display and no compositor is reachable from this process, '' @
        ''so there is no session to register a shortcut in. The '' @
        ''backend accepts the registration regardless and reports '' @
        ''success for a key that cannot arrive.'')"

definition unwrap_or_default :: "string option \<Rightarrow> string" where
  "unwrap_or_default v = (case v of Some s \<Rightarrow> s | None \<Rightarrow> [])"

definition is_set :: "string option \<Rightarrow> bool" where
  "is_set v \<longleftrightarrow> trim (unwrap_or_default v) \<noteq> []"

definition for_session :: "string option \<Rightarrow> string option \<Rightarrow> string option \<Rightarrow> Backend" where
  "for_session declared wayland_display x11_display =
     (let declared = to_ascii_lowercase (trim (unwrap_or_default declared))
      in if declared = ''x11'' then X11GrabKey
         else if declared = ''wayland'' \<or> is_set wayland_display then WaylandPortal
         else if is_set x11_display then X11GrabKey
         else NoBackend)"

datatype target = TargetWindows | TargetMacos | TargetUnix | TargetOther

record host_env =
  target_os :: target
  env_var :: "string \<Rightarrow> string option"

definition detect :: "host_env \<Rightarrow> Backend" where
  "detect h =
     (case target_os h of
        TargetWindows \<Rightarrow> Win32RegisterHotKey
      | TargetMacos \<Rightarrow> CarbonEventHotKey
      | TargetUnix \<Rightarrow>
          for_session (env_var h ''XDG_SESSION_TYPE'') (env_var h ''WAYLAND_DISPLAY'') (env_var h ''DISPLAY'')
      | TargetOther \<Rightarrow> NoBackend)"

section \<open>Statuses\<close>

datatype Status = StatusOk | MalformedChord | TakenBySystem | AlreadyBound | NotBound | BackendUnavailable

fun status_code :: "Status \<Rightarrow> int" where
  "status_code StatusOk = 0"
| "status_code MalformedChord = 1"
| "status_code TakenBySystem = 2"
| "status_code AlreadyBound = 3"
| "status_code NotBound = 4"
| "status_code BackendUnavailable = 5"

record HotKey =
  hk_id :: u32
  hk_chord :: string

datatype hotkey_error =
    AlreadyRegistered HotKey
  | FailedToRegister string
  | OsError string
  | FailedToWatchMediaKeyEvent
  | HotKeyParseError string
  | UnrecognizedHotKeyCode string
  | EmptyHotKeyToken string
  | UnexpectedHotKeyFormat string
  | OtherHotKeyError string

fun for_registration :: "hotkey_error \<Rightarrow> Status" where
  "for_registration (AlreadyRegistered _) = AlreadyBound"
| "for_registration (FailedToRegister _) = TakenBySystem"
| "for_registration (OsError _) = BackendUnavailable"
| "for_registration FailedToWatchMediaKeyEvent = BackendUnavailable"
| "for_registration (HotKeyParseError _) = MalformedChord"
| "for_registration (UnrecognizedHotKeyCode _) = MalformedChord"
| "for_registration (EmptyHotKeyToken _) = MalformedChord"
| "for_registration (UnexpectedHotKeyFormat _) = MalformedChord"
| "for_registration (OtherHotKeyError _) = BackendUnavailable"

section \<open>The library that grabs keys\<close>

datatype manager_call = Register HotKey | Unregister HotKey

record hotkey_lib =
  from_str :: "string \<Rightarrow> hotkey_error + HotKey"
  manager_new :: "hotkey_error option"
  manager_error :: "manager_call list \<Rightarrow> manager_call \<Rightarrow> hotkey_error option"
  error_string :: "hotkey_error \<Rightarrow> string"

definition parse_chord :: "hotkey_lib \<Rightarrow> string \<Rightarrow> string + HotKey" where
  "parse_chord lib accelerator =
     (let trimmed = trim accelerator
      in if trimmed = [] then Err ''the accelerator is empty''
         else map_err (\<lambda>e. trimmed @ '': '' @ error_string lib e) (from_str lib trimmed))"

section \<open>The registry\<close>

text \<open>A C string holds no nul; a reason that does is replaced.\<close>

definition c_string :: "string \<Rightarrow> string" where
  "c_string reason =
     (if CHR 0x00 \<in> set reason then ''the platform reported a reason that is not text'' else reason)"

record Registry =
  manager_calls :: "manager_call list"
  bound :: "HotKey list"
  failure :: "string option"

definition registry_open :: "hotkey_lib \<Rightarrow> host_env \<Rightarrow> string + Registry" where
  "registry_open lib h =
     (let backend = detect h
      in if \<not> registers backend then Err (cannot_register backend)
         else case manager_new lib of
                Some e \<Rightarrow> Err (error_string lib e)
              | None \<Rightarrow> Ok \<lparr>manager_calls = [], bound = [], failure = None\<rparr>)"

definition remember :: "string \<Rightarrow> Registry \<Rightarrow> Registry" where
  "remember reason g = g\<lparr>failure := Some (c_string reason)\<rparr>"

definition call_manager :: "hotkey_lib \<Rightarrow> manager_call \<Rightarrow> Registry \<Rightarrow> hotkey_error option \<times> Registry" where
  "call_manager lib c g =
     (manager_error lib (manager_calls g) c, g\<lparr>manager_calls := manager_calls g @ [c]\<rparr>)"

definition registry_bind :: "hotkey_lib \<Rightarrow> string \<Rightarrow> Registry \<Rightarrow> (Status + u32) \<times> Registry" where
  "registry_bind lib accelerator g =
     (case parse_chord lib accelerator of
        Inl reason \<Rightarrow> (Err MalformedChord, remember reason g)
      | Inr hotkey \<Rightarrow>
          if \<exists>known\<in>set (bound g). hk_id known = hk_id hotkey then
            (Err AlreadyBound, remember (accelerator @ '' is already bound by this app'') g)
          else
            (case call_manager lib (Register hotkey) g of
               (Some e, g1) \<Rightarrow> (Err (for_registration e), remember (error_string lib e) g1)
             | (None, g1) \<Rightarrow> (Ok (hk_id hotkey), g1\<lparr>bound := bound g1 @ [hotkey]\<rparr>)))"

fun remove_first :: "u32 \<Rightarrow> HotKey list \<Rightarrow> (HotKey \<times> HotKey list) option" where
  "remove_first i [] = None"
| "remove_first i (k # ks) =
     (if hk_id k = i then Some (k, ks)
      else map_option (\<lambda>(h, left). (h, k # left)) (remove_first i ks))"

definition registry_release :: "hotkey_lib \<Rightarrow> u32 \<Rightarrow> Registry \<Rightarrow> Status \<times> Registry" where
  "registry_release lib i g =
     (case remove_first i (bound g) of
        None \<Rightarrow> (NotBound, g)
      | Some (hotkey, left) \<Rightarrow>
          (case call_manager lib (Unregister hotkey) (g\<lparr>bound := left\<rparr>) of
             (None, g1) \<Rightarrow> (StatusOk, g1)
           | (Some e, g1) \<Rightarrow> (BackendUnavailable, remember (error_string lib e) g1)))"

fun release_ids :: "hotkey_lib \<Rightarrow> u32 list \<Rightarrow> Status \<Rightarrow> Registry \<Rightarrow> Status \<times> Registry" where
  "release_ids lib [] worst g = (worst, g)"
| "release_ids lib (i # ids) worst g =
     (let (s, g1) = registry_release lib i g
      in release_ids lib ids (if s \<noteq> StatusOk then s else worst) g1)"

definition registry_release_all :: "hotkey_lib \<Rightarrow> Registry \<Rightarrow> Status \<times> Registry" where
  "registry_release_all lib g = release_ids lib (map hk_id (bound g)) StatusOk g"

section \<open>The functions the host calls\<close>

text \<open>
  A registry behind a pointer: the address, 0 for none, in a store of the registries that are open;
  and the reason of the last open that failed.
\<close>

record ffi_world =
  registries :: "nat \<Rightarrow> Registry option"
  next_address :: nat
  last_open_failure :: "string option"

definition ffi_backend :: "host_env \<Rightarrow> int" where
  "ffi_backend h = backend_code (detect h)"

definition ffi_open :: "hotkey_lib \<Rightarrow> host_env \<Rightarrow> ffi_world \<Rightarrow> nat \<times> ffi_world" where
  "ffi_open lib h w =
     (case registry_open lib h of
        Inr g \<Rightarrow>
          (next_address w,
           w\<lparr>last_open_failure := None, registries := (registries w)(next_address w \<mapsto> g),
             next_address := Suc (next_address w)\<rparr>)
      | Inl reason \<Rightarrow> (0, w\<lparr>last_open_failure := Some (c_string reason)\<rparr>))"

definition ffi_last_open_failure :: "ffi_world \<Rightarrow> string option" where
  "ffi_last_open_failure w = last_open_failure w"

definition as_ref :: "nat \<Rightarrow> ffi_world \<Rightarrow> Registry option" where
  "as_ref p w = (if p = 0 then None else registries w p)"

definition store_registry :: "nat \<Rightarrow> Registry \<Rightarrow> ffi_world \<Rightarrow> ffi_world" where
  "store_registry p g w = w\<lparr>registries := (registries w)(p \<mapsto> g)\<rparr>"

text \<open>Closing returns the calls the registry made to the library, the last of them its releases.\<close>

definition ffi_close :: "hotkey_lib \<Rightarrow> nat \<Rightarrow> ffi_world \<Rightarrow> manager_call list \<times> ffi_world" where
  "ffi_close lib p w =
     (case as_ref p w of
        None \<Rightarrow> ([], w)
      | Some g \<Rightarrow>
          (manager_calls (snd (registry_release_all lib g)),
           w\<lparr>registries := (registries w)(p := None)\<rparr>))"

text \<open>
  The accelerator is a null pointer, bytes that are not UTF-8, or text; the identifier is returned
  beside the status when there is one to write.
\<close>

datatype c_text = NullText | NotUtf8 | Text string

definition ffi_bind ::
  "hotkey_lib \<Rightarrow> nat \<Rightarrow> c_text \<Rightarrow> bool \<Rightarrow> ffi_world \<Rightarrow> (int \<times> u32 option) \<times> ffi_world" where
  "ffi_bind lib p accelerator out_is_null w =
     (case as_ref p w of
        None \<Rightarrow> ((status_code BackendUnavailable, None), w)
      | Some g \<Rightarrow>
          if accelerator = NullText \<or> out_is_null then ((status_code MalformedChord, None), w)
          else
            (case accelerator of
               Text t \<Rightarrow>
                 (case registry_bind lib t g of
                    (Inr i, g1) \<Rightarrow> ((status_code StatusOk, Some i), store_registry p g1 w)
                  | (Inl s, g1) \<Rightarrow> ((status_code s, None), store_registry p g1 w))
             | _ \<Rightarrow> ((status_code MalformedChord, None),
                     store_registry p (remember ''the accelerator is not valid UTF-8'' g) w)))"

definition ffi_release :: "hotkey_lib \<Rightarrow> nat \<Rightarrow> u32 \<Rightarrow> ffi_world \<Rightarrow> int \<times> ffi_world" where
  "ffi_release lib p i w =
     (case as_ref p w of
        Some g \<Rightarrow> (let (s, g1) = registry_release lib i g in (status_code s, store_registry p g1 w))
      | None \<Rightarrow> (status_code BackendUnavailable, w))"

definition ffi_release_all :: "hotkey_lib \<Rightarrow> nat \<Rightarrow> ffi_world \<Rightarrow> int \<times> ffi_world" where
  "ffi_release_all lib p w =
     (case as_ref p w of
        Some g \<Rightarrow> (let (s, g1) = registry_release_all lib g in (status_code s, store_registry p g1 w))
      | None \<Rightarrow> (status_code BackendUnavailable, w))"

definition ffi_last_failure :: "nat \<Rightarrow> ffi_world \<Rightarrow> string option" where
  "ffi_last_failure p w = Option.bind (as_ref p w) failure"

section \<open>The pump of key events\<close>

text \<open>
  The listener, the flag that a pump runs, the pump threads there are, and what each listener was
  told: its number, the key and whether it was pressed.
\<close>

record pump_world =
  installed :: "nat option"
  pumping :: bool
  pump_threads :: nat
  told :: "(nat \<times> u32 \<times> u8) list"

definition emit :: "u32 \<Rightarrow> bool \<Rightarrow> pump_world \<Rightarrow> pump_world" where
  "emit i pressed w =
     (case installed w of
        Some callback \<Rightarrow> w\<lparr>told := told w @ [(callback, i, if pressed then 1 else 0)]\<rparr>
      | None \<Rightarrow> w)"

definition listen :: "bool \<Rightarrow> nat option \<Rightarrow> pump_world \<Rightarrow> int \<times> pump_world" where
  "listen spawns callback w =
     (let w1 = w\<lparr>installed := callback\<rparr>
      in if callback = None then (status_code StatusOk, w1)
         else if pumping w1 then (status_code StatusOk, w1)
         else if spawns then
           (status_code StatusOk, w1\<lparr>pumping := True, pump_threads := Suc (pump_threads w1)\<rparr>)
         else (status_code BackendUnavailable, w1\<lparr>pumping := True\<rparr>))"

text \<open>The probe of the tests emits from a thread of its own, when one can be spawned.\<close>

definition emit_from_own_thread :: "bool \<Rightarrow> u32 \<Rightarrow> bool \<Rightarrow> pump_world \<Rightarrow> pump_world" where
  "emit_from_own_thread spawns i pressed w = (if spawns then emit i pressed w else w)"

definition ffi_listen :: "bool \<Rightarrow> nat option \<Rightarrow> pump_world \<Rightarrow> int \<times> pump_world" where
  "ffi_listen spawns callback w = listen spawns callback w"

definition ffi_emit_probe :: "bool \<Rightarrow> u32 \<Rightarrow> u8 \<Rightarrow> pump_world \<Rightarrow> pump_world" where
  "ffi_emit_probe spawns i pressed w = emit_from_own_thread spawns i (pressed \<noteq> 0) w"

text \<open>One turn of a pump thread: an event, or the end of the channel, which ends the thread.\<close>

definition pump_turn :: "(u32 \<times> bool) option \<Rightarrow> pump_world \<Rightarrow> pump_world" where
  "pump_turn event w =
     (case event of
        Some (i, pressed) \<Rightarrow> emit i pressed w
      | None \<Rightarrow> w\<lparr>pumping := False, pump_threads := pump_threads w - 1\<rparr>)"

inductive pump_step :: "pump_world \<Rightarrow> pump_world \<Rightarrow> bool" where
  host_listens: "pump_step w (snd (ffi_listen spawns callback w))"
| host_probes: "pump_step w (ffi_emit_probe spawns i pressed_byte w)"
| host_emits: "pump_step w (emit i pressed w)"
| pump_turns: "0 < pump_threads w \<Longrightarrow> pump_step w (pump_turn event w)"

inductive_cases pump_stepE: "pump_step w w'"

inductive pump_reachable :: "pump_world \<Rightarrow> bool" where
  pump_start: "pump_reachable \<lparr>installed = None, pumping = False, pump_threads = 0, told = []\<rparr>"
| pump_next: "pump_reachable w \<Longrightarrow> pump_step w w' \<Longrightarrow> pump_reachable w'"

section \<open>What the library holds\<close>

text \<open>The keys the library holds after some calls: those it granted and has not let go since.\<close>

definition call_effect :: "hotkey_lib \<Rightarrow> manager_call list \<Rightarrow> manager_call \<Rightarrow> HotKey set \<Rightarrow> HotKey set" where
  "call_effect lib before c H =
     (if manager_error lib before c \<noteq> None then H
      else case c of Register h \<Rightarrow> insert h H | Unregister h \<Rightarrow> H - {h})"

fun replay :: "hotkey_lib \<Rightarrow> manager_call list \<Rightarrow> manager_call list \<Rightarrow> HotKey set \<Rightarrow> HotKey set" where
  "replay lib before [] H = H"
| "replay lib before (c # cs) H = replay lib (before @ [c]) cs (call_effect lib before c H)"

definition held :: "hotkey_lib \<Rightarrow> manager_call list \<Rightarrow> HotKey set" where
  "held lib calls = replay lib [] calls {}"

text \<open>The keys whose release the library refused at some point.\<close>

definition stuck :: "hotkey_lib \<Rightarrow> manager_call list \<Rightarrow> HotKey set" where
  "stuck lib calls =
     {h. \<exists>before after. calls = before @ Unregister h # after \<and> manager_error lib before (Unregister h) \<noteq> None}"

lemma replay_snoc:
  "replay lib before (cs @ [c]) H = call_effect lib (before @ cs) c (replay lib before cs H)"
  by (induction lib before cs H rule: replay.induct) simp_all

lemma held_Nil [simp]: "held lib [] = {}"
  by (simp add: held_def)

lemma held_snoc: "held lib (calls @ [c]) = call_effect lib calls c (held lib calls)"
  by (simp add: held_def replay_snoc)

lemma stuck_Nil [simp]: "stuck lib [] = {}"
  by (simp add: stuck_def)

lemma stuck_mono: "stuck lib calls \<subseteq> stuck lib (calls @ [c])"
proof
  fix h
  assume "h \<in> stuck lib calls"
  then obtain before after where "calls = before @ Unregister h # after"
      "manager_error lib before (Unregister h) \<noteq> None"
    by (auto simp: stuck_def)
  then show "h \<in> stuck lib (calls @ [c])"
    unfolding stuck_def mem_Collect_eq
    by (intro exI [of _ before] exI [of _ "after @ [c]"]) simp
qed

lemma stuck_now: "manager_error lib calls (Unregister h) \<noteq> None \<Longrightarrow> h \<in> stuck lib (calls @ [Unregister h])"
  unfolding stuck_def by auto

section \<open>The registry's invariant\<close>

definition registry_inv :: "hotkey_lib \<Rightarrow> Registry \<Rightarrow> bool" where
  "registry_inv lib g \<longleftrightarrow>
     distinct (map hk_id (bound g)) \<and> set (bound g) \<subseteq> held lib (manager_calls g) \<and>
     held lib (manager_calls g) \<subseteq> set (bound g) \<union> stuck lib (manager_calls g)"

lemma remember_same [simp]:
  "bound (remember r g) = bound g" "manager_calls (remember r g) = manager_calls g"
  by (simp_all add: remember_def)

lemma registry_inv_remember [simp]: "registry_inv lib (remember r g) = registry_inv lib g"
  by (simp add: registry_inv_def)

lemma bind_inv:
  assumes "registry_inv lib g"
  shows "registry_inv lib (snd (registry_bind lib accelerator g))"
proof (cases "parse_chord lib accelerator")
  case (Inl e)
  then show ?thesis using assms by (simp add: registry_bind_def)
next
  case (Inr k)
  let ?c = "Register k"
  show ?thesis
  proof (cases "\<exists>known\<in>set (bound g). hk_id known = hk_id k")
    case True
    then show ?thesis using assms Inr by (simp add: registry_bind_def)
  next
    case False
    have grown: "stuck lib (manager_calls g) \<subseteq> stuck lib (manager_calls g @ [?c])" by (rule stuck_mono)
    show ?thesis
    proof (cases "manager_error lib (manager_calls g) ?c")
      case None
      have fresh: "hk_id k \<notin> hk_id ` set (bound g)" using False by auto
      have after: "snd (registry_bind lib accelerator g) =
          g\<lparr>manager_calls := manager_calls g @ [?c], bound := bound g @ [k]\<rparr>"
        using False Inr None by (simp add: registry_bind_def call_manager_def)
      show ?thesis
        unfolding after
        using assms grown fresh None by (auto simp: registry_inv_def held_snoc call_effect_def)
    next
      case (Some e)
      have after: "snd (registry_bind lib accelerator g) =
          remember (error_string lib e) (g\<lparr>manager_calls := manager_calls g @ [?c]\<rparr>)"
        using False Inr Some by (simp add: registry_bind_def call_manager_def)
      show ?thesis
        unfolding after
        using assms grown Some by (auto simp: registry_inv_def held_snoc call_effect_def)
    qed
  qed
qed

lemma remove_first_None: "remove_first i ks = None \<longleftrightarrow> i \<notin> hk_id ` set ks"
  by (induction ks) auto

lemma remove_first_Some:
  "remove_first i ks = Some (h, left) \<Longrightarrow> \<exists>a b. ks = a @ h # b \<and> left = a @ b \<and> hk_id h = i"
proof (induction ks arbitrary: left)
  case (Cons k ks)
  show ?case
  proof (cases "hk_id k = i")
    case True
    then show ?thesis using Cons.prems by (intro exI [of _ "[]"] exI [of _ left]) simp
  next
    case False
    then obtain rest where r: "remove_first i ks = Some (h, rest)" "left = k # rest"
      using Cons.prems by auto
    then obtain a b where "ks = a @ h # b \<and> rest = a @ b \<and> hk_id h = i" using Cons.IH by blast
    then show ?thesis using r by (intro exI [of _ "k # a"] exI [of _ b]) simp
  qed
qed simp

text \<open>What a release does to a key that is bound.\<close>

lemma release_bound:
  assumes "registry_inv lib g" and "registry_release lib i g = (s, g')" and "i \<in> hk_id ` set (bound g)"
  shows "registry_inv lib g'" and "map hk_id (bound g') = remove1 i (map hk_id (bound g))"
    and "\<exists>h. hk_id h = i \<and> manager_calls g' = manager_calls g @ [Unregister h] \<and>
      (s = StatusOk \<longleftrightarrow> manager_error lib (manager_calls g) (Unregister h) = None)"
proof -
  obtain h left where r: "remove_first i (bound g) = Some (h, left)"
    using assms(3) remove_first_None by (metis not_None_eq prod.exhaust)
  obtain a b where ab: "bound g = a @ h # b" "left = a @ b" "hk_id h = i"
    using remove_first_Some [OF r] by blast
  have ids: "distinct (map hk_id (bound g))" using assms(1) by (simp add: registry_inv_def)
  let ?c = "Unregister h"
  have g': "bound g' = left" "manager_calls g' = manager_calls g @ [?c]"
      "s = (if manager_error lib (manager_calls g) ?c = None then StatusOk else BackendUnavailable)"
    using assms(2) r by (auto simp: registry_release_def call_manager_def split: option.splits)
  have "h \<notin> set a \<union> set b" using ids unfolding ab(1) by auto
  then have sets: "set (bound g') = set (bound g) - {h}" unfolding g'(1) ab(1,2) by auto
  have held': "held lib (manager_calls g') =
      (if manager_error lib (manager_calls g) ?c = None then held lib (manager_calls g) - {h}
       else held lib (manager_calls g))"
    unfolding g'(2) held_snoc by (simp add: call_effect_def)
  have "distinct (map hk_id (bound g'))" using ids unfolding g'(1) ab(1,2) by simp
  moreover have "set (bound g') \<subseteq> held lib (manager_calls g')"
    using assms(1) unfolding sets held' registry_inv_def by auto
  moreover have "x \<in> set (bound g') \<union> stuck lib (manager_calls g')"
    if "x \<in> held lib (manager_calls g')" for x
  proof -
    have x: "x \<in> held lib (manager_calls g)"
        "x = h \<Longrightarrow> manager_error lib (manager_calls g) ?c \<noteq> None"
      using that unfolding held' by (auto split: if_splits)
    then consider "x \<in> set (bound g)" | "x \<in> stuck lib (manager_calls g)"
      using assms(1) by (auto simp: registry_inv_def)
    then show ?thesis
    proof cases
      case 1
      then show ?thesis
        using x(2) stuck_now [of lib "manager_calls g" h] by (cases "x = h") (auto simp: sets g'(2))
    next
      case 2
      then show ?thesis using stuck_mono [of lib "manager_calls g" ?c] by (auto simp: g'(2))
    qed
  qed
  ultimately show "registry_inv lib g'" unfolding registry_inv_def by blast
  have "i \<notin> set (map hk_id a)" using ids ab by auto
  then show "map hk_id (bound g') = remove1 i (map hk_id (bound g))"
    using ab g'(1) by (simp add: remove1_append)
  show "\<exists>h. hk_id h = i \<and> manager_calls g' = manager_calls g @ [Unregister h] \<and>
      (s = StatusOk \<longleftrightarrow> manager_error lib (manager_calls g) (Unregister h) = None)"
    using g' ab(3) by (intro exI [of _ h]) simp
qed

lemma release_unbound:
  "i \<notin> hk_id ` set (bound g) \<Longrightarrow> registry_release lib i g = (NotBound, g)"
  using remove_first_None [of i "bound g"] by (simp add: registry_release_def)

lemma release_inv:
  "registry_inv lib g \<Longrightarrow> registry_inv lib (snd (registry_release lib i g))"
  using release_bound(1) [of lib g i] release_unbound [of i g lib]
  by (cases "i \<in> hk_id ` set (bound g)") (metis prod.collapse, simp)

text \<open>Releasing the bound keys one by one, in their order.\<close>

fun all_granted :: "hotkey_lib \<Rightarrow> manager_call list \<Rightarrow> manager_call list \<Rightarrow> bool" where
  "all_granted lib before [] = True"
| "all_granted lib before (c # cs) =
     (manager_error lib before c = None \<and> all_granted lib (before @ [c]) cs)"

definition released_all :: "hotkey_lib \<Rightarrow> u32 list \<Rightarrow> bool \<Rightarrow> Registry \<Rightarrow> bool \<Rightarrow> Registry \<Rightarrow> HotKey list \<Rightarrow> bool" where
  "released_all lib ids fine g fine' g' hs \<longleftrightarrow>
     registry_inv lib g' \<and> bound g' = [] \<and> map hk_id hs = ids \<and>
     manager_calls g' = manager_calls g @ map Unregister hs \<and>
     (fine' \<longleftrightarrow> fine \<and> all_granted lib (manager_calls g) (map Unregister hs))"

lemma release_ids_all:
  "registry_inv lib g \<Longrightarrow> ids = map hk_id (bound g) \<Longrightarrow> release_ids lib ids worst g = (s, g') \<Longrightarrow>
     \<exists>hs. released_all lib ids (worst = StatusOk) g (s = StatusOk) g' hs"
proof (induction ids arbitrary: worst g)
  case Nil
  then show ?case by (auto simp: released_all_def)
next
  case (Cons i ids)
  obtain q g1 where one: "registry_release lib i g = (q, g1)" by fastforce
  have "i \<in> set (map hk_id (bound g))" unfolding Cons.prems(2) [symmetric] by simp
  then have mem: "i \<in> hk_id ` set (bound g)" by simp
  note done1 = release_bound [OF Cons.prems(1) one mem]
  obtain h where h: "hk_id h = i" "manager_calls g1 = manager_calls g @ [Unregister h]"
      "q = StatusOk \<longleftrightarrow> manager_error lib (manager_calls g) (Unregister h) = None"
    using done1(3) by (elim exE conjE)
  have ids: "ids = map hk_id (bound g1)" using done1(2) unfolding Cons.prems(2) [symmetric] by simp
  have later: "release_ids lib ids (if q \<noteq> StatusOk then q else worst) g1 = (s, g')"
    using Cons.prems(3) one by simp
  obtain hs where "released_all lib ids ((if q \<noteq> StatusOk then q else worst) = StatusOk) g1 (s = StatusOk) g' hs"
    using Cons.IH [OF done1(1) ids later] by (elim exE)
  then have "released_all lib (i # ids) (worst = StatusOk) g (s = StatusOk) g' (h # hs)"
    using h by (simp add: released_all_def split: if_splits)
  then show ?case by (rule exI)
qed

lemma release_all_inv:
  assumes "registry_inv lib g" and "registry_release_all lib g = (s, g')"
  shows "registry_inv lib g' \<and> bound g' = [] \<and>
    (\<exists>hs. map hk_id hs = map hk_id (bound g) \<and> manager_calls g' = manager_calls g @ map Unregister hs \<and>
       (s = StatusOk \<longleftrightarrow> all_granted lib (manager_calls g) (map Unregister hs)))"
proof -
  have "release_ids lib (map hk_id (bound g)) StatusOk g = (s, g')"
    using assms(2) by (simp add: registry_release_all_def)
  from release_ids_all [OF assms(1) refl this] show ?thesis by (auto simp: released_all_def)
qed

lemma open_inv: "registry_open lib h = Ok g \<Longrightarrow> registry_inv lib g"
  by (auto simp: registry_open_def registry_inv_def Let_def split: if_splits option.splits)

text \<open>What a host does through the functions it is given.\<close>

datatype ffi_op =
    Open host_env
  | BindAt nat c_text bool
  | ReleaseAt nat u32
  | ReleaseAllAt nat
  | CloseAt nat

fun ffi_step :: "hotkey_lib \<Rightarrow> ffi_op \<Rightarrow> ffi_world \<Rightarrow> ffi_world" where
  "ffi_step lib (Open h) w = snd (ffi_open lib h w)"
| "ffi_step lib (BindAt p t out_is_null) w = snd (ffi_bind lib p t out_is_null w)"
| "ffi_step lib (ReleaseAt p i) w = snd (ffi_release lib p i w)"
| "ffi_step lib (ReleaseAllAt p) w = snd (ffi_release_all lib p w)"
| "ffi_step lib (CloseAt p) w = snd (ffi_close lib p w)"

definition empty_ffi :: ffi_world where
  "empty_ffi = \<lparr>registries = Map.empty, next_address = 1, last_open_failure = None\<rparr>"

definition ffi_inv :: "hotkey_lib \<Rightarrow> ffi_world \<Rightarrow> bool" where
  "ffi_inv lib w \<longleftrightarrow> (\<forall>p g. registries w p = Some g \<longrightarrow> registry_inv lib g)"

lemma ffi_inv_store: "ffi_inv lib w \<Longrightarrow> registry_inv lib g \<Longrightarrow> ffi_inv lib (store_registry p g w)"
  by (simp add: ffi_inv_def store_registry_def)

lemma ffi_inv_ref: "ffi_inv lib w \<Longrightarrow> as_ref p w = Some g \<Longrightarrow> registry_inv lib g"
  by (auto simp: ffi_inv_def as_ref_def split: if_splits)

lemma ffi_step_inv:
  assumes "ffi_inv lib w"
  shows "ffi_inv lib (ffi_step lib op w)"
proof (cases op)
  case (Open h)
  then show ?thesis
    using assms open_inv [of lib h] by (auto simp: ffi_open_def ffi_inv_def split: sum.splits)
next
  case (BindAt p t out)
  show ?thesis
  proof (cases "as_ref p w")
    case (Some g)
    have g: "registry_inv lib g" by (rule ffi_inv_ref [OF assms Some])
    then have kept: "registry_inv lib g'" if "registry_bind lib a g = (r, g')" for a r g'
      using bind_inv [OF g, of a] that by simp
    show ?thesis
      using assms BindAt Some g
      by (cases t) (auto simp: ffi_bind_def intro!: ffi_inv_store dest: kept split: prod.splits sum.splits)
  qed (use assms BindAt in \<open>simp add: ffi_bind_def\<close>)
next
  case (ReleaseAt p i)
  show ?thesis
  proof (cases "as_ref p w")
    case (Some g)
    then show ?thesis
      using assms ReleaseAt release_inv [OF ffi_inv_ref [OF assms Some], of i]
      by (auto simp: ffi_release_def Let_def intro!: ffi_inv_store split: prod.splits)
  qed (use assms ReleaseAt in \<open>simp add: ffi_release_def\<close>)
next
  case (ReleaseAllAt p)
  show ?thesis
  proof (cases "as_ref p w")
    case (Some g)
    obtain s g' where r: "registry_release_all lib g = (s, g')" by fastforce
    then have "registry_inv lib g'"
      using release_all_inv [OF ffi_inv_ref [OF assms Some]] by blast
    then show ?thesis
      using assms ReleaseAllAt Some r by (simp add: ffi_release_all_def ffi_inv_store)
  qed (use assms ReleaseAllAt in \<open>simp add: ffi_release_all_def\<close>)
next
  case (CloseAt p)
  then show ?thesis
    using assms by (auto simp: ffi_close_def ffi_inv_def split: option.splits)
qed

lemma ffi_run_inv: "ffi_inv lib w \<Longrightarrow> ffi_inv lib (fold (ffi_step lib) ops w)"
  by (induction ops arbitrary: w) (simp_all add: ffi_step_inv)

section \<open>Properties\<close>

text \<open>
  C38: whatever a host does, every open registry has each identifier at most once, and what it
  lists as bound is held by the library; the library holds no more than that, apart from keys
  whose release it refused.  Closing asks the library to let go of everything bound, so that
  nothing stays held unless it refused.
\<close>

theorem registry_accounts:
  assumes "w = fold (ffi_step lib) ops empty_ffi" and "as_ref p w = Some g"
    and "ffi_close lib p w = (calls, w')"
  shows "distinct (map hk_id (bound g)) \<and> set (bound g) \<subseteq> held lib (manager_calls g) \<and>
    held lib (manager_calls g) \<subseteq> set (bound g) \<union> stuck lib (manager_calls g) \<and>
    (\<exists>hs. map hk_id hs = map hk_id (bound g) \<and> calls = manager_calls g @ map Unregister hs) \<and>
    held lib calls \<subseteq> stuck lib calls \<and> as_ref p w' = None"
proof -
  have "ffi_inv lib w"
    unfolding assms(1) by (rule ffi_run_inv) (simp add: ffi_inv_def empty_ffi_def)
  then have g: "registry_inv lib g" by (rule ffi_inv_ref [OF _ assms(2)])
  obtain s g' where r: "registry_release_all lib g = (s, g')" by fastforce
  have calls: "calls = manager_calls g'" "as_ref p w' = None"
    using assms(2,3) r by (auto simp: ffi_close_def as_ref_def split: if_splits)
  show ?thesis
    using g release_all_inv [OF g r] unfolding calls registry_inv_def by auto
qed

definition example_lib :: hotkey_lib where
  "example_lib = \<lparr>from_str = (\<lambda>t. Ok \<lparr>hk_id = of_nat (length t), hk_chord = t\<rparr>), manager_new = None,
     manager_error = (\<lambda>_ _. None), error_string = (\<lambda>_. [])\<rparr>"

definition example_env :: host_env where
  "example_env = \<lparr>target_os = TargetMacos, env_var = (\<lambda>_. None)\<rparr>"

theorem registry_accounts_witness:
  "\<exists>g calls w'. as_ref 1 (fold (ffi_step example_lib) [Open example_env, BindAt 1 (Text ''K'') False] empty_ffi) = Some g \<and>
     ffi_close example_lib 1 (fold (ffi_step example_lib) [Open example_env, BindAt 1 (Text ''K'') False] empty_ffi) = (calls, w') \<and>
     held example_lib calls \<subseteq> stuck example_lib calls"
proof -
  let ?w = "fold (ffi_step example_lib) [Open example_env, BindAt 1 (Text ''K'') False] empty_ffi"
  let ?w1 = "ffi_step example_lib (Open example_env) empty_ffi"
  have "as_ref 1 ?w1 \<noteq> None"
    by (simp add: ffi_open_def registry_open_def detect_def example_env_def registers_def example_lib_def
        empty_ffi_def as_ref_def Let_def)
  then obtain g1 where g1: "as_ref 1 ?w1 = Some g1" by blast
  have "as_ref 1 ?w \<noteq> None"
    using g1 by (auto simp: ffi_bind_def store_registry_def as_ref_def split: prod.splits sum.splits)
  then obtain g where g: "as_ref 1 ?w = Some g" by blast
  obtain calls w' where c: "ffi_close example_lib 1 ?w = (calls, w')" by fastforce
  show ?thesis using registry_accounts [OF refl g c] g c by blast
qed

text \<open>
  A key is grabbed only where the session delivers it: on an X11 session that is declared or
  at least has a display and no Wayland socket, never under Wayland, even with XWayland's display
  set; anywhere else on such a host opening fails with the reason, and no registry is made.
\<close>

theorem session_backend_exact:
  "target_os h = TargetUnix \<Longrightarrow>
   (registers (detect h) \<longleftrightarrow>
      to_ascii_lowercase (trim (unwrap_or_default (env_var h ''XDG_SESSION_TYPE''))) = ''x11'' \<or>
      to_ascii_lowercase (trim (unwrap_or_default (env_var h ''XDG_SESSION_TYPE''))) \<noteq> ''wayland'' \<and>
        \<not> is_set (env_var h ''WAYLAND_DISPLAY'') \<and> is_set (env_var h ''DISPLAY'')) \<and>
   (\<not> registers (detect h) \<longrightarrow>
      ffi_open lib h w = (0, w\<lparr>last_open_failure := Some (c_string (cannot_register (detect h)))\<rparr>))"
  by (auto simp: detect_def for_session_def registers_def Let_def ffi_open_def registry_open_def)

definition wayland_env :: host_env where
  "wayland_env = \<lparr>target_os = TargetUnix,
     env_var = (\<lambda>v. if v = ''WAYLAND_DISPLAY'' then Some ''wayland-0'' else if v = ''DISPLAY'' then Some '':0'' else None)\<rparr>"

lemma trim_wayland: "trim ''wayland-0'' \<noteq> []" "trim [] = []"
  by code_simp+

theorem session_backend_exact_witness:
  "\<not> registers (detect wayland_env) \<and> fst (ffi_open example_lib wayland_env empty_ffi) = 0"
proof -
  have "\<not> registers (detect wayland_env)"
    using session_backend_exact [of wayland_env] trim_wayland
    by (simp add: wayland_env_def is_set_def unwrap_or_default_def to_ascii_lowercase_def)
  then show ?thesis
    using session_backend_exact [of wayland_env example_lib empty_ffi] by (simp add: wayland_env_def)
qed

text \<open>
  However often a host listens, stops listening and events arrive, there is at most one pump
  thread, and while it runs the flag that keeps a second one from starting is up.
\<close>

theorem one_pump_thread:
  "pump_reachable w \<Longrightarrow> pump_threads w \<le> 1 \<and> (pump_threads w = 1 \<longrightarrow> pumping w)"
proof (induction rule: pump_reachable.induct)
  case pump_start
  show ?case by simp
next
  case (pump_next w w')
  from pump_next(2) show ?case
  proof cases
    case (host_listens spawns callback)
    then show ?thesis using pump_next.IH by (auto simp: ffi_listen_def listen_def Let_def)
  next
    case (host_probes spawns i pressed_byte)
    then show ?thesis using pump_next.IH
      by (auto simp: ffi_emit_probe_def emit_from_own_thread_def emit_def split: option.splits)
  next
    case (host_emits i pressed)
    then show ?thesis using pump_next.IH by (auto simp: emit_def split: option.splits)
  next
    case (pump_turns event)
    then show ?thesis
      using pump_next.IH by (auto simp: pump_turn_def emit_def split: option.splits)
  qed
qed

theorem one_pump_thread_witness:
  "pump_threads (snd (listen True (Some 7) \<lparr>installed = None, pumping = False, pump_threads = 0, told = []\<rparr>)) \<le> 1 \<and>
   pumping (snd (listen True (Some 7) \<lparr>installed = None, pumping = False, pump_threads = 0, told = []\<rparr>))"
  using one_pump_thread [OF pump_next [OF pump_start host_listens, of True "Some 7"]]
  by (simp add: ffi_listen_def listen_def Let_def status_code.simps)

text \<open>
  A pump thread that could not be started leaves the flag up: the next listener is told that all
  is well, and no thread is there to call it.
\<close>

lemma failed_spawn_sticks:
  assumes "\<not> pumping w" and "pump_threads w = 0"
  shows "fst (listen True (Some b) (snd (listen False (Some a) w))) = status_code StatusOk \<and>
    pump_threads (snd (listen True (Some b) (snd (listen False (Some a) w)))) = 0"
  using assms by (simp add: listen_def Let_def)

text \<open>
  An open that succeeds gives up the reason of the last one that failed, and a release the system
  refuses forgets the key all the same: it cannot be asked for again.
\<close>

lemma open_frees_reason:
  "fst (ffi_open lib h w) \<noteq> 0 \<Longrightarrow> ffi_last_open_failure (snd (ffi_open lib h w)) = None"
  by (auto simp: ffi_open_def ffi_last_open_failure_def split: sum.splits)

lemma refused_release_forgets:
  assumes "registry_inv lib g" and "i \<in> hk_id ` set (bound g)" and "registry_release lib i g = (BackendUnavailable, g')"
  shows "registry_release lib i g' = (NotBound, g')"
proof -
  have "distinct (map hk_id (bound g))" using assms(1) by (simp add: registry_inv_def)
  then have "i \<notin> set (map hk_id (bound g'))"
    using release_bound(2) [OF assms(1,3,2)] by simp
  then show ?thesis by (intro release_unbound) simp
qed

end
