(* ===== verification/SessionProbe.thy ===== *)
theory SessionProbe
  imports Shortcut
begin

text \<open>
  The probe that shows what the shortcut channel makes of a session:
  \<open>toolkit/dovetail_shortcut_channel/rust/examples/session_probe.rs\<close>.  It is a host like any other:
  it opens a registry, binds one chord and closes, and prints what it was told.
\<close>

section \<open>The names of the codes\<close>

definition shown :: "host_env \<Rightarrow> string \<Rightarrow> string" where
  "shown h name =
     (case env_var h name of
        Some v \<Rightarrow> if trim v \<noteq> [] then v else ''(unset)''
      | None \<Rightarrow> ''(unset)'')"

definition name_of :: "int \<Rightarrow> string" where
  "name_of c =
     (if c = 0 then ''none'' else if c = 1 then ''win32RegisterHotKey'' else if c = 2 then ''carbonEventHotKey''
      else if c = 3 then ''x11GrabKey'' else if c = 4 then ''waylandPortal'' else ''unknown'')"

definition status_of :: "int \<Rightarrow> string" where
  "status_of c =
     (if c = 0 then ''ok'' else if c = 1 then ''alreadyBound'' else if c = 2 then ''takenBySystem''
      else if c = 3 then ''backendUnavailable'' else if c = 4 then ''malformedChord'' else ''unknown'')"

definition last_failure :: "ffi_world \<Rightarrow> string" where
  "last_failure w = (case ffi_last_open_failure w of None \<Rightarrow> ''(none reported)'' | Some reason \<Rightarrow> reason)"

section \<open>The run\<close>

definition environment_lines :: "host_env \<Rightarrow> string list" where
  "environment_lines h =
     map (\<lambda>name. ''env '' @ name @ ''='' @ shown h name)
       [''XDG_SESSION_TYPE'', ''WAYLAND_DISPLAY'', ''DISPLAY'', ''XDG_CURRENT_DESKTOP'']"

definition show_code :: "int \<Rightarrow> string" where
  "show_code c = '' ('' @ show_nat (nat c) @ '')''"

definition show_bool :: "bool \<Rightarrow> string" where
  "show_bool b = (if b then ''true'' else ''false'')"

text \<open>
  The lines printed, the calls made to the library by the registry that was closed, and the state
  of the library's side afterwards.
\<close>

definition probe_main :: "hotkey_lib \<Rightarrow> host_env \<Rightarrow> ffi_world \<Rightarrow> string list \<times> manager_call list \<times> ffi_world" where
  "probe_main lib h w =
     (let c = ffi_backend h;
          head = environment_lines h @
            [''backend='' @ name_of c @ show_code c, ''detect_agrees='' @ show_bool (c = backend_code (detect h))];
          (registry, w1) = ffi_open lib h w
      in if registry = 0 then (head @ [''open=refused'', ''open_reason='' @ last_failure w1], [], w1)
         else
           (let ((bound, out), w2) = ffi_bind lib registry (Text ''CommandOrControl+Shift+K'') False w1;
                i = (case out of Some i \<Rightarrow> i | None \<Rightarrow> 0);
                (calls, w3) = ffi_close lib registry w2
            in (head @ [''open=accepted'', ''bind='' @ status_of bound @ show_code bound] @
                  (if bound = 0 then [''bind_id='' @ show_nat (unat i)] else []) @ [''closed=yes''],
                calls, w3)))"

section \<open>Lemmas\<close>

lemma ffi_open_cases:
  assumes "ffi_open lib h w = (p, w1)" and "next_address w \<noteq> 0"
  obtains g where "p = next_address w" "as_ref p w1 = Some g" "registry_open lib h = Ok g"
      "registries w1 = (registries w)(p \<mapsto> g)"
  | reason where "p = 0" "registries w1 = registries w" "registry_open lib h = Err reason"
      "last_open_failure w1 = Some (c_string reason)"
  using assms by (cases "registry_open lib h") (auto simp: ffi_open_def as_ref_def)

lemma ffi_bind_same_registry:
  assumes "as_ref p w = Some g" and "registry_inv lib g" and "ffi_bind lib p t False w = (r, w')"
  shows "\<exists>g'. as_ref p w' = Some g' \<and> registry_inv lib g' \<and> registries w' = (registries w)(p \<mapsto> g')"
proof -
  have "p \<noteq> 0" "registries w p = Some g" using assms(1) by (auto simp: as_ref_def split: if_splits)
  moreover have "registry_inv lib g'" if "registry_bind lib a g = (x, g')" for a x g'
    using bind_inv [OF assms(2), of a] that by simp
  ultimately show ?thesis
    using assms
    by (cases t) (auto simp: ffi_bind_def store_registry_def as_ref_def fun_upd_idem split: prod.splits sum.splits)
qed

lemma ffi_close_all:
  assumes "as_ref p w = Some g" and "registry_inv lib g" and "ffi_close lib p w = (calls, w')"
  shows "held lib calls \<subseteq> stuck lib calls \<and> registries w' = (registries w)(p := None)"
proof -
  obtain s g' where r: "registry_release_all lib g = (s, g')" by fastforce
  have "calls = manager_calls g'" "registries w' = (registries w)(p := None)"
    using assms(1,3) r by (auto simp: ffi_close_def)
  then show ?thesis using release_all_inv [OF assms(2) r] by (auto simp: registry_inv_def)
qed

section \<open>Properties\<close>

text \<open>
  The probe leaves nothing behind: whatever the session and whatever the library answers, the
  registries that were open before are open afterwards as they were and no other is, and of the
  keys it grabbed the library still holds at most those whose release it refused.
\<close>

theorem probe_leaves_nothing:
  assumes "probe_main lib h w = (lines, calls, w')" and "next_address w \<noteq> 0"
    and "registries w (next_address w) = None"
  shows "registries w' = registries w \<and> held lib calls \<subseteq> stuck lib calls"
proof -
  obtain p w1 where opened: "ffi_open lib h w = (p, w1)" by fastforce
  from opened assms(2) show ?thesis
  proof (cases rule: ffi_open_cases)
    case (1 g)
    obtain b out w2 where bind: "ffi_bind lib p (Text ''CommandOrControl+Shift+K'') False w1 = ((b, out), w2)"
      by (metis prod.collapse)
    obtain calls3 w3 where close: "ffi_close lib p w2 = (calls3, w3)" by fastforce
    from ffi_bind_same_registry [OF 1(2) open_inv [OF 1(3)] bind] obtain g' where
      g': "as_ref p w2 = Some g'" "registry_inv lib g'" "registries w2 = (registries w1)(p \<mapsto> g')"
      by blast
    have "p \<noteq> 0" using 1(1) assms(2) by simp
    then have "calls3 = calls" "w3 = w'"
      using assms(1) opened bind close by (simp_all add: probe_main_def Let_def)
    then show ?thesis
      using ffi_close_all [OF g'(1,2) close] g'(3) 1(1,4) assms(3) by (auto simp: fun_eq_iff)
  next
    case (2 reason)
    then show ?thesis using assms(1) opened by (simp add: probe_main_def Let_def)
  qed
qed

theorem probe_leaves_nothing_witness:
  "\<exists>lines calls w'. probe_main example_lib example_env empty_ffi = (lines, calls, w') \<and>
     registries w' = registries empty_ffi \<and> held example_lib calls \<subseteq> stuck example_lib calls"
proof -
  obtain lines calls w' where r: "probe_main example_lib example_env empty_ffi = (lines, calls, w')"
    by (metis prod.collapse)
  have "next_address empty_ffi \<noteq> 0" "registries empty_ffi (next_address empty_ffi) = None"
    by (simp_all add: empty_ffi_def)
  from probe_leaves_nothing [OF r this] show ?thesis using r by blast
qed

text \<open>
  The names of the backends are those of the channel; of the statuses only two are.  A chord the
  library does not read is printed as one that is already bound, a chord that is already bound as
  a missing backend, and a missing backend as unknown.
\<close>

lemma probe_backend_names:
  "name_of (backend_code b) =
     (case b of NoBackend \<Rightarrow> ''none'' | Win32RegisterHotKey \<Rightarrow> ''win32RegisterHotKey''
      | CarbonEventHotKey \<Rightarrow> ''carbonEventHotKey'' | X11GrabKey \<Rightarrow> ''x11GrabKey'' | WaylandPortal \<Rightarrow> ''waylandPortal'')"
  by (cases b) (simp_all add: name_of_def)

lemma probe_status_names:
  "status_of (status_code MalformedChord) = ''alreadyBound''"
  "status_of (status_code AlreadyBound) = ''backendUnavailable''"
  "status_of (status_code NotBound) = ''malformedChord''"
  "status_of (status_code BackendUnavailable) = ''unknown''"
  by (simp_all add: status_of_def)

lemma probe_blames_wrongly:
  assumes "registry_open lib h = Ok g" and "next_address w \<noteq> 0"
    and "from_str lib ''CommandOrControl+Shift+K'' = Err e"
  shows "''bind=alreadyBound (1)'' \<in> set (fst (probe_main lib h w))"
proof -
  have "trim ''CommandOrControl+Shift+K'' = ''CommandOrControl+Shift+K''" by code_simp
  then have "fst (registry_bind lib ''CommandOrControl+Shift+K'' g) = Err MalformedChord"
    using assms(3) by (simp add: registry_bind_def parse_chord_def)
  then obtain g' where "registry_bind lib ''CommandOrControl+Shift+K'' g = (Err MalformedChord, g')"
    by (metis prod.collapse)
  moreover have "show_code 1 = '' (1)''" by code_simp
  ultimately show ?thesis
    using assms(1,2)
    by (simp add: probe_main_def ffi_open_def ffi_bind_def as_ref_def status_of_def Let_def split: prod.splits)
qed

end
