(* ===== verification/FrameJson.thy ===== *)
theory FrameJson
  imports Framing Json "HOL-Library.Monad_Syntax"
begin

text \<open>
  The JSON of the messages: what the attributes on the types of \<open>envelope.rs\<close> and \<open>handshake.rs\<close>
  under \<open>toolkit/dovetail_privileged_channel/rust/src\<close> say of it.  A frame is an object tagged by
  its \<open>t\<close>, a response carries its payload flattened, a payload is told by the member it has, an
  error code is its text.
\<close>

section \<open>The vocabulary of an application\<close>

text \<open>
  How commands and replies are written and read is the application's.  A member that is absent
  stands for nothing, unless its type has a value for that, as \<open>Option\<close> has.
\<close>

record ('req, 'resp) vocabulary =
  cmd_value :: "'req \<Rightarrow> Value option"
  cmd_of :: "Value \<Rightarrow> 'req option"
  absent_cmd :: "'req option"
  reply_value :: "'resp \<Rightarrow> Value option"
  reply_of :: "Value \<Rightarrow> 'resp option"
  absent_reply :: "'resp option"

text \<open>What the library makes of an array where a struct is declared is its own.\<close>

record ('req, 'resp) positional =
  frame_of_array :: "Value list \<Rightarrow> ('req, 'resp) Frame option"
  peer_check_of_array :: "Value list \<Rightarrow> PeerCheck option"
  error_body_of_array :: "Value list \<Rightarrow> ErrorBody option"

section \<open>Writing\<close>

definition error_code_value :: "ErrorCode \<Rightarrow> Value" where
  "error_code_value c = String (as_str c)"

definition error_body_value :: "ErrorBody \<Rightarrow> Value" where
  "error_body_value e = Object
     [(''code'', error_code_value (code e)), (''message'', String (message e)), (''retryable'', Bool (retryable e))]"

definition peer_check_value :: "PeerCheck \<Rightarrow> Value" where
  "peer_check_value p = Object [(''method'', String (check_method p)), (''subject'', String (check_subject p))]"

definition nonce_value :: "nonce \<Rightarrow> Value" where
  "nonce_value n = Array (map integer n)"

definition hello_members :: "Hello \<Rightarrow> (string \<times> Value) list" where
  "hello_members h =
     [(''proto_major'', integer (proto_major h)), (''proto_minor'', integer (proto_minor h)),
      (''client_version'', String (client_version h)), (''nonce'', nonce_value (hello_nonce h))]"

definition server_hello_members :: "ServerHello \<Rightarrow> (string \<times> Value) list" where
  "server_hello_members h =
     [(''accepted'', Bool (accepted h)), (''proto_major'', integer (server_proto_major h)),
      (''proto_minor'', integer (server_proto_minor h)), (''helper_version'', String (helper_version h)),
      (''nonce'', nonce_value (server_nonce h)), (''peer_check'', peer_check_value (server_peer_check h)),
      (''reject'', case reject h of None \<Rightarrow> Null | Some e \<Rightarrow> error_body_value e)]"

fun payload_members :: "('req, 'resp) vocabulary \<Rightarrow> 'resp RespPayload \<Rightarrow> (string \<times> Value) list option" where
  "payload_members voc (RespOk reply) = map_option (\<lambda>v. [(''ok'', v)]) (reply_value voc reply)"
| "payload_members voc (RespErr e) = Some [(''err'', error_body_value e)]"

definition request_members :: "('req, 'resp) vocabulary \<Rightarrow> 'req Request \<Rightarrow> (string \<times> Value) list option" where
  "request_members voc r =
     map_option (\<lambda>v. [(''id'', integer (req_id r)), (''cmd'', v)]) (cmd_value voc (req_cmd r))"

definition response_members :: "('req, 'resp) vocabulary \<Rightarrow> 'resp Response \<Rightarrow> (string \<times> Value) list option" where
  "response_members voc r =
     map_option (\<lambda>ms. (''id'', integer (resp_id r)) # ms) (payload_members voc (resp_payload r))"

fun frame_members :: "('req, 'resp) vocabulary \<Rightarrow> ('req, 'resp) Frame \<Rightarrow> (string \<times> Value) list option" where
  "frame_members voc (FHello h) = Some ((''t'', String ''hello'') # hello_members h)"
| "frame_members voc (FServerHello h) = Some ((''t'', String ''server_hello'') # server_hello_members h)"
| "frame_members voc (FRequest r) = map_option ((#) (''t'', String ''request'')) (request_members voc r)"
| "frame_members voc (FResponse r) = map_option ((#) (''t'', String ''response'')) (response_members voc r)"

definition frame_value :: "('req, 'resp) vocabulary \<Rightarrow> ('req, 'resp) Frame \<Rightarrow> Value option" where
  "frame_value voc f = map_option Object (frame_members voc f)"

section \<open>Reading\<close>

text \<open>
  A member is read from the one value under its name; two are an error, none is what its type
  makes of that.  Other members are passed over.
\<close>

definition member_or :: "'a option \<Rightarrow> (Value \<Rightarrow> 'a option) \<Rightarrow> string \<Rightarrow> (string \<times> Value) list \<Rightarrow> 'a option" where
  "member_or absent read k fs = (case values_of k fs of [] \<Rightarrow> absent | [v] \<Rightarrow> read v | _ \<Rightarrow> None)"

abbreviation member_of :: "(Value \<Rightarrow> 'a option) \<Rightarrow> string \<Rightarrow> (string \<times> Value) list \<Rightarrow> 'a option" where
  "member_of \<equiv> member_or None"

definition maybe :: "(Value \<Rightarrow> 'a option) \<Rightarrow> Value \<Rightarrow> 'a option option" where
  "maybe read v = (if v = Null then Some None else map_option Some (read v))"

fun struct_of :: "((string \<times> Value) list \<Rightarrow> 'a option) \<Rightarrow> (Value list \<Rightarrow> 'a option) \<Rightarrow> Value \<Rightarrow> 'a option" where
  "struct_of of_members of_array (Object fs) = of_members fs"
| "struct_of of_members of_array (Array vs) = of_array vs"
| "struct_of _ _ _ = None"

fun all_of :: "('a \<Rightarrow> 'b option) \<Rightarrow> 'a list \<Rightarrow> 'b list option" where
  "all_of read [] = Some []"
| "all_of read (v # vs) = do { x \<leftarrow> read v; xs \<leftarrow> all_of read vs; Some (x # xs) }"

fun nonce_of :: "Value \<Rightarrow> nonce option" where
  "nonce_of (Array vs) = (if length vs = 16 then all_of integer_of vs else None)"
| "nonce_of _ = None"

definition error_code_of :: "Value \<Rightarrow> ErrorCode option" where
  "error_code_of v = map_option ErrorCode (string_of v)"

definition error_body_of :: "(Value list \<Rightarrow> ErrorBody option) \<Rightarrow> Value \<Rightarrow> ErrorBody option" where
  "error_body_of of_array = struct_of (\<lambda>fs. do {
     c \<leftarrow> member_of error_code_of ''code'' fs;
     m \<leftarrow> member_of string_of ''message'' fs;
     r \<leftarrow> member_of bool_of ''retryable'' fs;
     Some \<lparr>code = c, message = m, retryable = r\<rparr> }) of_array"

definition peer_check_of :: "(Value list \<Rightarrow> PeerCheck option) \<Rightarrow> Value \<Rightarrow> PeerCheck option" where
  "peer_check_of of_array = struct_of (\<lambda>fs. do {
     m \<leftarrow> member_of string_of ''method'' fs;
     s \<leftarrow> member_of string_of ''subject'' fs;
     Some \<lparr>check_method = m, check_subject = s\<rparr> }) of_array"

definition hello_of :: "(string \<times> Value) list \<Rightarrow> Hello option" where
  "hello_of fs = do {
     major \<leftarrow> member_of integer_of ''proto_major'' fs;
     minor \<leftarrow> member_of integer_of ''proto_minor'' fs;
     version \<leftarrow> member_of string_of ''client_version'' fs;
     n \<leftarrow> member_of nonce_of ''nonce'' fs;
     Some \<lparr>proto_major = major, proto_minor = minor, client_version = version, hello_nonce = n\<rparr> }"

definition server_hello_of :: "('req, 'resp) positional \<Rightarrow> (string \<times> Value) list \<Rightarrow> ServerHello option" where
  "server_hello_of pos fs = do {
     ok \<leftarrow> member_of bool_of ''accepted'' fs;
     major \<leftarrow> member_of integer_of ''proto_major'' fs;
     minor \<leftarrow> member_of integer_of ''proto_minor'' fs;
     version \<leftarrow> member_of string_of ''helper_version'' fs;
     n \<leftarrow> member_of nonce_of ''nonce'' fs;
     peer \<leftarrow> member_of (peer_check_of (peer_check_of_array pos)) ''peer_check'' fs;
     why \<leftarrow> member_or (Some None) (maybe (error_body_of (error_body_of_array pos))) ''reject'' fs;
     Some \<lparr>accepted = ok, server_proto_major = major, server_proto_minor = minor, helper_version = version,
       server_nonce = n, server_peer_check = peer, reject = why\<rparr> }"

definition request_of_members :: "('req, 'resp) vocabulary \<Rightarrow> (string \<times> Value) list \<Rightarrow> 'req Request option" where
  "request_of_members voc fs = do {
     i \<leftarrow> member_of integer_of ''id'' fs;
     cmd \<leftarrow> member_or (absent_cmd voc) (cmd_of voc) ''cmd'' fs;
     Some \<lparr>req_id = i, req_cmd = cmd\<rparr> }"

text \<open>The variants of an untagged enum are tried in their order.\<close>

definition payload_of_members :: "('req, 'resp) vocabulary \<Rightarrow> ('req, 'resp) positional \<Rightarrow>
    (string \<times> Value) list \<Rightarrow> 'resp RespPayload option" where
  "payload_of_members voc pos fs =
     (case member_or (absent_reply voc) (reply_of voc) ''ok'' fs of
        Some reply \<Rightarrow> Some (RespOk reply)
      | None \<Rightarrow> map_option RespErr (member_of (error_body_of (error_body_of_array pos)) ''err'' fs))"

definition response_of_members :: "('req, 'resp) vocabulary \<Rightarrow> ('req, 'resp) positional \<Rightarrow>
    (string \<times> Value) list \<Rightarrow> 'resp Response option" where
  "response_of_members voc pos fs = do {
     i \<leftarrow> member_of integer_of ''id'' fs;
     payload \<leftarrow> payload_of_members voc pos (filter (\<lambda>f. fst f \<noteq> ''id'') fs);
     Some \<lparr>resp_id = i, resp_payload = payload\<rparr> }"

definition frame_of_members :: "('req, 'resp) vocabulary \<Rightarrow> ('req, 'resp) positional \<Rightarrow>
    (string \<times> Value) list \<Rightarrow> ('req, 'resp) Frame option" where
  "frame_of_members voc pos fs = do {
     t \<leftarrow> member_of string_of ''t'' fs;
     let rest = filter (\<lambda>f. fst f \<noteq> ''t'') fs;
     if t = ''hello'' then map_option FHello (hello_of rest)
     else if t = ''server_hello'' then map_option FServerHello (server_hello_of pos rest)
     else if t = ''request'' then map_option FRequest (request_of_members voc rest)
     else if t = ''response'' then map_option FResponse (response_of_members voc pos rest)
     else None }"

definition frame_of :: "('req, 'resp) vocabulary \<Rightarrow> ('req, 'resp) positional \<Rightarrow> Value \<Rightarrow> ('req, 'resp) Frame option" where
  "frame_of voc pos = struct_of (frame_of_members voc pos) (frame_of_array pos)"

text \<open>With a printer and a reader of values, the JSON of frames is what the channel sends and receives.\<close>

definition text_serde :: "(Value \<Rightarrow> bytes) \<Rightarrow> (bytes \<Rightarrow> Value option) \<Rightarrow> ('req, 'resp) vocabulary \<Rightarrow>
    ('req, 'resp) positional \<Rightarrow> (('req, 'resp) Frame \<Rightarrow> string) \<Rightarrow> ('req, 'resp) serde" where
  "text_serde print_value parse_value voc pos shown_frame =
     \<lparr>to_vec = (\<lambda>f. map_option print_value (frame_value voc f)),
      from_slice = (\<lambda>b. Option.bind (parse_value b) (frame_of voc pos)), debug = shown_frame\<rparr>"

section \<open>Lemmas\<close>

text \<open>A vocabulary that reads what it writes, and whose replies are never absent.\<close>

definition reads_back :: "('req, 'resp) vocabulary \<Rightarrow> bool" where
  "reads_back voc \<longleftrightarrow>
     (\<forall>c v. cmd_value voc c = Some v \<longrightarrow> cmd_of voc v = Some c) \<and>
     (\<forall>r v. reply_value voc r = Some v \<longrightarrow> reply_of voc v = Some r) \<and> absent_reply voc = None"

text \<open>The source's nonces are arrays of sixteen bytes.\<close>

fun whole_nonce :: "('req, 'resp) Frame \<Rightarrow> bool" where
  "whole_nonce (FHello h) = (length (hello_nonce h) = 16)"
| "whole_nonce (FServerHello h) = (length (server_nonce h) = 16)"
| "whole_nonce _ = True"

definition protocol_names :: "string list" where
  "protocol_names = [''t'', ''id'', ''cmd'', ''ok'', ''err'', ''accepted'', ''proto_major'', ''proto_minor'',
     ''client_version'', ''helper_version'', ''nonce'', ''peer_check'', ''reject'']"

lemma member_or_one: "values_of k fs = [v] \<Longrightarrow> member_or absent read k fs = read v"
  by (simp add: member_or_def)

lemma member_or_none: "values_of k fs = [] \<Longrightarrow> member_or absent read k fs = absent"
  by (simp add: member_or_def)

lemma values_back [simp]:
  "nonce_of (nonce_value n) = (if length n = 16 then Some n else None)"
  "error_code_of (error_code_value c) = Some c"
  "error_body_of of_array (error_body_value e) = Some e"
  "peer_check_of of_array' (peer_check_value p) = Some p"
proof -
  have "all_of integer_of (map integer (n :: bytes)) = Some n" by (induction n) simp_all
  then show "nonce_of (nonce_value n) = (if length n = 16 then Some n else None)" by (simp add: nonce_value_def)
  show code: "error_code_of (error_code_value c) = Some c" for c
    by (simp add: error_code_of_def error_code_value_def)
  show "error_body_of of_array (error_body_value e) = Some e"
    by (simp add: error_body_of_def error_body_value_def member_or_def code)
  show "peer_check_of of_array' (peer_check_value p) = Some p"
    by (simp add: peer_check_of_def peer_check_value_def member_or_def)
qed

lemma error_body_not_null [simp]: "error_body_value e \<noteq> Null"
  by (simp add: error_body_value_def)

lemma members_read:
  assumes "reads_back voc" and "whole_nonce f" and "frame_members voc f = Some fs"
    and "\<forall>k\<in>set protocol_names. values_of k gs = values_of k fs"
  shows "frame_of_members voc pos gs = Some f"
proof (cases f)
  case (FHello h)
  with assms show ?thesis
    by (auto simp: protocol_names_def hello_members_def frame_of_members_def hello_of_def member_or_def)
next
  case (FServerHello h)
  with assms show ?thesis
    by (cases "reject h") (auto simp: protocol_names_def server_hello_members_def frame_of_members_def
        server_hello_of_def member_or_def maybe_def)
next
  case (FRequest r)
  with assms show ?thesis
    by (auto simp: protocol_names_def request_members_def frame_of_members_def request_of_members_def
        member_or_def reads_back_def)
next
  case (FResponse r)
  with assms show ?thesis
    by (cases "resp_payload r") (auto simp: protocol_names_def response_members_def frame_of_members_def
        response_of_members_def payload_of_members_def member_or_def reads_back_def)
qed

section \<open>Properties\<close>

text \<open>
  C14: messages survive their JSON, also of another release.  A text whose object has, under each
  name the protocol uses, just the members that a frame is written with, in whatever order and
  among whatever others, is read as that frame.
\<close>

theorem frames_read_back:
  assumes "reads_back voc" and "whole_nonce f" and "frame_members voc f = Some fs"
    and "parse_value text = Some (Object gs)" and "\<forall>k\<in>set protocol_names. values_of k gs = values_of k fs"
  shows "from_slice (text_serde print_value parse_value voc pos shown_frame) text = Some f"
  using members_read [OF assms(1-3,5)] assms(4) by (simp add: text_serde_def frame_of_def)

text \<open>So a frame whose text is within the limit goes through the channel.\<close>

lemma text_fits:
  assumes "reads_back voc" and "whole_nonce f" and "frame_value voc f = Some v"
    and "parse_value (print_value v) = Some v" and "length (print_value v) \<le> MAX_FRAME_BYTES"
  shows "fits (text_serde print_value parse_value voc pos shown_frame) f"
proof -
  obtain fs where fs: "frame_members voc f = Some fs" "v = Object fs"
    using assms(3) by (auto simp: frame_value_def)
  then show ?thesis
    using members_read [OF assms(1,2) fs(1)] assms(3-5) by (simp add: fits_def text_serde_def frame_of_def)
qed

text \<open>
  A reply whose type has a value for an absent member, as an \<open>Option\<close> has, takes every refusal for
  that value: the untagged payload is read as the first variant.
\<close>

lemma absent_reply_hides_errors:
  assumes "absent_reply voc = Some reply" and "frame_value voc (FResponse r) = Some v" and "resp_payload r = RespErr e"
  shows "frame_of voc pos v = Some (FResponse \<lparr>resp_id = resp_id r, resp_payload = RespOk reply\<rparr>)"
  using assms by (auto simp: frame_value_def response_members_def frame_of_def frame_of_members_def
      response_of_members_def payload_of_members_def member_or_def)

text \<open>A response with both members is a success.\<close>

lemma both_members_succeed:
  assumes "reply_of voc v = Some reply"
  shows "frame_of voc pos (Object [(''t'', String ''response''), (''id'', integer i), (''err'', w), (''ok'', v)]) =
    Some (FResponse \<lparr>resp_id = i, resp_payload = RespOk reply\<rparr>)"
  using assms by (simp add: frame_of_def frame_of_members_def response_of_members_def payload_of_members_def member_or_def)

section \<open>Examples\<close>

text \<open>The vocabulary of an application whose commands and replies are \<open>()\<close>.\<close>

fun unit_of :: "Value \<Rightarrow> unit option" where
  "unit_of Null = Some ()"
| "unit_of _ = None"

definition unit_vocabulary :: "(unit, unit) vocabulary" where
  "unit_vocabulary = \<lparr>cmd_value = (\<lambda>_. Some Null), cmd_of = unit_of, absent_cmd = None,
     reply_value = (\<lambda>_. Some Null), reply_of = unit_of, absent_reply = None\<rparr>"

definition no_arrays :: "('req, 'resp) positional" where
  "no_arrays = \<lparr>frame_of_array = (\<lambda>_. None), peer_check_of_array = (\<lambda>_. None), error_body_of_array = (\<lambda>_. None)\<rparr>"

lemma unit_reads_back: "reads_back unit_vocabulary"
  by (simp add: reads_back_def unit_vocabulary_def)

theorem frames_read_back_witness:
  "let gs = [(''retry_after'', integer (3 :: u16)), (''err'', error_body_value (new_error_body busy ''x'')),
       (''t'', String ''response''), (''id'', integer (7 :: u64))]
   in from_slice (text_serde (\<lambda>_. []) (\<lambda>_. Some (Object gs)) unit_vocabulary no_arrays (\<lambda>_. [])) [1] =
     Some (FResponse \<lparr>resp_id = 7, resp_payload = RespErr (new_error_body busy ''x'')\<rparr>)"
  unfolding Let_def
  by (rule frames_read_back [OF unit_reads_back, where fs = "[(''t'', String ''response''), (''id'', integer (7 :: u64)),
          (''err'', error_body_value (new_error_body busy ''x''))]" and
        gs = "[(''retry_after'', integer (3 :: u16)), (''err'', error_body_value (new_error_body busy ''x'')),
          (''t'', String ''response''), (''id'', integer (7 :: u64))]"])
    (simp_all add: response_members_def protocol_names_def)

end
