(* ===== verification/MessageTests.thy ===== *)
theory MessageTests
  imports FrameJson Wire Transport "HOL-Library.Sublist"
begin

text \<open>
  The unit tests of \<open>envelope.rs\<close>, \<open>handshake.rs\<close>, \<open>framing.rs\<close>, \<open>endpoint.rs\<close>, \<open>peer_policy.rs\<close> and
  \<open>transport/mod.rs\<close> under \<open>toolkit/dovetail_privileged_channel/rust/src\<close>, run on the model: each is
  a predicate that says what the test asserts, and holds.  A text that a test compares is compared
  as the value it is the text of, an error by its constructor.
\<close>

section \<open>The envelope\<close>

record Vocabulario = nome :: string

definition vocabulario_value :: "Vocabulario \<Rightarrow> Value option" where
  "vocabulario_value v = Some (Object [(''nome'', String (nome v))])"

definition vocabulario_of :: "Value \<Rightarrow> Vocabulario option" where
  "vocabulario_of = struct_of (\<lambda>fs. map_option (\<lambda>s. \<lparr>nome = s\<rparr>) (member_of string_of ''nome'' fs)) (\<lambda>_. None)"

definition vocabulario :: "(Vocabulario, Vocabulario) vocabulary" where
  "vocabulario = \<lparr>cmd_value = vocabulario_value, cmd_of = vocabulario_of, absent_cmd = None,
     reply_value = vocabulario_value, reply_of = vocabulario_of, absent_reply = None\<rparr>"

definition o_envelope_ok_achata_o_payload :: bool where
  "o_envelope_ok_achata_o_payload \<longleftrightarrow>
     response_members vocabulario \<lparr>resp_id = 7, resp_payload = RespOk \<lparr>nome = ''x''\<rparr>\<rparr> =
       Some [(''id'', Number (PosInt 7)), (''ok'', Object [(''nome'', String ''x'')])]"

definition o_envelope_de_erro_carrega_codigo_e_retryable :: bool where
  "o_envelope_de_erro_carrega_codigo_e_retryable \<longleftrightarrow>
     (\<exists>fs v. response_members vocabulario \<lparr>resp_id = 1, resp_payload = erro busy ''ocupado'' True\<rparr> = Some fs \<and>
        object_get (Object fs) ''err'' = Some v \<and>
        object_get v ''code'' = Some (String ''BUSY'') \<and>
        object_get v ''retryable'' = Some (Bool True) \<and>
        object_get v ''message'' = Some (String ''ocupado''))"

definition o_codigo_atravessa_como_string_simples :: bool where
  "o_codigo_atravessa_como_string_simples \<longleftrightarrow>
     error_body_value (new_error_body peer_rejected ''assinatura nao confere'') =
       Object [(''code'', String ''PEER_REJECTED''), (''message'', String ''assinatura nao confere''),
               (''retryable'', Bool False)]"

definition o_app_pode_trazer_o_proprio_codigo :: bool where
  "o_app_pode_trazer_o_proprio_codigo \<longleftrightarrow>
     error_body_value (new_error_body (ErrorCode ''ENGINE_FAILURE'') ''o motor falhou'') =
       Object [(''code'', String ''ENGINE_FAILURE''), (''message'', String ''o motor falhou''),
               (''retryable'', Bool False)]"

definition codigo_desconhecido_atravessa_em_vez_de_ser_recusado :: bool where
  "codigo_desconhecido_atravessa_em_vez_de_ser_recusado \<longleftrightarrow>
     (\<exists>e. error_body_of (\<lambda>_. None) (Object [(''code'', String ''ALGO_NOVO''), (''message'', String ''m''),
            (''retryable'', Bool True)]) = Some e \<and>
        as_str (code e) = ''ALGO_NOVO'' \<and> retryable e)"

definition o_pedido_carrega_id_e_vocabulario :: bool where
  "o_pedido_carrega_id_e_vocabulario \<longleftrightarrow>
     request_members vocabulario \<lparr>req_id = 3, req_cmd = \<lparr>nome = ''y''\<rparr>\<rparr> =
       Some [(''id'', Number (PosInt 3)), (''cmd'', Object [(''nome'', String ''y'')])]"

lemma envelope_tests:
  "o_envelope_ok_achata_o_payload" "o_envelope_de_erro_carrega_codigo_e_retryable"
  "o_codigo_atravessa_como_string_simples" "o_app_pode_trazer_o_proprio_codigo"
  "codigo_desconhecido_atravessa_em_vez_de_ser_recusado" "o_pedido_carrega_id_e_vocabulario"
  by (simp_all add: o_envelope_ok_achata_o_payload_def o_envelope_de_erro_carrega_codigo_e_retryable_def
      o_codigo_atravessa_como_string_simples_def o_app_pode_trazer_o_proprio_codigo_def
      codigo_desconhecido_atravessa_em_vez_de_ser_recusado_def o_pedido_carrega_id_e_vocabulario_def
      response_members_def request_members_def vocabulario_def vocabulario_value_def integer_def
      error_body_value_def error_code_value_def new_error_body_def erro_def error_body_of_def
      error_code_of_def member_or_def busy_def peer_rejected_def)

section \<open>The frame\<close>

text \<open>The frame tests have a command of one text and a reply of one truth value.\<close>

record Res = ok_demais :: bool

definition res_value :: "Res \<Rightarrow> Value option" where
  "res_value r = Some (Object [(''ok_demais'', Bool (ok_demais r))])"

definition res_of :: "Value \<Rightarrow> Res option" where
  "res_of = struct_of (\<lambda>fs. map_option (\<lambda>b. \<lparr>ok_demais = b\<rparr>) (member_of bool_of ''ok_demais'' fs)) (\<lambda>_. None)"

definition cmd_res :: "(Vocabulario, Res) vocabulary" where
  "cmd_res = \<lparr>cmd_value = vocabulario_value, cmd_of = vocabulario_of, absent_cmd = None,
     reply_value = res_value, reply_of = res_of, absent_reply = None\<rparr>"

definition o_frame_e_etiquetado_por_t :: bool where
  "o_frame_e_etiquetado_por_t \<longleftrightarrow>
     (\<exists>v. frame_value cmd_res (FHello \<lparr>proto_major = 1, proto_minor = 1, client_version = ''0.1.0'',
            hello_nonce = replicate 16 0\<rparr>) = Some v \<and>
        object_get v ''t'' = Some (String ''hello''))"

definition o_frame_de_pedido_carrega_o_vocabulario_do_app :: bool where
  "o_frame_de_pedido_carrega_o_vocabulario_do_app \<longleftrightarrow>
     (\<exists>v c. frame_value cmd_res (FRequest \<lparr>req_id = 9, req_cmd = \<lparr>nome = ''p''\<rparr>\<rparr>) = Some v \<and>
        object_get v ''t'' = Some (String ''request'') \<and>
        object_get v ''id'' = Some (Number (PosInt 9)) \<and>
        object_get v ''cmd'' = Some c \<and> object_get c ''nome'' = Some (String ''p''))"

definition o_frame_de_resposta_achata_o_payload :: bool where
  "o_frame_de_resposta_achata_o_payload \<longleftrightarrow>
     (\<exists>v w. frame_value cmd_res (FResponse \<lparr>resp_id = 9, resp_payload = RespOk \<lparr>ok_demais = True\<rparr>\<rparr>) = Some v \<and>
        object_get v ''t'' = Some (String ''response'') \<and>
        object_get v ''ok'' = Some w \<and> object_get w ''ok_demais'' = Some (Bool True))"

definition server_hello_recusado_carrega_o_motivo :: bool where
  "server_hello_recusado_carrega_o_motivo \<longleftrightarrow>
     (let sh = \<lparr>accepted = False, server_proto_major = 1, server_proto_minor = 1, helper_version = ''0.1.0'',
                server_nonce = replicate 16 0,
                server_peer_check = \<lparr>check_method = ''peercred'', check_subject = ''uid=0''\<rparr>,
                reject = Some (new_error_body peer_rejected ''recusado'')\<rparr>;
          v = Object (server_hello_members sh)
      in object_get v ''accepted'' = Some (Bool False) \<and>
         Option.bind (object_get v ''reject'') (\<lambda>r. object_get r ''code'') = Some (String ''PEER_REJECTED''))"

definition ida_e_volta_de_um_pedido :: bool where
  "ida_e_volta_de_um_pedido \<longleftrightarrow>
     (let f = FRequest \<lparr>req_id = 1, req_cmd = \<lparr>nome = ''z''\<rparr>\<rparr>
      in \<exists>d r. Option.bind (frame_value cmd_res f) (frame_of cmd_res no_arrays) = Some d \<and>
           d = FRequest r \<and> req_cmd r = \<lparr>nome = ''z''\<rparr>)"

lemma frame_tests:
  "o_frame_e_etiquetado_por_t" "o_frame_de_pedido_carrega_o_vocabulario_do_app"
  "o_frame_de_resposta_achata_o_payload" "server_hello_recusado_carrega_o_motivo"
  "ida_e_volta_de_um_pedido"
  by (simp_all add: o_frame_e_etiquetado_por_t_def o_frame_de_pedido_carrega_o_vocabulario_do_app_def
      o_frame_de_resposta_achata_o_payload_def server_hello_recusado_carrega_o_motivo_def Let_def
      ida_e_volta_de_um_pedido_def frame_value_def cmd_res_def vocabulario_value_def res_value_def
      hello_members_def server_hello_members_def request_members_def response_members_def integer_def
      error_body_value_def error_code_value_def new_error_body_def peer_rejected_def
      frame_of_def frame_of_members_def request_of_members_def member_or_def vocabulario_of_def)

section \<open>Framing\<close>

text \<open>
  Two framers joined by a duplex: the other side hears what one has sent, and nothing more.  Where
  a test writes bytes, the codec cuts them.
\<close>

definition other_side :: "framer \<Rightarrow> framer" where
  "other_side fr = fresh_framer (map Arrives (sent fr) @ [Silent])"

definition received :: "('req, 'resp) serde \<Rightarrow> decoder \<Rightarrow> bool \<Rightarrow> bytes \<Rightarrow>
    (RecvError + ('req, 'resp) Frame option) option" where
  "received js decode hung_up written = fst (recv_frame js (fresh_framer (decode hung_up written)))"

definition o_frame_atravessa_o_canal_e_volta :: "(u8, u8) serde \<Rightarrow> bool" where
  "o_frame_atravessa_o_canal_e_volta js \<longleftrightarrow>
     (case send_frame js (FRequest \<lparr>req_id = 42, req_cmd = 5\<rparr>) (fresh_framer []) of
        (r, lado_a) \<Rightarrow> r = Ok () \<and>
          (\<exists>recebido. fst (recv_frame js (other_side lado_a)) = Some (Ok (Some (FRequest recebido))) \<and>
             req_id recebido = 42 \<and> req_cmd recebido = 5))"

definition a_resposta_volta_achatada :: "(u8, u8) serde \<Rightarrow> bool" where
  "a_resposta_volta_achatada js \<longleftrightarrow>
     (case send_frame js (FResponse \<lparr>resp_id = 1, resp_payload = RespOk 9\<rparr>) (fresh_framer []) of
        (r, lado_b) \<Rightarrow> r = Ok () \<and>
          (\<exists>recebido. fst (recv_frame js (other_side lado_b)) = Some (Ok (Some (FResponse recebido))) \<and>
             resp_payload recebido = RespOk 9))"

definition canal_fechado_devolve_none :: "(u8, u8) serde \<Rightarrow> decoder \<Rightarrow> bool" where
  "canal_fechado_devolve_none js decode \<longleftrightarrow> received js decode True [] = Some (Ok None)"

definition payload_maior_que_o_teto_e_recusado :: "(u8, u8) serde \<Rightarrow> decoder \<Rightarrow> bool" where
  "payload_maior_que_o_teto_e_recusado js decode \<longleftrightarrow>
     (let grande = replicate (MAX_FRAME_BYTES + 1) 0x78
      in received js decode False (to_be_bytes (of_nat (length grande)) @ grande) = Some (Err TooLarge))"

definition quebrado :: bytes where "quebrado = map of_char ''{ isso nao e json''"

definition json_quebrado_devolve_malformed :: "(u8, u8) serde \<Rightarrow> decoder \<Rightarrow> bool" where
  "json_quebrado_devolve_malformed js decode \<longleftrightarrow>
     received js decode False (to_be_bytes (of_nat (length quebrado)) @ quebrado) = Some (Err Malformed)"

definition frame_cortado_no_meio_devolve_io :: "(u8, u8) serde \<Rightarrow> decoder \<Rightarrow> bool" where
  "frame_cortado_no_meio_devolve_io js decode \<longleftrightarrow>
     (\<exists>e. received js decode True (to_be_bytes 100 @ replicate 10 0x7B) = Some (Err (RecvIo e)))"

definition frame_de_n_bytes :: "(string, u8) serde \<Rightarrow> nat \<Rightarrow> (string, u8) Frame" where
  "frame_de_n_bytes js whole =
     (let vazio = FRequest \<lparr>req_id = 1, req_cmd = []\<rparr>; overhead = length (the (to_vec js vazio))
      in FRequest \<lparr>req_id = 1, req_cmd = replicate (whole - overhead) CHR ''x''\<rparr>)"

definition frame_exatamente_no_teto_e_enviado :: "(string, u8) serde \<Rightarrow> bool" where
  "frame_exatamente_no_teto_e_enviado js \<longleftrightarrow>
     (let frame = frame_de_n_bytes js MAX_FRAME_BYTES
      in length (the (to_vec js frame)) = MAX_FRAME_BYTES \<and>
         (case send_frame js frame (fresh_framer []) of
            (r, lado_a) \<Rightarrow> r = Ok () \<and>
              (\<exists>recebido. fst (recv_frame js (other_side lado_a)) = Some (Ok (Some (FRequest recebido))) \<and>
                 req_id recebido = 1)))"

definition um_byte_acima_do_teto_e_recusado_e_nada_chega :: "(string, u8) serde \<Rightarrow> bool" where
  "um_byte_acima_do_teto_e_recusado_e_nada_chega js \<longleftrightarrow>
     (let frame = frame_de_n_bytes js (MAX_FRAME_BYTES + 1)
      in length (the (to_vec js frame)) > MAX_FRAME_BYTES \<and>
         (case send_frame js frame (fresh_framer []) of
            (r, lado_a) \<Rightarrow> (\<exists>limit. r = Err (SendError (MAX_FRAME_BYTES + 1) limit)) \<and>
              fst (recv_frame js (fresh_framer (map Arrives (sent lado_a) @ [Ends]))) = Some (Ok None)))"

definition o_erro_de_envio_diz_o_tamanho_e_o_teto :: "(string, u8) serde \<Rightarrow> bool" where
  "o_erro_de_envio_diz_o_tamanho_e_o_teto js \<longleftrightarrow>
     (let frame = frame_de_n_bytes js (MAX_FRAME_BYTES + 1); tamanho = length (the (to_vec js frame))
      in fst (send_frame js frame (fresh_framer [])) = Err (SendError tamanho MAX_FRAME_BYTES) \<and>
         sublist (show_nat tamanho) (send_error_display tamanho MAX_FRAME_BYTES) \<and>
         sublist (show_nat MAX_FRAME_BYTES) (send_error_display tamanho MAX_FRAME_BYTES))"

lemma framing_round_trips:
  "fits js (FRequest \<lparr>req_id = 42, req_cmd = 5\<rparr>) \<Longrightarrow> o_frame_atravessa_o_canal_e_volta js"
  "fits js (FResponse \<lparr>resp_id = 1, resp_payload = RespOk 9\<rparr>) \<Longrightarrow> a_resposta_volta_achatada js"
  by (auto simp: o_frame_atravessa_o_canal_e_volta_def a_resposta_volta_achatada_def send_frame_fits
      other_side_def recv_frame_def fresh_framer_def fits_def reliable_def split: option.splits)

lemma framing_bytes_tests:
  assumes codec: "length_delimited decode"
  shows "canal_fechado_devolve_none js decode" "payload_maior_que_o_teto_e_recusado js decode"
    and "from_slice js quebrado = None \<Longrightarrow> json_quebrado_devolve_malformed js decode"
    and "frame_cortado_no_meio_devolve_io js decode"
proof -
  show "canal_fechado_devolve_none js decode"
    using codec by (simp add: canal_fechado_devolve_none_def received_def recv_frame_def fresh_framer_def length_delimited_def)
  have "MAX_FRAME_BYTES < unat (of_nat (MAX_FRAME_BYTES + 1) :: u32)"
    by (simp add: unat_of_nat MAX_FRAME_BYTES_def)
  then have "decode False (to_be_bytes (of_nat (MAX_FRAME_BYTES + 1)) @ rest) = [OverLimit]" for rest
    by (rule decode_over [OF codec])
  then show "payload_maior_que_o_teto_e_recusado js decode"
    by (simp add: payload_maior_que_o_teto_e_recusado_def received_def recv_frame_def fresh_framer_def)
  have "length quebrado \<le> MAX_FRAME_BYTES" by (simp add: quebrado_def MAX_FRAME_BYTES_def)
  then have "decode False (framed quebrado @ []) = Arrives quebrado # decode False []"
    using codec unfolding length_delimited_def by blast
  then show "from_slice js quebrado = None \<Longrightarrow> json_quebrado_devolve_malformed js decode"
    by (simp add: json_quebrado_devolve_malformed_def received_def recv_frame_def fresh_framer_def framed_def)
  have "incomplete (to_be_bytes 100 @ replicate 10 0x7B)"
    by (simp add: incomplete_def MAX_FRAME_BYTES_def)
  then obtain e where "decode True (to_be_bytes 100 @ replicate 10 0x7B) = [Breaks e]"
    using codec unfolding length_delimited_def by blast
  then show "frame_cortado_no_meio_devolve_io js decode"
    by (simp add: frame_cortado_no_meio_devolve_io_def received_def recv_frame_def fresh_framer_def)
qed

text \<open>A printer that adds one byte for each further letter, as one of JSON does.\<close>

definition grows_by_letters :: "(string, u8) serde \<Rightarrow> nat \<Rightarrow> bool" where
  "grows_by_letters js overhead \<longleftrightarrow>
     (\<forall>n. \<exists>b. to_vec js (FRequest \<lparr>req_id = 1, req_cmd = replicate n CHR ''x''\<rparr>) = Some b \<and>
        length b = overhead + n \<and> from_slice js b = Some (FRequest \<lparr>req_id = 1, req_cmd = replicate n CHR ''x''\<rparr>))"

lemma frame_de_n_bytes_length:
  assumes "grows_by_letters js overhead" and "overhead \<le> whole"
  shows "\<exists>b. to_vec js (frame_de_n_bytes js whole) = Some b \<and> length b = whole \<and>
    from_slice js b = Some (frame_de_n_bytes js whole)"
    and "\<exists>r. frame_de_n_bytes js whole = FRequest r \<and> req_id r = 1"
proof -
  obtain b0 where "to_vec js (FRequest \<lparr>req_id = 1, req_cmd = replicate 0 CHR ''x''\<rparr>) = Some b0" "length b0 = overhead + 0"
    using assms(1) unfolding grows_by_letters_def by blast
  then have "frame_de_n_bytes js whole = FRequest \<lparr>req_id = 1, req_cmd = replicate (whole - overhead) CHR ''x''\<rparr>"
    by (simp add: frame_de_n_bytes_def)
  then show "\<exists>b. to_vec js (frame_de_n_bytes js whole) = Some b \<and> length b = whole \<and>
      from_slice js b = Some (frame_de_n_bytes js whole)"
    and "\<exists>r. frame_de_n_bytes js whole = FRequest r \<and> req_id r = 1"
    using assms unfolding grows_by_letters_def by (metis le_add_diff_inverse, simp)
qed

lemma framing_limit_tests:
  assumes "grows_by_letters js overhead" and "overhead \<le> MAX_FRAME_BYTES"
  shows "frame_exatamente_no_teto_e_enviado js" "um_byte_acima_do_teto_e_recusado_e_nada_chega js"
    "o_erro_de_envio_diz_o_tamanho_e_o_teto js"
proof -
  obtain b r where b: "to_vec js (frame_de_n_bytes js MAX_FRAME_BYTES) = Some b" "length b = MAX_FRAME_BYTES"
      "from_slice js b = Some (frame_de_n_bytes js MAX_FRAME_BYTES)"
    and r: "frame_de_n_bytes js MAX_FRAME_BYTES = FRequest r" "req_id r = 1"
    using frame_de_n_bytes_length [OF assms] by blast
  then show "frame_exatamente_no_teto_e_enviado js"
    by (simp add: frame_exatamente_no_teto_e_enviado_def send_frame_def other_side_def recv_frame_def fresh_framer_def)
  obtain c where c: "to_vec js (frame_de_n_bytes js (MAX_FRAME_BYTES + 1)) = Some c" "length c = MAX_FRAME_BYTES + 1"
    using frame_de_n_bytes_length(1) [OF assms(1), of "MAX_FRAME_BYTES + 1"] assms(2) by auto
  then show "um_byte_acima_do_teto_e_recusado_e_nada_chega js"
    by (simp add: um_byte_acima_do_teto_e_recusado_e_nada_chega_def send_frame_def recv_frame_def fresh_framer_def)
  have "sublist (show_nat n) (send_error_display n m)" for n m
    unfolding send_error_display_def by (rule sublist_appendI)
  moreover have "sublist (show_nat m) (send_error_display n m)" for n m
    using sublist_appendI [of "show_nat m" "''frame de '' @ show_nat n @ '' bytes excede o teto de ''" "'' bytes''"]
    by (simp only: send_error_display_def append_assoc)
  ultimately show "o_erro_de_envio_diz_o_tamanho_e_o_teto js"
    using c by (simp add: o_erro_de_envio_diz_o_tamanho_e_o_teto_def send_frame_def)
qed

section \<open>The endpoint and the policy\<close>

definition guarda_o_endereco_como_recebido :: bool where
  "guarda_o_endereco_como_recebido \<longleftrightarrow> address (new_endpoint ''/var/run/app/helper.sock'') = ''/var/run/app/helper.sock''"

definition the_endpoint_has_no_peer_policy_until_one_is_declared :: bool where
  "the_endpoint_has_no_peer_policy_until_one_is_declared \<longleftrightarrow>
     (let policy = allow_uid 1000 default_policy; bare = new_endpoint ''/var/run/app/helper.sock''
      in peer_policy bare = None \<and> peer_policy (with_peer_policy policy bare) = Some policy)"

definition o_diretorio_e_o_pai_do_socket :: bool where
  "o_diretorio_e_o_pai_do_socket \<longleftrightarrow> directory (new_endpoint ''/var/run/app/helper.sock'') = Some ''/var/run/app''"

definition socket_na_raiz_nao_tem_diretorio_de_pai :: bool where
  "socket_na_raiz_nao_tem_diretorio_de_pai \<longleftrightarrow> directory (new_endpoint ''/helper.sock'') = Some ''/''"

definition policy_user :: PeerCred where
  "policy_user = \<lparr>cred_pid = 4242, cred_uid = 1000, cred_gid = 1000\<rparr>"

definition without_a_policy_even_root_is_refused :: bool where
  "without_a_policy_even_root_is_refused \<longleftrightarrow>
     (\<exists>subject. judge None \<lparr>cred_pid = 1, cred_uid = 0, cred_gid = 0\<rparr> = Err (NoPolicy subject))"

definition a_policy_that_names_the_uid_admits_the_peer :: bool where
  "a_policy_that_names_the_uid_admits_the_peer \<longleftrightarrow>
     (\<exists>peer. judge (Some (allow_uid 1000 default_policy)) policy_user = Ok peer \<and>
        check_method peer = ''peercred+policy'' \<and> check_subject peer = ''pid=4242 uid=1000 gid=1000'')"

definition a_policy_that_names_neither_the_uid_nor_the_gid_refuses_the_peer :: bool where
  "a_policy_that_names_neither_the_uid_nor_the_gid_refuses_the_peer \<longleftrightarrow>
     judge (Some (allow_gid 27 (allow_uid 0 default_policy))) policy_user =
       Err (OutsidePolicy ''pid=4242 uid=1000 gid=1000'')"

definition the_gid_alone_admits_and_is_never_read_as_a_uid :: bool where
  "the_gid_alone_admits_and_is_never_read_as_a_uid \<longleftrightarrow>
     (let policy = allow_gid 1000 default_policy in admits policy 4321 1000 \<and> \<not> admits policy 1000 4321)"

definition without_a_policy_only_the_owner_reaches_the_socket :: bool where
  "without_a_policy_only_the_owner_reaches_the_socket \<longleftrightarrow>
     (let modes = socket_modes None in directory_mode modes = 0x1C0 \<and> socket_mode modes = 0x180)"

definition with_a_policy_every_local_user_reaches_the_socket :: bool where
  "with_a_policy_every_local_user_reaches_the_socket \<longleftrightarrow>
     (let modes = socket_modes (Some (allow_gid 1000 default_policy))
      in directory_mode modes = 0x1ED \<and> socket_mode modes = 0x1B6)"

lemma policy_user_subject: "subject_of policy_user = ''pid=4242 uid=1000 gid=1000''"
  by (simp add: subject_of_def policy_user_def show_int_def show_nat.simps digit_char_def)

lemma endpoint_tests:
  "guarda_o_endereco_como_recebido" "the_endpoint_has_no_peer_policy_until_one_is_declared"
  "o_diretorio_e_o_pai_do_socket" "socket_na_raiz_nao_tem_diretorio_de_pai"
  by (simp_all add: guarda_o_endereco_como_recebido_def new_endpoint_def directory_def with_peer_policy_def Let_def
      the_endpoint_has_no_peer_policy_until_one_is_declared_def o_diretorio_e_o_pai_do_socket_def
      socket_na_raiz_nao_tem_diretorio_de_pai_def path_parent_def)

lemma policy_tests:
  "without_a_policy_even_root_is_refused" "a_policy_that_names_the_uid_admits_the_peer"
  "a_policy_that_names_neither_the_uid_nor_the_gid_refuses_the_peer"
  "the_gid_alone_admits_and_is_never_read_as_a_uid"
  "without_a_policy_only_the_owner_reaches_the_socket" "with_a_policy_every_local_user_reaches_the_socket"
  by (simp_all add: without_a_policy_even_root_is_refused_def a_policy_that_names_the_uid_admits_the_peer_def
      a_policy_that_names_neither_the_uid_nor_the_gid_refuses_the_peer_def judge_def Let_def ensure_def
      the_gid_alone_admits_and_is_never_read_as_a_uid_def policy_user_subject
      without_a_policy_only_the_owner_reaches_the_socket_def with_a_policy_every_local_user_reaches_the_socket_def
      socket_modes_def admits_def allow_uid_def allow_gid_def default_policy_def)
    (simp_all add: policy_user_def)

section \<open>Admission\<close>

text \<open>A stream is the number 0; the client sees it closed when it is among those an operation closed.\<close>

definition the_app :: PeerCheck where
  "the_app = \<lparr>check_method = ''peercred'', check_subject = ''uid=501''\<rparr>"

definition a_refused_peer_is_not_an_io_error_and_its_connection_is_closed :: "peer_error \<Rightarrow> bool" where
  "a_refused_peer_is_not_an_io_error_and_its_connection_is_closed not_the_app \<longleftrightarrow>
     (case admit (0 :: nat) (\<lambda>_. Err not_the_app) of
        (refused, closed) \<Rightarrow> (\<exists>e. refused = Err (PeerRefused e)) \<and> 0 \<in> set closed)"

definition an_approved_peer_keeps_its_connection_and_its_check :: bool where
  "an_approved_peer_keeps_its_connection_and_its_check \<longleftrightarrow>
     (case admit (0 :: nat) (\<lambda>_. Ok the_app) of
        (approved, closed) \<Rightarrow> (\<exists>peer. approved = Ok (0, peer) \<and> check_subject peer = ''uid=501'') \<and> 0 \<notin> set closed)"

definition a_pipe_instance_that_failed_to_connect_is_closed :: "io_error \<Rightarrow> bool" where
  "a_pipe_instance_that_failed_to_connect_is_closed connect_failed \<longleftrightarrow>
     (case take_connected (Some (0 :: nat)) (Err connect_failed) of
        Some ((failed, closed), slot) \<Rightarrow> (\<exists>e. failed = Err (AcceptIo e)) \<and> slot = None \<and> 0 \<in> set closed
      | None \<Rightarrow> False)"

definition a_connected_pipe_instance_goes_to_the_caller_and_leaves_the_listener :: bool where
  "a_connected_pipe_instance_goes_to_the_caller_and_leaves_the_listener \<longleftrightarrow>
     (case take_connected (Some (0 :: nat)) (Ok ()) of
        Some ((connected, closed), slot) \<Rightarrow> connected = Ok 0 \<and> slot = None \<and> 0 \<notin> set closed
      | None \<Rightarrow> False)"

definition without_a_policy_the_peer_is_refused_and_disconnected :: bool where
  "without_a_policy_the_peer_is_refused_and_disconnected \<longleftrightarrow>
     (case admit_by_policy (0 :: nat) None (\<lambda>_. Ok policy_user) of
        (refused, closed) \<Rightarrow> (\<exists>e. refused = Err (PeerRefused e)) \<and> 0 \<in> set closed)"

definition a_peer_the_policy_admits_keeps_its_connection :: bool where
  "a_peer_the_policy_admits_keeps_its_connection \<longleftrightarrow>
     (case admit_by_policy (0 :: nat) (Some (allow_uid 1000 default_policy)) (\<lambda>_. Ok policy_user) of
        (admitted, closed) \<Rightarrow>
          (\<exists>peer. admitted = Ok (0, peer) \<and> check_subject peer = ''pid=4242 uid=1000 gid=1000'') \<and> 0 \<notin> set closed)"

lemma admission_tests:
  "a_refused_peer_is_not_an_io_error_and_its_connection_is_closed not_the_app"
  "an_approved_peer_keeps_its_connection_and_its_check"
  "a_pipe_instance_that_failed_to_connect_is_closed connect_failed"
  "a_connected_pipe_instance_goes_to_the_caller_and_leaves_the_listener"
  "without_a_policy_the_peer_is_refused_and_disconnected" "a_peer_the_policy_admits_keeps_its_connection"
  by (simp_all add: a_refused_peer_is_not_an_io_error_and_its_connection_is_closed_def admit_def the_app_def
      an_approved_peer_keeps_its_connection_and_its_check_def a_pipe_instance_that_failed_to_connect_is_closed_def
      a_connected_pipe_instance_goes_to_the_caller_and_leaves_the_listener_def take_connected_def
      without_a_policy_the_peer_is_refused_and_disconnected_def a_peer_the_policy_admits_keeps_its_connection_def
      admit_by_policy_def judge_def Let_def ensure_def policy_user_subject admits_def allow_uid_def default_policy_def)
    (simp_all add: policy_user_def)

end
