(* ===== verification/HandshakeTests.thy ===== *)
theory HandshakeTests
  imports MessageTests
begin

text \<open>
  The tests of the handshake, \<open>handshake_server_tests.rs\<close>, \<open>handshake_client_tests.rs\<close>,
  \<open>handshake_reject_tests.rs\<close> and \<open>handshake_half_close_tests.rs\<close> under
  \<open>toolkit/dovetail_privileged_channel/rust/src\<close>, run on the model for any JSON that lets the frames
  of the tests through.  A step that a test unwraps is part of what it asserts.
\<close>

type_synonym F = "(unit, unit) Frame"
type_synonym json_serde = "(unit, unit) serde"

section \<open>The server against a client\<close>

definition NONCE_DO_SERVIDOR :: nonce where "NONCE_DO_SERVIDOR = replicate 16 7"

definition servidor :: "u16 \<Rightarrow> u16 \<Rightarrow> ServerConfig" where
  "servidor major minor =
     \<lparr>server_major = major, server_minor = minor, config_helper_version = ''0.1.0'',
      peer_check = \<lparr>check_method = ''peercred'', check_subject = ''uid=0''\<rparr>\<rparr>"

definition test_hello :: "u16 \<Rightarrow> u16 \<Rightarrow> Hello" where
  "test_hello major minor =
     \<lparr>proto_major = major, proto_minor = minor, client_version = ''0.1.0'', hello_nonce = replicate 16 1\<rparr>"

definition apertar_a_mao :: "json_serde \<Rightarrow> Hello \<Rightarrow> ServerConfig \<Rightarrow> (ServerHandshakeResult \<times> ServerHello) option" where
  "apertar_a_mao js cliente config =
     (case send_frame js (FHello cliente) (fresh_framer []) of
        (Inr _, lado_cliente) \<Rightarrow>
          (case server_handshake js config NONCE_DO_SERVIDOR (other_side lado_cliente) of
             (Inr r, lado_servidor) \<Rightarrow>
               (case fst (recv_frame js (other_side lado_servidor)) of
                  Some (Inr (Some (FServerHello sh))) \<Rightarrow> Some (r, sh)
                | _ \<Rightarrow> None)
           | _ \<Rightarrow> None)
      | _ \<Rightarrow> None)"

definition servidor_versoes_iguais_sao_aceitas :: "json_serde \<Rightarrow> bool" where
  "servidor_versoes_iguais_sao_aceitas js \<longleftrightarrow>
     (\<exists>r sh. apertar_a_mao js (test_hello 1 2) (servidor 1 2) = Some (r, sh) \<and>
        result_accepted r \<and> negotiated_minor r = 2 \<and> accepted sh \<and>
        (server_proto_major sh, server_proto_minor sh) = (1, 2) \<and> reject sh = None \<and>
        server_nonce sh = NONCE_DO_SERVIDOR)"

definition servidor_minor_diferente_negocia_pelo_menor :: "json_serde \<Rightarrow> bool" where
  "servidor_minor_diferente_negocia_pelo_menor js \<longleftrightarrow>
     (\<exists>r sh. apertar_a_mao js (test_hello 1 5) (servidor 1 2) = Some (r, sh) \<and>
        (negotiated_minor r, server_proto_minor sh) = (2, 2)) \<and>
     (\<exists>r sh. apertar_a_mao js (test_hello 1 0) (servidor 1 2) = Some (r, sh) \<and>
        (negotiated_minor r, server_proto_minor sh) = (0, 0))"

definition servidor_major_diferente_e_recusado_com_o_motivo :: "json_serde \<Rightarrow> bool" where
  "servidor_major_diferente_e_recusado_com_o_motivo js \<longleftrightarrow>
     (\<exists>r sh motivo. apertar_a_mao js (test_hello 2 1) (servidor 1 1) = Some (r, sh) \<and>
        \<not> result_accepted r \<and> \<not> accepted sh \<and> reject sh = Some motivo \<and> code motivo = version_unsupported)"

definition a_recusa_de_versao_anuncia_a_versao_do_servidor :: "json_serde \<Rightarrow> bool" where
  "a_recusa_de_versao_anuncia_a_versao_do_servidor js \<longleftrightarrow>
     (\<exists>r sh. apertar_a_mao js (test_hello 2 0) (servidor 1 1) = Some (r, sh) \<and>
        \<not> result_accepted r \<and> (server_proto_major sh, server_proto_minor sh) = (1, 1))"

definition fim_do_fluxo_antes_do_hello :: "json_serde \<Rightarrow> decoder \<Rightarrow> bool" where
  "fim_do_fluxo_antes_do_hello js decode \<longleftrightarrow>
     fst (server_handshake js (servidor 1 1) NONCE_DO_SERVIDOR (fresh_framer (decode True []))) =
       Err (Handshake StreamEnded)"

definition pedido_antes_do_hello_e_recusado :: "json_serde \<Rightarrow> bool" where
  "pedido_antes_do_hello_e_recusado js \<longleftrightarrow>
     (case send_frame js (FRequest \<lparr>req_id = 1, req_cmd = ()\<rparr>) (fresh_framer []) of
        (sent_it, lado_cliente) \<Rightarrow> sent_it = Ok () \<and>
          (case server_handshake js (servidor 1 1) NONCE_DO_SERVIDOR (other_side lado_cliente) of
             (r, lado_servidor) \<Rightarrow>
               (\<exists>got. r = Err (Handshake (UnexpectedFrame ''Hello'' got))) \<and>
               (\<exists>sh recusa. fst (recv_frame js (other_side lado_servidor)) = Some (Ok (Some (FServerHello sh))) \<and>
                  \<not> accepted sh \<and> reject sh = Some recusa \<and> code recusa = handshake_required)))"

text \<open>\<open>NoDebug\<close> is a type without \<open>Debug\<close>: the server names the frame it got.\<close>

definition tipos_sem_debug_passam_pelo_handshake :: "json_serde \<Rightarrow> bool" where
  "tipos_sem_debug_passam_pelo_handshake js \<longleftrightarrow>
     (case send_frame js (FRequest \<lparr>req_id = 1, req_cmd = ()\<rparr>) (fresh_framer []) of
        (sent_it, lado_cliente) \<Rightarrow> sent_it = Ok () \<and>
          (\<exists>expected. fst (server_handshake js (servidor 1 1) (replicate 16 7) (other_side lado_cliente)) =
             Err (Handshake (UnexpectedFrame expected ''Request''))))"

lemma apertar_a_mao_answers:
  assumes "fits js (FHello cliente)" and "fits js (FServerHello (answer_hello config NONCE_DO_SERVIDOR cliente))"
  shows "apertar_a_mao js cliente config =
    Some (\<lparr>result_accepted = (proto_major cliente = server_major config),
        negotiated_minor = min (proto_minor cliente) (server_minor config), client_hello = cliente\<rparr>,
      answer_hello config NONCE_DO_SERVIDOR cliente)"
proof -
  let ?answer = "FServerHello (answer_hello config NONCE_DO_SERVIDOR cliente)"
  obtain b c where b: "to_vec js (FHello cliente) = Some b" "from_slice js b = Some (FHello cliente)"
    and c: "to_vec js ?answer = Some c" "from_slice js c = Some ?answer"
    using assms by (auto simp: fits_def split: option.splits)
  have hears: "recv_frame js (fresh_framer (Arrives x # rest)) = (Some (Ok (Some f)), fresh_framer rest)"
    if "from_slice js x = Some f" for x f rest
    using that by (simp add: recv_frame_def fresh_framer_def)
  have "send_frame js (FHello cliente) (fresh_framer []) = (Ok (), (fresh_framer [])\<lparr>sent := [b]\<rparr>)"
    using send_frame_fits [OF assms(1) reliable_fresh] b by (simp add: fresh_framer_def)
  moreover have "send_frame js ?answer (fresh_framer [Silent]) = (Ok (), (fresh_framer [Silent])\<lparr>sent := [c]\<rparr>)"
    using send_frame_fits [OF assms(2) reliable_fresh] c by (simp add: fresh_framer_def)
  ultimately show ?thesis
    using b c by (simp add: apertar_a_mao_def server_handshake_def read_hello_def other_side_def hears)
qed

lemma request_refused:
  assumes "fits js (FRequest \<lparr>req_id = 1, req_cmd = ()\<rparr>)"
    and "fits js (FServerHello (refusal_hello (servidor 1 1) nonce (new_error_body handshake_required ''Request recebido antes do Hello'')))"
  shows "\<exists>lado_cliente lado_servidor.
    send_frame js (FRequest \<lparr>req_id = 1, req_cmd = ()\<rparr>) (fresh_framer []) = (Ok (), lado_cliente) \<and>
    server_handshake js (servidor 1 1) nonce (other_side lado_cliente) =
      (Err (Handshake (UnexpectedFrame ''Hello'' ''Request'')), lado_servidor) \<and>
    fst (recv_frame js (other_side lado_servidor)) = Some (Ok (Some (FServerHello
      (refusal_hello (servidor 1 1) nonce (new_error_body handshake_required ''Request recebido antes do Hello'')))))"
  using assms
  by (auto simp: fits_def send_frame_def fresh_framer_def other_side_def server_handshake_def read_hello_def
      recv_frame_def hello_failure_def unexpected_def split: option.splits)

lemma server_tests:
  shows "(\<And>f. f \<in> {FHello (test_hello 1 2), FServerHello (answer_hello (servidor 1 2) NONCE_DO_SERVIDOR (test_hello 1 2))} \<Longrightarrow>
      fits js f) \<Longrightarrow> servidor_versoes_iguais_sao_aceitas js"
    and "(\<And>f. f \<in> {FHello (test_hello 1 5), FServerHello (answer_hello (servidor 1 2) NONCE_DO_SERVIDOR (test_hello 1 5)),
      FHello (test_hello 1 0), FServerHello (answer_hello (servidor 1 2) NONCE_DO_SERVIDOR (test_hello 1 0))} \<Longrightarrow> fits js f) \<Longrightarrow>
      servidor_minor_diferente_negocia_pelo_menor js"
    and "(\<And>f. f \<in> {FHello (test_hello 2 1), FServerHello (answer_hello (servidor 1 1) NONCE_DO_SERVIDOR (test_hello 2 1))} \<Longrightarrow>
      fits js f) \<Longrightarrow> servidor_major_diferente_e_recusado_com_o_motivo js"
    and "(\<And>f. f \<in> {FHello (test_hello 2 0), FServerHello (answer_hello (servidor 1 1) NONCE_DO_SERVIDOR (test_hello 2 0))} \<Longrightarrow>
      fits js f) \<Longrightarrow> a_recusa_de_versao_anuncia_a_versao_do_servidor js"
  by (simp_all add: servidor_versoes_iguais_sao_aceitas_def servidor_minor_diferente_negocia_pelo_menor_def
      servidor_major_diferente_e_recusado_com_o_motivo_def a_recusa_de_versao_anuncia_a_versao_do_servidor_def
      apertar_a_mao_answers)
    (simp_all add: test_hello_def servidor_def answer_hello_def version_refusal_def new_error_body_def)

lemma server_opening_tests:
  shows "length_delimited decode \<Longrightarrow> fim_do_fluxo_antes_do_hello js decode"
    and "(\<And>f. f \<in> {FRequest \<lparr>req_id = 1, req_cmd = ()\<rparr>, FServerHello (refusal_hello (servidor 1 1) NONCE_DO_SERVIDOR
      (new_error_body handshake_required ''Request recebido antes do Hello''))} \<Longrightarrow> fits js f) \<Longrightarrow>
      pedido_antes_do_hello_e_recusado js \<and> tipos_sem_debug_passam_pelo_handshake js"
proof -
  show "length_delimited decode \<Longrightarrow> fim_do_fluxo_antes_do_hello js decode"
    by (simp add: length_delimited_def fim_do_fluxo_antes_do_hello_def server_handshake_def read_hello_def
        recv_frame_def fresh_framer_def hello_failure_def)
  assume fit: "\<And>f. f \<in> {FRequest \<lparr>req_id = 1, req_cmd = ()\<rparr>, FServerHello (refusal_hello (servidor 1 1) NONCE_DO_SERVIDOR
      (new_error_body handshake_required ''Request recebido antes do Hello''))} \<Longrightarrow> fits js f"
  have "fits js (FRequest \<lparr>req_id = 1, req_cmd = ()\<rparr>)" by (rule fit) simp
  from request_refused [OF this, of NONCE_DO_SERVIDOR] fit obtain lado_cliente lado_servidor where
    "send_frame js (FRequest \<lparr>req_id = 1, req_cmd = ()\<rparr>) (fresh_framer []) = (Ok (), lado_cliente)"
    "server_handshake js (servidor 1 1) NONCE_DO_SERVIDOR (other_side lado_cliente) =
      (Err (Handshake (UnexpectedFrame ''Hello'' ''Request'')), lado_servidor)"
    "fst (recv_frame js (other_side lado_servidor)) = Some (Ok (Some (FServerHello
      (refusal_hello (servidor 1 1) NONCE_DO_SERVIDOR (new_error_body handshake_required ''Request recebido antes do Hello'')))))"
    by auto
  then show "pedido_antes_do_hello_e_recusado js \<and> tipos_sem_debug_passam_pelo_handshake js"
    by (simp add: pedido_antes_do_hello_e_recusado_def tipos_sem_debug_passam_pelo_handshake_def
        refusal_hello_def new_error_body_def NONCE_DO_SERVIDOR_def)
qed

section \<open>The client against a server\<close>

definition cliente :: "u16 \<Rightarrow> u16 \<Rightarrow> ClientConfig" where
  "cliente major minor = \<lparr>client_major = major, client_minor = minor, config_client_version = ''0.1.0''\<rparr>"

text \<open>The client runs after the server whose answer it hears; \<open>None\<close> is a server that failed.\<close>

definition contra_o_servidor :: "json_serde \<Rightarrow> ClientConfig \<Rightarrow> ServerConfig \<Rightarrow>
    (channel_error + ClientHandshakeResult) option" where
  "contra_o_servidor js c s =
     (case server_handshake js s (replicate 16 7)
             (other_side (snd (send_frame js (FHello (client_hello_frame c (replicate 16 1))) (fresh_framer [])))) of
        (Inr _, lado_servidor) \<Rightarrow> Some (fst (client_handshake js c (replicate 16 1) (other_side lado_servidor)))
      | _ \<Rightarrow> None)"

text \<open>A server that reads the hello, answers what it is told to, if anything, and is dropped.\<close>

definition contra_um_servidor_que_responde :: "json_serde \<Rightarrow> ServerHello option \<Rightarrow> HandshakeError option" where
  "contra_um_servidor_que_responde js resposta =
     (let lado_servidor = (case resposta of
            None \<Rightarrow> fresh_framer []
          | Some sh \<Rightarrow> snd (send_frame js (FServerHello sh) (fresh_framer [])))
      in (case fst (client_handshake js (cliente 1 1) (replicate 16 1)
                 (fresh_framer (map Arrives (sent lado_servidor) @ [Ends]))) of
            Inl (Handshake e) \<Rightarrow> Some e
          | _ \<Rightarrow> None))"

definition cliente_versoes_iguais_sao_aceitas :: "json_serde \<Rightarrow> bool" where
  "cliente_versoes_iguais_sao_aceitas js \<longleftrightarrow>
     (\<exists>r. contra_o_servidor js (cliente 1 2) (servidor 1 2) = Some (Ok r) \<and>
        accepted (ClientHandshakeResult.server_hello r) \<and> client_negotiated_minor r = 2)"

definition cliente_minor_diferente_negocia_pelo_menor :: "json_serde \<Rightarrow> bool" where
  "cliente_minor_diferente_negocia_pelo_menor js \<longleftrightarrow>
     (\<exists>r. contra_o_servidor js (cliente 1 5) (servidor 1 1) = Some (Ok r) \<and> client_negotiated_minor r = 1) \<and>
     (\<exists>r. contra_o_servidor js (cliente 1 0) (servidor 1 2) = Some (Ok r) \<and> client_negotiated_minor r = 0)"

definition cliente_major_diferente_e_recusado_com_o_motivo :: "json_serde \<Rightarrow> bool" where
  "cliente_major_diferente_e_recusado_com_o_motivo js \<longleftrightarrow>
     (\<exists>r. contra_o_servidor js (cliente 2 1) (servidor 1 1) = Some (Err (Handshake (Rejected (Some r)))) \<and>
        as_str (code r) = ''VERSION_UNSUPPORTED'' \<and> sublist ''major 2'' (message r))"

definition fim_do_fluxo_antes_do_server_hello :: "json_serde \<Rightarrow> bool" where
  "fim_do_fluxo_antes_do_server_hello js \<longleftrightarrow> contra_um_servidor_que_responde js None = Some StreamEnded"

definition outro_major :: ServerHello where
  "outro_major = \<lparr>accepted = True, server_proto_major = 2, server_proto_minor = 0, helper_version = ''9.0.0'',
     server_nonce = replicate 16 7,
     server_peer_check = \<lparr>check_method = ''peercred'', check_subject = ''uid=0''\<rparr>, reject = None\<rparr>"

definition servidor_que_aceita_outro_major_e_recusado :: "json_serde \<Rightarrow> bool" where
  "servidor_que_aceita_outro_major_e_recusado js \<longleftrightarrow>
     contra_um_servidor_que_responde js (Some outro_major) = Some (VersionMismatch 1 2)"

definition servidor_mudo_estoura_o_prazo :: "json_serde \<Rightarrow> bool" where
  "servidor_mudo_estoura_o_prazo js \<longleftrightarrow>
     fst (client_handshake js (cliente 1 1) (replicate 16 1) (fresh_framer [Silent])) = Err (Handshake TimedOut)"

definition cliente_contra_a_recusa :: "json_serde \<Rightarrow> ErrorBody option \<Rightarrow> HandshakeError option" where
  "cliente_contra_a_recusa js motivo =
     (let recusa = \<lparr>accepted = False, server_proto_major = 1, server_proto_minor = 1, helper_version = ''0.1.0'',
            server_nonce = replicate 16 7, server_peer_check = peer_check (servidor 1 1), reject = motivo\<rparr>
      in (case send_frame js (FServerHello recusa) (fresh_framer []) of
            (Inr _, lado_servidor) \<Rightarrow>
              (case fst (client_handshake js (cliente 1 1) (replicate 16 1) (other_side lado_servidor)) of
                 Inl (Handshake e) \<Rightarrow> Some e
               | _ \<Rightarrow> None)
          | _ \<Rightarrow> None))"

definition o_cliente_guarda_o_codigo_que_o_servidor_mandou :: "json_serde \<Rightarrow> bool" where
  "o_cliente_guarda_o_codigo_que_o_servidor_mandou js \<longleftrightarrow>
     (\<exists>e r. cliente_contra_a_recusa js (Some (new_error_body peer_rejected ''assinatura nao confere'')) = Some e \<and>
        sublist ''assinatura nao confere'' (display_handshake_error e) \<and>
        e = Rejected (Some r) \<and> code r = peer_rejected)"

definition recusa_sem_corpo_diz_que_nao_ha_motivo :: "json_serde \<Rightarrow> bool" where
  "recusa_sem_corpo_diz_que_nao_ha_motivo js \<longleftrightarrow>
     (\<exists>e. cliente_contra_a_recusa js None = Some e \<and>
        sublist ''sem motivo informado'' (display_handshake_error e) \<and> e = Rejected None)"

lemma contra_o_servidor_judges:
  assumes "fits js (FHello (client_hello_frame c (replicate 16 1)))"
    and "fits js (FServerHello (answer_hello s (replicate 16 7) (client_hello_frame c (replicate 16 1))))"
  shows "contra_o_servidor js c s =
    Some (client_judge c (answer_hello s (replicate 16 7) (client_hello_frame c (replicate 16 1))))"
  using assms
  by (auto simp: contra_o_servidor_def fits_def send_frame_def fresh_framer_def other_side_def client_handshake_def
      server_handshake_def read_hello_def recv_frame_def split: option.splits)

text \<open>What the client makes of a server hello that arrives after its own hello went out.\<close>

lemma client_hears:
  assumes "fits js (FHello (client_hello_frame c n))" and "fits js (FServerHello sh)"
  shows "\<exists>fr. send_frame js (FServerHello sh) (fresh_framer []) = (Ok (), fr) \<and>
    fst (client_handshake js c n (fresh_framer (map Arrives (sent fr) @ rest))) = client_judge c sh"
  using assms
  by (auto simp: fits_def send_frame_def fresh_framer_def client_handshake_def recv_frame_def split: option.splits)

lemma client_tests:
  shows "(\<And>f. f \<in> {FHello (client_hello_frame (cliente 1 2) (replicate 16 1)),
      FServerHello (answer_hello (servidor 1 2) (replicate 16 7) (client_hello_frame (cliente 1 2) (replicate 16 1)))} \<Longrightarrow>
      fits js f) \<Longrightarrow> cliente_versoes_iguais_sao_aceitas js"
    and "(\<And>f. f \<in> {FHello (client_hello_frame (cliente 1 5) (replicate 16 1)), FHello (client_hello_frame (cliente 1 0) (replicate 16 1)),
      FServerHello (answer_hello (servidor 1 1) (replicate 16 7) (client_hello_frame (cliente 1 5) (replicate 16 1))),
      FServerHello (answer_hello (servidor 1 2) (replicate 16 7) (client_hello_frame (cliente 1 0) (replicate 16 1)))} \<Longrightarrow>
      fits js f) \<Longrightarrow> cliente_minor_diferente_negocia_pelo_menor js"
  by (simp_all add: cliente_versoes_iguais_sao_aceitas_def cliente_minor_diferente_negocia_pelo_menor_def
      contra_o_servidor_judges)
    (simp_all add: cliente_def client_hello_frame_def servidor_def answer_hello_def client_judge_def)

lemma client_refusal_tests:
  shows "(\<And>f. f \<in> {FHello (client_hello_frame (cliente 2 1) (replicate 16 1)),
      FServerHello (answer_hello (servidor 1 1) (replicate 16 7) (client_hello_frame (cliente 2 1) (replicate 16 1)))} \<Longrightarrow>
      fits js f) \<Longrightarrow> cliente_major_diferente_e_recusado_com_o_motivo js"
    and "fits js (FHello (client_hello_frame (cliente 1 1) (replicate 16 1))) \<Longrightarrow>
      fim_do_fluxo_antes_do_server_hello js \<and> servidor_mudo_estoura_o_prazo js"
    and "fits js (FHello (client_hello_frame (cliente 1 1) (replicate 16 1))) \<Longrightarrow> fits js (FServerHello outro_major) \<Longrightarrow>
      servidor_que_aceita_outro_major_e_recusado js"
proof -
  show "cliente_major_diferente_e_recusado_com_o_motivo js"
    if "\<And>f. f \<in> {FHello (client_hello_frame (cliente 2 1) (replicate 16 1)),
      FServerHello (answer_hello (servidor 1 1) (replicate 16 7) (client_hello_frame (cliente 2 1) (replicate 16 1)))} \<Longrightarrow> fits js f"
  proof -
    have "show_nat 2 = ''2''" by code_simp
    then have "sublist ''major 2'' (message (version_refusal (servidor 1 1) (client_hello_frame (cliente 2 1) (replicate 16 1))))"
      using sublist_appendI [of "''major 2''" "''protocolo ''"]
      by (simp add: version_refusal_def client_hello_frame_def cliente_def new_error_body_def)
    then show ?thesis
      using that by (simp add: cliente_major_diferente_e_recusado_com_o_motivo_def contra_o_servidor_judges)
        (simp add: cliente_def client_hello_frame_def servidor_def answer_hello_def client_judge_def
          version_refusal_def new_error_body_def version_unsupported_def)
  qed
  show "fits js (FHello (client_hello_frame (cliente 1 1) (replicate 16 1))) \<Longrightarrow>
      fim_do_fluxo_antes_do_server_hello js \<and> servidor_mudo_estoura_o_prazo js"
    by (auto simp: fim_do_fluxo_antes_do_server_hello_def servidor_mudo_estoura_o_prazo_def fits_def send_frame_def
        contra_um_servidor_que_responde_def client_handshake_def recv_frame_def fresh_framer_def split: option.splits)
  show "servidor_que_aceita_outro_major_e_recusado js"
    if "fits js (FHello (client_hello_frame (cliente 1 1) (replicate 16 1)))" "fits js (FServerHello outro_major)"
    using client_hears [OF that, of "[Ends]"]
    by (auto simp: servidor_que_aceita_outro_major_e_recusado_def contra_um_servidor_que_responde_def
        client_judge_def outro_major_def cliente_def)
qed

lemma client_reason_tests:
  assumes "fits js (FHello (client_hello_frame (cliente 1 1) (replicate 16 1)))"
    and "\<And>why. why \<in> {None, Some (new_error_body peer_rejected ''assinatura nao confere'')} \<Longrightarrow>
      fits js (FServerHello \<lparr>accepted = False, server_proto_major = 1, server_proto_minor = 1, helper_version = ''0.1.0'',
            server_nonce = replicate 16 7, server_peer_check = peer_check (servidor 1 1), reject = why\<rparr>)"
  shows "o_cliente_guarda_o_codigo_que_o_servidor_mandou js" "recusa_sem_corpo_diz_que_nao_ha_motivo js"
proof -
  have told: "cliente_contra_a_recusa js why = Some (Rejected why)"
    if "why \<in> {None, Some (new_error_body peer_rejected ''assinatura nao confere'')}" for why
    using client_hears [OF assms(1) assms(2) [OF that], of "[Silent]"]
    by (auto simp: cliente_contra_a_recusa_def other_side_def client_judge_def)
  have "sublist ''assinatura nao confere''
      (display_handshake_error (Rejected (Some (new_error_body peer_rejected ''assinatura nao confere''))))"
    using sublist_appendI [of "''assinatura nao confere''" "''handshake recusado pelo servidor: ''" "[]"]
    by (simp add: new_error_body_def)
  then show "o_cliente_guarda_o_codigo_que_o_servidor_mandou js"
    using told by (simp add: o_cliente_guarda_o_codigo_que_o_servidor_mandou_def) (simp add: new_error_body_def)
  have "sublist ''sem motivo informado'' (display_handshake_error (Rejected None))"
    using sublist_appendI [of "''sem motivo informado''" "''handshake recusado pelo servidor: ''" "[]"] by simp
  then show "recusa_sem_corpo_diz_que_nao_ha_motivo js"
    using told by (simp add: recusa_sem_corpo_diz_que_nao_ha_motivo_def)
qed

section \<open>Refusals on the wire\<close>

text \<open>
  A client writes bytes and waits, or closes its side; then what the server concludes and the code
  of the refusal the client reads.  Where nothing is refused, or another frame arrives, the test
  panics.
\<close>

definition servidor_depois_de :: "json_serde \<Rightarrow> decoder \<Rightarrow> bool \<Rightarrow> bytes \<Rightarrow> (channel_error \<times> ErrorCode option) option" where
  "servidor_depois_de js decode closed written =
     (case server_handshake js (servidor 1 1) (replicate 16 7) (fresh_framer (decode closed written)) of
        (Inl e, lado_servidor) \<Rightarrow>
          (case fst (recv_frame js (fresh_framer (map Arrives (sent lado_servidor) @ [Ends]))) of
             Some (Inr None) \<Rightarrow> Some (e, None)
           | Some (Inr (Some (FServerHello sh))) \<Rightarrow>
               (if accepted sh then None else map_option (\<lambda>why. (e, Some (code why))) (reject sh))
           | _ \<Rightarrow> None)
      | _ \<Rightarrow> None)"

definition cliente_mudo_estoura_o_prazo :: "json_serde \<Rightarrow> decoder \<Rightarrow> bool" where
  "cliente_mudo_estoura_o_prazo js decode \<longleftrightarrow>
     servidor_depois_de js decode False [] = Some (Handshake TimedOut, Some handshake_required)"

definition json_malformado_e_recusado_no_fio :: "json_serde \<Rightarrow> decoder \<Rightarrow> bool" where
  "json_malformado_e_recusado_no_fio js decode \<longleftrightarrow>
     servidor_depois_de js decode False (framed quebrado) = Some (channel_error.Recv Malformed, Some malformed_frame)"

definition frame_acima_do_teto_e_recusado_no_fio :: "json_serde \<Rightarrow> decoder \<Rightarrow> bool" where
  "frame_acima_do_teto_e_recusado_no_fio js decode \<longleftrightarrow>
     servidor_depois_de js decode False (to_be_bytes (of_nat MAX_FRAME_BYTES + 1)) =
       Some (channel_error.Recv TooLarge, Some frame_too_large)"

definition resposta_no_lugar_do_hello_e_recusada :: "json_serde \<Rightarrow> decoder \<Rightarrow> bool" where
  "resposta_no_lugar_do_hello_e_recusada js decode \<longleftrightarrow>
     (\<exists>resposta expected got. to_vec js (FResponse \<lparr>resp_id = 1, resp_payload = RespOk ()\<rparr>) = Some resposta \<and>
        servidor_depois_de js decode False (framed resposta) =
          Some (Handshake (UnexpectedFrame expected got), Some malformed_frame))"

text \<open>The client is gone: the server's refusal cannot be written.\<close>

definition falha_ao_mandar_a_recusa_nao_esconde_o_erro_original :: "json_serde \<Rightarrow> io_error \<Rightarrow> bool" where
  "falha_ao_mandar_a_recusa_nao_esconde_o_erro_original js broken \<longleftrightarrow>
     (case send_frame js (FRequest \<lparr>req_id = 1, req_cmd = ()\<rparr>) (fresh_framer []) of
        (sent_it, lado_cliente) \<Rightarrow> sent_it = Ok () \<and>
          (\<exists>expected got. fst (server_handshake js (servidor 1 1) (replicate 16 7)
             \<lparr>inbound = map Arrives (sent lado_cliente) @ [Ends], sent = [], send_fault = (\<lambda>_. Some broken)\<rparr>) =
             Err (Handshake (UnexpectedFrame expected got))))"

definition fluxo_que_acaba_antes_do_hello_recebe_handshake_required :: "json_serde \<Rightarrow> decoder \<Rightarrow> bool" where
  "fluxo_que_acaba_antes_do_hello_recebe_handshake_required js decode \<longleftrightarrow>
     servidor_depois_de js decode True [] = Some (Handshake StreamEnded, Some handshake_required)"

definition cortado :: bytes where "cortado = to_be_bytes 100 @ map of_char (CHR ''{'' # CHR 0x22 # ''t'' @ [CHR 0x22])"

definition frame_cortado_no_meio_recebe_handshake_required :: "json_serde \<Rightarrow> decoder \<Rightarrow> bool" where
  "frame_cortado_no_meio_recebe_handshake_required js decode \<longleftrightarrow>
     (\<exists>e. servidor_depois_de js decode True cortado = Some (channel_error.Recv (RecvIo e), Some handshake_required))"

text \<open>Whatever the opening, the client reads the code of the refusal it gets.\<close>

lemma refusal_is_read:
  assumes "decode closed written = a # rest" and "read_hello js (fresh_framer (a # rest)) = (Err (e, why), fresh_framer rest)"
    and "fits js (FServerHello (refusal_hello (servidor 1 1) (replicate 16 7) why))"
  shows "servidor_depois_de js decode closed written = Some (e, Some (code why))"
proof -
  let ?refusal = "FServerHello (refusal_hello (servidor 1 1) (replicate 16 7) why) :: F"
  obtain b where b: "to_vec js ?refusal = Some b" "from_slice js b = Some ?refusal"
    using assms(3) by (auto simp: fits_def split: option.splits)
  have "send_frame js ?refusal (fresh_framer rest) = (Ok (), (fresh_framer rest)\<lparr>sent := [b]\<rparr>)"
    using send_frame_fits [OF assms(3) reliable_fresh] b(1) by (simp add: fresh_framer_def)
  then show ?thesis
    using assms(1,2) b
    by (simp add: servidor_depois_de_def server_handshake_def recv_frame_def fresh_framer_def)
      (simp add: refusal_hello_def)
qed

lemma read_hello_first:
  "read_hello js (fresh_framer (Silent # rest)) = (Err (Handshake TimedOut, new_error_body handshake_required
     ''handshake nao recebido dentro do prazo''), fresh_framer rest)"
  "read_hello js (fresh_framer (Ends # rest)) = (Err (Handshake StreamEnded, new_error_body handshake_required
     ''conexao fechada antes do handshake''), fresh_framer rest)"
  "read_hello js (fresh_framer (Breaks e # rest)) = (Err (channel_error.Recv (RecvIo e), new_error_body handshake_required
     ''conexao interrompida antes do handshake''), fresh_framer rest)"
  "read_hello js (fresh_framer (OverLimit # rest)) = (Err (channel_error.Recv TooLarge, new_error_body frame_too_large
     ''frame de handshake acima do teto''), fresh_framer rest)"
  "from_slice js b = None \<Longrightarrow> read_hello js (fresh_framer (Arrives b # rest)) = (Err (channel_error.Recv Malformed,
     new_error_body malformed_frame ''frame de handshake malformado''), fresh_framer rest)"
  "from_slice js b = Some (FResponse r) \<Longrightarrow> read_hello js (fresh_framer (Arrives b # rest)) =
     (Err (Handshake (UnexpectedFrame ''Hello'' ''Response''), new_error_body malformed_frame
       ''primeiro frame deve ser Hello''), fresh_framer rest)"
  by (simp_all add: read_hello_def recv_frame_def fresh_framer_def hello_failure_def unexpected_def)

lemma code_new_error_body [simp]: "code (new_error_body c m) = c"
  by (simp add: new_error_body_def)

lemma refusal_tests:
  assumes codec: "length_delimited decode"
    and fit: "\<And>c m. (c, m) \<in> {(handshake_required, ''handshake nao recebido dentro do prazo''),
        (handshake_required, ''conexao fechada antes do handshake''), (handshake_required, ''conexao interrompida antes do handshake''),
        (frame_too_large, ''frame de handshake acima do teto''), (malformed_frame, ''frame de handshake malformado''),
        (malformed_frame, ''primeiro frame deve ser Hello'')} \<Longrightarrow>
      fits js (FServerHello (refusal_hello (servidor 1 1) (replicate 16 7) (new_error_body c m)))"
  shows "cliente_mudo_estoura_o_prazo js decode" "frame_acima_do_teto_e_recusado_no_fio js decode"
    "fluxo_que_acaba_antes_do_hello_recebe_handshake_required js decode"
    "frame_cortado_no_meio_recebe_handshake_required js decode"
    "from_slice js quebrado = None \<Longrightarrow> json_malformado_e_recusado_no_fio js decode"
    "fits js (FResponse \<lparr>resp_id = 1, resp_payload = RespOk ()\<rparr>) \<Longrightarrow> resposta_no_lugar_do_hello_e_recusada js decode"
proof -
  have first: "decode False [] = [Silent]" "decode True [] = [Ends]"
      "decode False (to_be_bytes (of_nat MAX_FRAME_BYTES + 1)) = [OverLimit]"
    using codec decode_over(1) [OF codec, of "of_nat MAX_FRAME_BYTES + 1" False]
    by (simp_all add: length_delimited_def) (simp add: MAX_FRAME_BYTES_def)
  have one: "decode False (framed b) = [Arrives b, Silent]" if "length b \<le> MAX_FRAME_BYTES" for b
    using decode_frames [OF codec, of "[b]" False "[]"] that first(1) by simp
  show "cliente_mudo_estoura_o_prazo js decode" unfolding cliente_mudo_estoura_o_prazo_def
    using refusal_is_read [where decode = decode, OF first(1) read_hello_first(1) [of js "[]"] fit] by simp
  show "frame_acima_do_teto_e_recusado_no_fio js decode" unfolding frame_acima_do_teto_e_recusado_no_fio_def
    using refusal_is_read [where decode = decode, OF first(3) read_hello_first(4) [of js "[]"] fit] by simp
  show "fluxo_que_acaba_antes_do_hello_recebe_handshake_required js decode"
    unfolding fluxo_que_acaba_antes_do_hello_recebe_handshake_required_def
    using refusal_is_read [where decode = decode, OF first(2) read_hello_first(2) [of js "[]"] fit] by simp
  have "incomplete cortado" by (simp add: incomplete_def cortado_def MAX_FRAME_BYTES_def)
  then obtain e where e: "decode True cortado = [Breaks e]" using codec unfolding length_delimited_def by blast
  show "frame_cortado_no_meio_recebe_handshake_required js decode"
    unfolding frame_cortado_no_meio_recebe_handshake_required_def
    using refusal_is_read [where decode = decode, OF e read_hello_first(3) [of js e "[]"] fit] by simp
  show "json_malformado_e_recusado_no_fio js decode" if "from_slice js quebrado = None"
    unfolding json_malformado_e_recusado_no_fio_def
    using refusal_is_read [where decode = decode, OF one read_hello_first(5) [OF that, of "[Silent]"] fit]
    by (simp add: quebrado_def MAX_FRAME_BYTES_def)
  show "resposta_no_lugar_do_hello_e_recusada js decode" if f: "fits js (FResponse \<lparr>resp_id = 1, resp_payload = RespOk ()\<rparr>)"
  proof -
    obtain b where b: "to_vec js (FResponse \<lparr>resp_id = 1, resp_payload = RespOk ()\<rparr>) = Some b" "length b \<le> MAX_FRAME_BYTES"
        "from_slice js b = Some (FResponse \<lparr>resp_id = 1, resp_payload = RespOk ()\<rparr>)"
      using f by (auto simp: fits_def split: option.splits)
    show ?thesis unfolding resposta_no_lugar_do_hello_e_recusada_def
      using refusal_is_read [where decode = decode, OF one [OF b(2)] read_hello_first(6) [OF b(3), of "[Silent]"] fit] b(1) by simp
  qed
qed

lemma lost_refusal_test:
  assumes "fits js (FRequest \<lparr>req_id = 1, req_cmd = ()\<rparr>)"
  shows "falha_ao_mandar_a_recusa_nao_esconde_o_erro_original js broken"
  using assms
  by (auto simp: falha_ao_mandar_a_recusa_nao_esconde_o_erro_original_def fits_def send_frame_def fresh_framer_def
      server_handshake_def read_hello_def recv_frame_def hello_failure_def unexpected_def split: option.splits)

end
