(* ===== verification/TransportTests.thy ===== *)
theory TransportTests
  imports Framing Transport Server
begin

text \<open>
  The unit tests of the Unix transports, the nonce, the macOS peer check and the log of refusals, run
  on the model: those of \<open>transport/linux.rs\<close>, \<open>transport/macos.rs\<close>, \<open>nonce.rs\<close> and \<open>peer_auth.rs\<close> of
  the channel and of \<open>refusal_log.rs\<close> of the daemon.  Left out are the tests that draw nonces from the
  system and compare them.
\<close>

section \<open>The modes of a bound socket\<close>

text \<open>A machine with a temporary directory, and the directory a test makes under it.\<close>

definition test_machine :: host where
  "test_machine = example_host
     [''/'' \<mapsto> \<lparr>kind = Directory, node_uid = 0, node_gid = 0, node_mode = 0x1ED, content = []\<rparr>,
      ''/tmp'' \<mapsto> \<lparr>kind = Directory, node_uid = 0, node_gid = 0, node_mode = 0x3FF, content = []\<rparr>] 501"

definition test_base :: string where "test_base = ''/tmp/d''"
definition test_socket :: string where "test_socket = ''/tmp/d/helper.sock''"

definition modo_de :: "string \<Rightarrow> host \<Rightarrow> u32 option" where
  "modo_de path h = map_option (\<lambda>n. node_mode n AND 0x1FF) (files h path)"

definition without_a_policy_the_socket_stays_with_its_owner :: bool where
  "without_a_policy_the_socket_stays_with_its_owner \<longleftrightarrow>
     (case linux_bind (new_endpoint test_socket) test_machine of
        (socket_listener, h) \<Rightarrow> is_ok socket_listener \<and> modo_de test_base h = Some 0x1C0 \<and> modo_de test_socket h = Some 0x180)"

definition with_a_policy_every_local_user_reaches_the_linux_socket :: bool where
  "with_a_policy_every_local_user_reaches_the_linux_socket \<longleftrightarrow>
     (case linux_bind (with_peer_policy (allow_gid 1000 default_policy) (new_endpoint test_socket)) test_machine of
        (socket_listener, h) \<Rightarrow> is_ok socket_listener \<and> modo_de test_base h = Some 0x1ED \<and> modo_de test_socket h = Some 0x1B6)"

definition aplica_o_modo_do_perfil_no_diretorio_e_no_socket :: "bool \<Rightarrow> bool" where
  "aplica_o_modo_do_perfil_no_diretorio_e_no_socket dbg \<longleftrightarrow>
     (case create_dir_all test_base test_machine of (made, h) \<Rightarrow>
        (case set_dir_mode dbg test_base h of (opened, h) \<Rightarrow>
           (case write_file test_socket [] h of (written, h1) \<Rightarrow>
              (case harden_socket_permissions dbg test_socket h1 of (hardened, h1) \<Rightarrow>
                 is_ok made \<and> is_ok opened \<and> modo_de test_base h = Some (DIR_MODE dbg) \<and>
                 is_ok written \<and> is_ok hardened \<and> modo_de test_socket h1 = Some (SOCKET_MODE dbg)))))"

definition bind_cria_o_socket_no_endereco_dado :: "bool \<Rightarrow> bool" where
  "bind_cria_o_socket_no_endereco_dado dbg \<longleftrightarrow>
     (let endpoint = new_endpoint test_socket
      in case mac_bind dbg endpoint test_machine of
           (socket_listener, h) \<Rightarrow> is_ok socket_listener \<and> fst (path_exists (address endpoint) h) \<and>
             modo_de test_base h = Some (DIR_MODE dbg) \<and>
             modo_de (address endpoint) h = Some (SOCKET_MODE dbg))"

lemma test_paths:
  "path_parent test_socket = Some test_base" "ancestors test_base = [''/tmp'', ''/'']" "ancestors ''/'' = []"
  "test_socket \<noteq> test_base" "test_base \<noteq> test_socket" "test_base \<noteq> []" "test_base \<noteq> ''/''" "test_base \<noteq> ''/tmp''"
  "test_socket \<noteq> ''/''" "test_socket \<noteq> ''/tmp''"
  by (simp_all add: test_socket_def test_base_def path_parent_def Let_def ancestors.simps)

lemmas bind_test_defs =
  io_bind_def io_return_def create_dir_all_def set_permissions_def remove_existing_def path_exists_def
  bind_socket_def write_file_def fs_op_def is_dir_at_def new_node_def example_host_def test_machine_def modo_de_def

lemma bind_tests:
  "without_a_policy_the_socket_stays_with_its_owner" "with_a_policy_every_local_user_reaches_the_linux_socket"
  "aplica_o_modo_do_perfil_no_diretorio_e_no_socket dbg" "bind_cria_o_socket_no_endereco_dado dbg"
  by (simp_all add: without_a_policy_the_socket_stays_with_its_owner_def
      with_a_policy_every_local_user_reaches_the_linux_socket_def aplica_o_modo_do_perfil_no_diretorio_e_no_socket_def
      bind_cria_o_socket_no_endereco_dado_def linux_bind_def mac_bind_def prepare_socket_path_def
      prepare_socket_path_macos_def set_mode_def set_dir_mode_def harden_socket_permissions_def new_endpoint_def
      with_peer_policy_def socket_modes_def Let_def test_paths bind_test_defs DIR_MODE_def SOCKET_MODE_def)

section \<open>The nonce\<close>

text \<open>What opening the two generators of the tests gives: an empty device, and no file.\<close>

definition open_generator :: "string \<Rightarrow> io_error + bytes" where
  "open_generator path = (if path = ''/dev/null'' then Ok [] else Err NotFound)"

definition a_generator_that_runs_dry_is_an_error :: bool where
  "a_generator_that_runs_dry_is_an_error \<longleftrightarrow> read_nonce open_generator ''/dev/null'' = Err unexpected_eof"

definition a_missing_generator_is_an_error :: bool where
  "a_missing_generator_is_an_error \<longleftrightarrow> read_nonce open_generator ''/no/such/urandom'' = Err NotFound"

lemma nonce_tests: "a_generator_that_runs_dry_is_an_error" "a_missing_generator_is_an_error"
  by (simp_all add: a_generator_that_runs_dry_is_an_error_def a_missing_generator_is_an_error_def read_nonce_def
      open_generator_def)

section \<open>The peer check of macOS without a requirement\<close>

text \<open>A peer whose user and group the system knows, over each build.\<close>

definition em_debug_o_peer_e_aceito_sem_codesign :: "'s mac_system \<Rightarrow> 's \<Rightarrow> bool" where
  "em_debug_o_peer_e_aceito_sem_codesign sys socket_do_peer \<longleftrightarrow> is_ok (verify_peer_macos True sys socket_do_peer)"

definition em_release_o_peer_e_recusado_sem_codesign :: "'s mac_system \<Rightarrow> 's \<Rightarrow> bool" where
  "em_release_o_peer_e_recusado_sem_codesign sys socket_do_peer \<longleftrightarrow>
     \<not> is_ok (verify_peer_macos False sys socket_do_peer)"

lemma mac_peer_tests:
  assumes "is_ok (getpeereid sys (raw_fd sys socket_do_peer))"
  shows "em_debug_o_peer_e_aceito_sem_codesign sys socket_do_peer"
    and "em_release_o_peer_e_recusado_sem_codesign sys socket_do_peer"
  using assms
  by (cases "getpeereid sys (raw_fd sys socket_do_peer)";
      auto simp: em_debug_o_peer_e_aceito_sem_codesign_def em_release_o_peer_e_recusado_sem_codesign_def
        verify_peer_macos_def verify_code_def)+

section \<open>The log of refusals\<close>

text \<open>Moments in milliseconds from any start; the window of the tests is a minute.\<close>

definition WINDOW :: nat where "WINDOW = 60000"

definition the_first_refusal_gets_a_line :: "nat \<Rightarrow> bool" where
  "the_first_refusal_gets_a_line start \<longleftrightarrow> fst (refused start (new_refusal_log WINDOW)) = Some 0"

definition refusals_inside_the_window_get_no_line_and_are_counted :: "nat \<Rightarrow> bool" where
  "refusals_inside_the_window_get_no_line_and_are_counted start \<longleftrightarrow>
     (let (_, log) = refused start (new_refusal_log WINDOW);
          (second, log) = refused (start + 1000) log;
          (third, log) = refused (start + 59000) log
      in second = None \<and> third = None \<and> silenced log = 2)"

definition the_first_refusal_once_the_window_is_over_gets_a_line_with_the_count :: "nat \<Rightarrow> bool" where
  "the_first_refusal_once_the_window_is_over_gets_a_line_with_the_count start \<longleftrightarrow>
     (let (_, log) = refused start (new_refusal_log WINDOW);
          (_, log) = refused (start + 1000) log;
          (_, log) = refused (start + 2000) log;
          (over, log) = refused (start + WINDOW) log
      in over = Some 2 \<and> silenced log = 0)"

definition the_next_window_starts_at_the_line_that_closed_the_last_one :: "nat \<Rightarrow> bool" where
  "the_next_window_starts_at_the_line_that_closed_the_last_one start \<longleftrightarrow>
     (let (_, log) = refused start (new_refusal_log WINDOW);
          (_, log) = refused (start + WINDOW + 30000) log
      in fst (refused (start + WINDOW * 2) log) = None)"

lemma refusal_log_tests:
  "the_first_refusal_gets_a_line start" "refusals_inside_the_window_get_no_line_and_are_counted start"
  "the_first_refusal_once_the_window_is_over_gets_a_line_with_the_count start"
  "the_next_window_starts_at_the_line_that_closed_the_last_one start"
  by (simp_all add: the_first_refusal_gets_a_line_def refusals_inside_the_window_get_no_line_and_are_counted_def
      the_first_refusal_once_the_window_is_over_gets_a_line_with_the_count_def
      the_next_window_starts_at_the_line_that_closed_the_last_one_def refused_def new_refusal_log_def WINDOW_def)

end
