(* ===== verification/XpcTests.thy ===== *)
theory XpcTests
  imports XpcChannel
begin

text \<open>
  The tests of the XPC transport, \<open>xpc_stream_tests.rs\<close>, \<open>xpc_tests.rs\<close>, \<open>xpc_connection_tests.rs\<close> and
  \<open>xpc_refusal_tests.rs\<close> under \<open>toolkit/dovetail_privileged_channel/rust/src\<close>, run on the model with
  what the system delivers in each of them: what one end sends arrives at the other, a peer that does
  not meet the requirement gives that error, and the end of the other side the other one.  Left out
  are the tests of the process number and of the time a flush takes.
\<close>

section \<open>An anonymous listener and a peer of it\<close>

text \<open>The listener of the tests has no name; a nul in the requirement would stop the test.\<close>

definition anonymous :: "string option \<Rightarrow> string + xpc_world" where
  "anonymous wanted = listen None wanted"

text \<open>The tests' own end of the connection, and that end with what it was sent.\<close>

definition to_endpoint :: "nat \<Rightarrow> XpcConnection \<times> bytes mpsc" where
  "to_endpoint r = (adopt r, sink)"

definition carried :: "xpc_call list \<Rightarrow> xpc_event list" where
  "carried cs = map (\<lambda>b. Dictionary (Some b)) (payloads cs)"

definition deliver_all :: "nat \<Rightarrow> xpc_event list \<Rightarrow> bytes mpsc \<Rightarrow> bytes mpsc" where
  "deliver_all r es ch = fold (\<lambda>e ch. fst (route_event r e ch)) es ch"

text \<open>
  A peer of the listener, number 7: whether the system took the requirement for it, what was
  delivered on its connection, and the connection as the listener accepts it.
\<close>

definition accepted_peer :: "string option \<Rightarrow> bool \<Rightarrow> xpc_event list \<Rightarrow> (XpcConnection \<times> bytes mpsc) option" where
  "accepted_peer wanted fits es =
     (case anonymous wanted of
        Inr w \<Rightarrow>
          (case accept (on_event (NewPeer 7 fits) w) of
             (Ready (Some conn), w1) \<Rightarrow> map_option (\<lambda>ch. (conn, deliver_all 7 es ch)) (contexts w1 7)
           | _ \<Rightarrow> None)
      | Inl _ \<Rightarrow> None)"

section \<open>Streams\<close>

text \<open>The first read of so many bytes, as \<open>read_exact\<close> takes them from what has arrived.\<close>

fun read_exact :: "nat \<Rightarrow> nat \<Rightarrow> XpcConnection \<Rightarrow> bytes mpsc \<Rightarrow> (bytes \<times> XpcConnection \<times> bytes mpsc) option" where
  "read_exact 0 n conn ch = (if n = 0 then Some ([], conn, ch) else None)"
| "read_exact (Suc fuel) n conn ch =
     (if n = 0 then Some ([], conn, ch)
      else case poll_read n conn ch of
             (Ready bytes, conn1, ch1) \<Rightarrow>
               (if bytes = [] then None
                else map_option (\<lambda>(more, rest). (bytes @ more, rest)) (read_exact fuel (n - length bytes) conn1 ch1))
           | (Pending, _) \<Rightarrow> None)"

definition digits :: bytes where "digits = map of_char ''0123456789''"

definition one_message_is_read_across_two_reads_in_order :: bool where
  "one_message_is_read_across_two_reads_in_order \<longleftrightarrow>
     (case accepted_peer None True (carried (snd (poll_write digits (fst (to_endpoint 1))))) of
        Some (served, ch) \<Rightarrow>
          (case read_exact 4 4 served ch of
             Some (head, served, ch) \<Rightarrow>
               (case read_exact 6 6 served ch of
                  Some (tail, _) \<Rightarrow> head = take 4 digits \<and> tail = drop 4 digits
                | None \<Rightarrow> False)
           | None \<Rightarrow> False)
      | None \<Rightarrow> False)"

definition bytes_written_in_two_messages_arrive_as_one_stream :: bool where
  "bytes_written_in_two_messages_arrive_as_one_stream \<longleftrightarrow>
     (let peer = fst (to_endpoint 1); abc = [97, 98, 99]; def' = [100, 101, 102]
      in case accepted_peer None True (carried (snd (poll_write abc peer) @ snd (poll_write def' peer))) of
           Some (served, ch) \<Rightarrow> map_option fst (read_exact 6 6 served ch) = Some (abc @ def')
         | None \<Rightarrow> False)"

definition a_peer_that_goes_away_reads_as_end_of_stream :: bool where
  "a_peer_that_goes_away_reads_as_end_of_stream \<longleftrightarrow>
     (case accepted_peer None True (carried (snd (poll_write [0x78] (fst (to_endpoint 1))))) of
        Some (served, ch) \<Rightarrow>
          (case read_exact 1 1 served ch of
             Some (first, served, ch) \<Rightarrow> first = [0x78] \<and>
               fst (poll_read 1 served (deliver_all 7 [XpcError False] ch)) = Ready []
           | None \<Rightarrow> False)
      | None \<Rightarrow> False)"

section \<open>Messages, requirements and refusals\<close>

definition a_message_reaches_the_listener_and_its_reply_reaches_the_peer :: "bytes \<Rightarrow> bytes \<Rightarrow> bool" where
  "a_message_reaches_the_listener_and_its_reply_reaches_the_peer said answer \<longleftrightarrow>
     (let (peer, inbound) = to_endpoint 1
      in case accepted_peer None True (carried (send said peer)) of
           Some (served, ch) \<Rightarrow>
             fst (recv served ch) = Ready (Some said) \<and>
             fst (recv peer (deliver_all 1 (carried (send answer served)) inbound)) = Ready (Some answer)
         | None \<Rightarrow> False)"

definition a_peer_the_requirement_does_not_name_gets_no_message_through :: bool where
  "a_peer_the_requirement_does_not_name_gets_no_message_through \<longleftrightarrow>
     (case accepted_peer (Some ''anchor apple'') True [XpcError True] of
        Some (served, ch) \<Rightarrow> fst (recv served ch) = Ready None
      | None \<Rightarrow> False)"

definition a_peer_whose_cdhash_the_requirement_pins_is_heard :: "string \<Rightarrow> bytes \<Rightarrow> bool" where
  "a_peer_whose_cdhash_the_requirement_pins_is_heard requirement command \<longleftrightarrow>
     (case accepted_peer (Some requirement) True (carried (send command (fst (to_endpoint 1)))) of
        Some (served, ch) \<Rightarrow> fst (recv served ch) = Ready (Some command)
      | None \<Rightarrow> False)"

definition a_requirement_that_does_not_parse_refuses_every_peer :: bool where
  "a_requirement_that_does_not_parse_refuses_every_peer \<longleftrightarrow>
     (case anonymous (Some ''not a requirement ('') of
        Inr w \<Rightarrow> fst (accept (on_event (NewPeer 7 False) w)) = Pending
      | Inl _ \<Rightarrow> False)"

definition a_mach_service_launchd_does_not_know_ends_the_accept_stream :: bool where
  "a_mach_service_launchd_does_not_know_ends_the_accept_stream \<longleftrightarrow>
     (case mach_service ''com.example.dovetail.absent'' ''anchor apple'' of
        Inr w \<Rightarrow> fst (accept (on_event ListenerError w)) = Ready None
      | Inl _ \<Rightarrow> False)"

definition a_client_of_a_service_launchd_does_not_know_sees_the_connection_close :: bool where
  "a_client_of_a_service_launchd_does_not_know_sees_the_connection_close \<longleftrightarrow>
     (case connect_service ''com.example.dovetail.absent'' 1 of
        Inr (client, inbound, _) \<Rightarrow> fst (recv client (deliver_all 1 [XpcError False] inbound)) = Ready None
      | Inl _ \<Rightarrow> False)"

definition a_service_name_with_a_nul_byte_is_refused_before_it_reaches_launchd :: bool where
  "a_service_name_with_a_nul_byte_is_refused_before_it_reaches_launchd \<longleftrightarrow>
     \<not> is_ok (connect_service (''com.example'' @ CHR 0x00 # ''helper'') 1)"

text \<open>The other end hears nothing: what is sent to a peer that was cancelled comes back as its end.\<close>

definition a_refused_peer_hears_nothing_the_daemon_writes_back :: bool where
  "a_refused_peer_hears_nothing_the_daemon_writes_back \<longleftrightarrow>
     (let (peer, inbound) = to_endpoint 1
      in case accepted_peer (Some ''anchor apple'') True [XpcError True] of
           Some (served, ch) \<Rightarrow>
             fst (recv served ch) = Ready None \<and> snd (route_event 7 (XpcError True) sink) = [Cancel 7] \<and>
             fst (recv peer (deliver_all 1 [XpcError False] inbound)) = Ready None
         | None \<Rightarrow> False)"

definition a_named_service_with_no_requirement_is_refused_by_the_shim :: bool where
  "a_named_service_with_no_requirement_is_refused_by_the_shim \<longleftrightarrow>
     dovetail_xpc_listen (Some ''com.example.dovetail.unchecked'') None = None"

lemmas xpc_test_defs = accepted_peer_def anonymous_def listen_def dovetail_xpc_listen_def hand_over_def accept_def
  poll_recv_def did_def adopt_def sink_def to_endpoint_def carried_def deliver_all_def deliver_bytes_def Let_def
  recv_def send_def mach_service_def connect_service_def open_connection_def c_text_def

lemma stream_tests:
  "one_message_is_read_across_two_reads_in_order" "bytes_written_in_two_messages_arrive_as_one_stream"
  "a_peer_that_goes_away_reads_as_end_of_stream"
  by code_simp+

lemma refused_service_tests:
  "a_peer_the_requirement_does_not_name_gets_no_message_through"
  "a_requirement_that_does_not_parse_refuses_every_peer"
  "a_mach_service_launchd_does_not_know_ends_the_accept_stream"
  "a_client_of_a_service_launchd_does_not_know_sees_the_connection_close"
  "a_service_name_with_a_nul_byte_is_refused_before_it_reaches_launchd"
  "a_refused_peer_hears_nothing_the_daemon_writes_back"
  "a_named_service_with_no_requirement_is_refused_by_the_shim"
  by code_simp+

lemma message_tests:
  "said \<noteq> [] \<Longrightarrow> answer \<noteq> [] \<Longrightarrow>
     a_message_reaches_the_listener_and_its_reply_reaches_the_peer said answer"
  "command \<noteq> [] \<Longrightarrow> a_peer_whose_cdhash_the_requirement_pins_is_heard requirement command"
  by (simp_all add: a_message_reaches_the_listener_and_its_reply_reaches_the_peer_def
      a_peer_whose_cdhash_the_requirement_pins_is_heard_def xpc_test_defs)

end
