(* ===== verification/ServiceTests.thy ===== *)
theory ServiceTests
  imports LinuxService MacService PlistRequirement
begin

text \<open>
  The unit tests of the daemon's modes and services, run on the model: those of \<open>mode.rs\<close>,
  \<open>exit_codes.rs\<close>, \<open>plist_requirement_tests.rs\<close>, \<open>plist_trust_tests.rs\<close>, \<open>service/systemd_tests.rs\<close>,
  \<open>service/systemd_state_tests.rs\<close> and \<open>service/macos.rs\<close> under
  \<open>toolkit/dovetail_privileged_daemon/rust/src\<close>.  Each predicate says what its test asserts, and
  holds.
\<close>

section \<open>Modes and exit codes\<close>

definition bandeiras_mapeiam_para_o_modo_correto :: bool where
  "bandeiras_mapeiam_para_o_modo_correto \<longleftrightarrow>
     mode_from_iter [''--install''] = Install \<and> mode_from_iter [''--register-service''] = Install \<and>
     mode_from_iter [''--uninstall''] = Uninstall \<and> mode_from_iter [''--unregister-service''] = Uninstall \<and>
     mode_from_iter [''--stop-service''] = StopService \<and> mode_from_iter [''--stop''] = StopService \<and>
     mode_from_iter [''--repair''] = Repair \<and> mode_from_iter [''--status''] = Status \<and>
     mode_from_iter [''--cleanup''] = Cleanup \<and> mode_from_iter [''--foreground''] = Foreground \<and>
     mode_from_iter [''--console''] = Foreground"

definition sem_bandeira_o_modo_e_service :: bool where
  "sem_bandeira_o_modo_e_service \<longleftrightarrow> mode_from_iter [] = Service \<and> mode_from_iter [''--desconhecido''] = Service"

definition a_primeira_bandeira_reconhecida_vence :: bool where
  "a_primeira_bandeira_reconhecida_vence \<longleftrightarrow>
     mode_from_iter [''--status'', ''--cleanup''] = Status \<and> mode_from_iter [''--cleanup'', ''--install''] = Cleanup"

definition log_file_segue_o_modo :: bool where
  "log_file_segue_o_modo \<longleftrightarrow>
     log_file Service = Some ''helper.log'' \<and> log_file Foreground = Some ''helper.log'' \<and>
     log_file Install = Some ''install.log'' \<and> log_file Uninstall = Some ''install.log'' \<and>
     log_file StopService = Some ''install.log'' \<and> log_file Repair = Some ''install.log'' \<and>
     log_file Cleanup = Some ''install.log'' \<and> log_file Status = None"

definition os_codigos_de_saida_sao_estaveis :: bool where
  "os_codigos_de_saida_sao_estaveis \<longleftrightarrow>
     OK = 0 \<and> UNKNOWN = 1 \<and> FAILED = 2 \<and> STARTING = 3 \<and> STOPPED = 4 \<and> NOT_INSTALLED = 5 \<and> NEEDS_ELEVATION = 6 \<and>
     SCM_ACCESS_DENIED = 20 \<and> REGISTER_FAILED = 21 \<and> MISSING_DEPENDENCY = 22 \<and> START_TIMEOUT = 23 \<and>
     START_FAILED = 24 \<and> UNSUPPORTED_PLATFORM = 30"

lemma mode_tests:
  "bandeiras_mapeiam_para_o_modo_correto" "sem_bandeira_o_modo_e_service"
  "a_primeira_bandeira_reconhecida_vence" "log_file_segue_o_modo" "os_codigos_de_saida_sao_estaveis"
  by (simp_all add: bandeiras_mapeiam_para_o_modo_correto_def sem_bandeira_o_modo_e_service_def mode_of_arg_def
      a_primeira_bandeira_reconhecida_vence_def log_file_segue_o_modo_def os_codigos_de_saida_sao_estaveis_def
      exit_codes)

section \<open>systemd\<close>

definition UNIT :: string where "UNIT = ''example-helper.service''"

definition shows_states :: "string \<Rightarrow> string \<Rightarrow> string" where
  "shows_states load active = ''LoadState='' @ load @ [CHR 0x0A] @ ''ActiveState='' @ active @ [CHR 0x0A]"

definition INACTIVE :: string where "INACTIVE = shows_states ''loaded'' ''inactive''"
definition UNKNOWN_UNIT :: string where "UNKNOWN_UNIT = shows_states ''not-found'' ''inactive''"

definition install_enables_and_starts_the_unit_in_one_call :: bool where
  "install_enables_and_starts_the_unit_in_one_call \<longleftrightarrow>
     (case install fixture_host UNIT (showing INACTIVE) of
        (code, systemd) \<Rightarrow> code = OK \<and> fixture_calls systemd = [''enable --now example-helper.service''])"

definition an_install_systemd_refuses_is_a_register_failure :: bool where
  "an_install_systemd_refuses_is_a_register_failure \<longleftrightarrow>
     fst (install fixture_host UNIT (refusing INACTIVE)) = REGISTER_FAILED"

definition uninstall_disables_and_stops_the_unit :: bool where
  "uninstall_disables_and_stops_the_unit \<longleftrightarrow>
     (case uninstall fixture_host UNIT (showing fixture_active) of
        (code, systemd) \<Rightarrow> code = OK \<and>
          fixture_calls systemd = [show_call UNIT, ''disable --now example-helper.service''])"

definition an_uninstall_systemd_refuses_fails :: bool where
  "an_uninstall_systemd_refuses_fails \<longleftrightarrow> fst (uninstall fixture_host UNIT (refusing fixture_active)) = FAILED"

definition stop_stops_the_unit_and_leaves_it_enabled :: bool where
  "stop_stops_the_unit_and_leaves_it_enabled \<longleftrightarrow>
     (case stop fixture_host UNIT (showing fixture_active) of
        (code, systemd) \<Rightarrow> code = OK \<and> fixture_calls systemd = [show_call UNIT, ''stop example-helper.service''])"

definition a_stop_systemd_refuses_fails :: bool where
  "a_stop_systemd_refuses_fails \<longleftrightarrow> fst (stop fixture_host UNIT (refusing fixture_active)) = FAILED"

definition repair_restarts_the_unit :: bool where
  "repair_restarts_the_unit \<longleftrightarrow>
     (case repair fixture_host UNIT (showing INACTIVE) of
        (code, systemd) \<Rightarrow> code = OK \<and> fixture_calls systemd = [show_call UNIT, ''restart example-helper.service''])"

definition a_repair_systemd_refuses_is_a_start_failure :: bool where
  "a_repair_systemd_refuses_is_a_start_failure \<longleftrightarrow>
     fst (repair fixture_host UNIT (refusing INACTIVE)) = START_FAILED"

definition status_reads_the_load_and_the_active_state_and_nothing_else :: bool where
  "status_reads_the_load_and_the_active_state_and_nothing_else \<longleftrightarrow>
     (case status fixture_host UNIT (showing fixture_active) of
        (code, systemd) \<Rightarrow> code = OK \<and> fixture_calls systemd = [show_call UNIT])"

definition a_unit_on_its_way_up_is_starting :: bool where
  "a_unit_on_its_way_up_is_starting \<longleftrightarrow>
     fst (status fixture_host UNIT (showing (shows_states ''loaded'' ''activating''))) = STARTING"

definition an_inactive_or_a_failed_unit_is_stopped :: bool where
  "an_inactive_or_a_failed_unit_is_stopped \<longleftrightarrow>
     fst (status fixture_host UNIT (showing INACTIVE)) = STOPPED \<and>
     fst (status fixture_host UNIT (showing (shows_states ''loaded'' ''failed''))) = STOPPED"

definition a_unit_systemd_does_not_know_is_not_installed :: bool where
  "a_unit_systemd_does_not_know_is_not_installed \<longleftrightarrow>
     (let (state, s) = status fixture_host UNIT (showing UNKNOWN_UNIT);
          (repaired, s) = repair fixture_host UNIT s;
          (removed, s) = uninstall fixture_host UNIT s;
          (stopped, s) = stop fixture_host UNIT s
      in state = NOT_INSTALLED \<and> repaired = NOT_INSTALLED \<and> removed = OK \<and> stopped = OK \<and>
         fixture_calls s = [show_call UNIT, show_call UNIT, show_call UNIT, show_call UNIT])"

definition without_root_no_mode_changes_the_unit :: bool where
  "without_root_no_mode_changes_the_unit \<longleftrightarrow>
     (let (installed, s) = install fixture_host UNIT (as_a_user fixture_active);
          (removed, s) = uninstall fixture_host UNIT s;
          (stopped, s) = stop fixture_host UNIT s;
          (repaired, s) = repair fixture_host UNIT s
      in installed = NEEDS_ELEVATION \<and> removed = NEEDS_ELEVATION \<and> stopped = NEEDS_ELEVATION \<and>
         repaired = NEEDS_ELEVATION \<and> fixture_calls s = [show_call UNIT])"

definition without_systemctl_the_state_is_unknown_and_the_install_fails :: bool where
  "without_systemctl_the_state_is_unknown_and_the_install_fails \<longleftrightarrow>
     (let (state, s) = status fixture_host UNIT missing
      in state = UNKNOWN \<and> fst (install fixture_host UNIT s) = REGISTER_FAILED)"

lemma fixture_states:
  "unit_state fixture_active = OK" "unit_state INACTIVE = STOPPED" "unit_state UNKNOWN_UNIT = NOT_INSTALLED"
  "unit_state (shows_states ''loaded'' ''activating'') = STARTING"
  "unit_state (shows_states ''loaded'' ''failed'') = STOPPED"
  by code_simp+

lemma fixture_runs:
  "fst (status fixture_host unit s) =
     (if fixture_present s then unit_state (fixture_show s) else UNKNOWN)"
  "snd (status fixture_host unit s) = s\<lparr>fixture_calls := fixture_calls s @ [show_call unit]\<rparr>"
  "args \<noteq> [] \<Longrightarrow> hd args \<noteq> ''show'' \<Longrightarrow> change fixture_host args failure s =
     (if fixture_present s \<and> fixture_accepts s then OK else failure,
      s\<lparr>fixture_calls := fixture_calls s @ [join_str '' '' args]\<rparr>)"
  by (simp_all add: status_def change_def fixture_host_def SHOW_ARGS_def show_call_def Let_def)

lemma status_pair:
  "status fixture_host unit s = (if fixture_present s then unit_state (fixture_show s) else UNKNOWN,
     s\<lparr>fixture_calls := fixture_calls s @ [show_call unit]\<rparr>)"
  by (rule prod_eqI) (simp_all add: fixture_runs)

lemma fixture_root_is [simp]: "is_root fixture_host s = fixture_root s"
  by (simp add: fixture_host_def)

lemma systemd_tests:
  "install_enables_and_starts_the_unit_in_one_call" "an_install_systemd_refuses_is_a_register_failure"
  "uninstall_disables_and_stops_the_unit" "an_uninstall_systemd_refuses_fails"
  "stop_stops_the_unit_and_leaves_it_enabled" "a_stop_systemd_refuses_fails"
  "repair_restarts_the_unit" "a_repair_systemd_refuses_is_a_start_failure"
  "status_reads_the_load_and_the_active_state_and_nothing_else"
  by (simp_all add: install_enables_and_starts_the_unit_in_one_call_def install_def uninstall_def stop_def repair_def
      an_install_systemd_refuses_is_a_register_failure_def uninstall_disables_and_stops_the_unit_def
      an_uninstall_systemd_refuses_fails_def stop_stops_the_unit_and_leaves_it_enabled_def
      a_stop_systemd_refuses_fails_def repair_restarts_the_unit_def a_repair_systemd_refuses_is_a_start_failure_def
      status_reads_the_load_and_the_active_state_and_nothing_else_def status_pair fixture_runs(3) fixture_states
      showing_def refusing_def UNIT_def exit_codes)

lemma systemd_state_tests:
  "a_unit_on_its_way_up_is_starting" "an_inactive_or_a_failed_unit_is_stopped"
  "a_unit_systemd_does_not_know_is_not_installed" "without_root_no_mode_changes_the_unit"
  "without_systemctl_the_state_is_unknown_and_the_install_fails"
  by (simp_all add: a_unit_on_its_way_up_is_starting_def an_inactive_or_a_failed_unit_is_stopped_def
      a_unit_systemd_does_not_know_is_not_installed_def without_root_no_mode_changes_the_unit_def
      without_systemctl_the_state_is_unknown_and_the_install_fails_def install_def uninstall_def stop_def repair_def
      status_pair fixture_runs(3) fixture_states showing_def as_a_user_def missing_def exit_codes)

section \<open>launchd\<close>

definition TestApp_label :: string where "TestApp_label = ''com.example.testapp.helper''"

definition tagged :: "string \<Rightarrow> string" where "tagged text = ''<string>'' @ text @ ''</string>''"

text \<open>Line breaks are written with their indentation, as the list has them.\<close>

definition line :: "nat \<Rightarrow> string \<Rightarrow> string" where
  "line indent text = CHR 0x0A # replicate indent CHR '' '' @ text"

definition o_plist_aponta_para_o_binario_e_pede_o_modo_servico :: bool where
  "o_plist_aponta_para_o_binario_e_pede_o_modo_servico \<longleftrightarrow>
     (let texto = plist_para TestApp_label ''/usr/local/libexec/testapp-helper''
      in contains (tagged ''/usr/local/libexec/testapp-helper'') texto \<and>
         contains (tagged ''--service'') texto \<and> contains TestApp_label texto)"

definition o_plist_carrega_stdout_e_stderr_no_log_do_sistema :: bool where
  "o_plist_carrega_stdout_e_stderr_no_log_do_sistema \<longleftrightarrow>
     (let texto = plist_para TestApp_label ''/x''; log = ''/var/log/'' @ TestApp_label @ ''.log''; linha = tagged log
      in contains ''<key>StandardOutPath</key>'' texto \<and> contains ''<key>StandardErrorPath</key>'' texto \<and>
         matches 0 linha texto = 2)"

definition o_daemon_volta_sozinho_se_cair :: bool where
  "o_daemon_volta_sozinho_se_cair \<longleftrightarrow>
     (let texto = plist_para TestApp_label ''/x''
      in contains (''<key>KeepAlive</key>'' @ line 4 ''<true/>'') texto \<and>
         contains (''<key>RunAtLoad</key>'' @ line 4 ''<true/>'') texto)"

definition the_plist_declares_the_label_as_the_mach_service_the_daemon_serves :: bool where
  "the_plist_declares_the_label_as_the_mach_service_the_daemon_serves \<longleftrightarrow>
     contains (''<key>MachServices</key>'' @ line 4 ''<dict>'' @ line 8 (''<key>'' @ TestApp_label @ ''</key>'') @
       line 8 ''<true/>'') (plist_para TestApp_label ''/x'')"

definition so_com_pid_o_daemon_esta_no_ar :: bool where
  "so_com_pid_o_daemon_esta_no_ar \<longleftrightarrow>
     interpretar_print (''state = running'' @ CHR 0x0A # ''pid = 412'' @ [CHR 0x0A]) = OK \<and>
     interpretar_print (''state = waiting'' @ [CHR 0x0A]) = STOPPED"

definition o_registro_vive_no_diretorio_do_sistema :: bool where
  "o_registro_vive_no_diretorio_do_sistema \<longleftrightarrow>
     starts_with ''/Library/LaunchDaemons/'' (plist_path TestApp_label) \<and>
     starts_with (rev ''.plist'') (rev (plist_path TestApp_label))"

lemma contains_at: "take (length (u @ p)) (concat (drop k ls)) = u @ p \<Longrightarrow> contains p (concat ls)"
  unfolding contains_iff
  by (metis append_assoc append_take_drop_id concat_append)

lemma launchd_tests:
  "o_plist_aponta_para_o_binario_e_pede_o_modo_servico" "o_plist_carrega_stdout_e_stderr_no_log_do_sistema"
  "o_daemon_volta_sozinho_se_cair" "the_plist_declares_the_label_as_the_mach_service_the_daemon_serves"
  "so_com_pid_o_daemon_esta_no_ar" "o_registro_vive_no_diretorio_do_sistema"
proof -
  show "o_plist_aponta_para_o_binario_e_pede_o_modo_servico"
    unfolding o_plist_aponta_para_o_binario_e_pede_o_modo_servico_def Let_def plist_para_def
    by (rule conjI, rule contains_at [where k = 13 and u = "''        ''"], simp add: tagged_def,
        rule conjI, rule contains_at [where k = 14 and u = "''        ''"], simp add: tagged_def,
        rule contains_at [where k = 5 and u = "''    <string>''"], simp add: TestApp_label_def)
  have "matches 0 (tagged (''/var/log/'' @ TestApp_label @ ''.log'')) (plist_para TestApp_label ''/x'') = 2"
    by code_simp
  moreover have "contains ''<key>StandardOutPath</key>'' (plist_para TestApp_label ''/x'')"
    unfolding plist_para_def by (rule contains_at [where k = 22 and u = "''    ''"]) simp
  moreover have "contains ''<key>StandardErrorPath</key>'' (plist_para TestApp_label ''/x'')"
    unfolding plist_para_def by (rule contains_at [where k = 24 and u = "''    ''"]) simp
  ultimately show "o_plist_carrega_stdout_e_stderr_no_log_do_sistema"
    by (simp only: o_plist_carrega_stdout_e_stderr_no_log_do_sistema_def Let_def simp_thms)
  show "o_daemon_volta_sozinho_se_cair"
    unfolding o_daemon_volta_sozinho_se_cair_def Let_def plist_para_def
    by (rule conjI, rule contains_at [where k = 18 and u = "''    ''"], simp add: line_def eval_nat_numeral,
        rule contains_at [where k = 16 and u = "''    ''"], simp add: line_def eval_nat_numeral)
  show "the_plist_declares_the_label_as_the_mach_service_the_daemon_serves"
    unfolding the_plist_declares_the_label_as_the_mach_service_the_daemon_serves_def plist_para_def
    by (rule contains_at [where k = 6 and u = "''    ''"]) (simp add: line_def TestApp_label_def eval_nat_numeral)
  show "so_com_pid_o_daemon_esta_no_ar" "o_registro_vive_no_diretorio_do_sistema" by code_simp+
qed

section \<open>The property list\<close>

definition REQUIREMENT :: string where
  "REQUIREMENT = ''cdhash H'' @ [CHR 0x22] @ ''0123456789abcdef0123456789abcdef01234567'' @ [CHR 0x22]"

text \<open>\<open>plutil\<close> gives the program arguments that the test writes into its list.\<close>

definition plist_ending_with :: "string list \<Rightarrow> plutil" where
  "plist_ending_with tail = (\<lambda>path. Some ([''/helper'', ''--service''] @ tail))"

definition plist_declaring :: "string \<Rightarrow> plutil" where
  "plist_declaring requirement = plist_ending_with [''--peer-requirement'', requirement]"

definition the_requirement_is_the_value_after_the_flag :: bool where
  "the_requirement_is_the_value_after_the_flag \<longleftrightarrow>
     requirement_in [''/helper'', ''--peer-requirement'', REQUIREMENT] = Ok (Some REQUIREMENT)"

definition a_flag_with_no_value_is_refused :: bool where
  "a_flag_with_no_value_is_refused \<longleftrightarrow> requirement_in [''/helper'', ''--peer-requirement''] = Err FlagWithoutValue"

definition arguments_without_the_flag_declare_nothing :: bool where
  "arguments_without_the_flag_declare_nothing \<longleftrightarrow> requirement_in [''/helper'', ''--service''] = Ok None"

definition the_requirement_is_read_from_the_plist_content :: bool where
  "the_requirement_is_read_from_the_plist_content \<longleftrightarrow>
     requirement_in_plist (plist_declaring REQUIREMENT) ''dovetail-plist-content'' = Ok (Some REQUIREMENT)"

definition a_plist_flag_with_no_value_does_not_start_the_daemon :: bool where
  "a_plist_flag_with_no_value_does_not_start_the_daemon \<longleftrightarrow>
     \<not> is_ok (requirement_in_plist (plist_ending_with [''--peer-requirement'']) ''dovetail-plist-no-value'')"

definition a_plist_without_the_flag_declares_nothing :: bool where
  "a_plist_without_the_flag_declares_nothing \<longleftrightarrow>
     requirement_in_plist (plist_ending_with []) ''dovetail-plist-no-flag'' = Ok None"

text \<open>The test runs as a user, in the directory of temporary files.\<close>

definition running_user :: host where
  "running_user = example_host [''/tmp'' \<mapsto> \<lparr>kind = Directory, node_uid = 0, node_gid = 0, node_mode = 0x3FF, content = []\<rparr>] 501"

definition a_plist_the_running_user_wrote_declares_nothing :: "string \<Rightarrow> bool" where
  "a_plist_the_running_user_wrote_declares_nothing body \<longleftrightarrow>
     (let (written, h) = write_file ''/tmp/dovetail-plist-untrusted.plist'' body running_user
      in is_ok written \<and>
         fst (requirement_declared_by (plist_declaring REQUIREMENT) ''/tmp/dovetail-plist-untrusted.plist'' h) = Ok None)"

definition a_command_line_requirement_the_plist_does_not_declare_is_ignored :: bool where
  "a_command_line_requirement_the_plist_does_not_declare_is_ignored \<longleftrightarrow>
     argv_is_ignored [''/helper'', ''--peer-requirement'', ''always''] (Some REQUIREMENT)"

definition a_command_line_requirement_with_no_trusted_plist_is_ignored :: bool where
  "a_command_line_requirement_with_no_trusted_plist_is_ignored \<longleftrightarrow>
     argv_is_ignored [''/helper'', ''--peer-requirement'', REQUIREMENT] None"

definition the_command_line_launchd_passes_from_the_trusted_plist_is_not_reported :: bool where
  "the_command_line_launchd_passes_from_the_trusted_plist_is_not_reported \<longleftrightarrow>
     \<not> argv_is_ignored [''/helper'', ''--peer-requirement'', REQUIREMENT] (Some REQUIREMENT)"

definition a_command_line_without_the_flag_is_not_reported :: bool where
  "a_command_line_without_the_flag_is_not_reported \<longleftrightarrow> \<not> argv_is_ignored [''/helper''] None"

lemma plist_requirement_tests:
  "the_requirement_is_the_value_after_the_flag" "a_flag_with_no_value_is_refused"
  "arguments_without_the_flag_declare_nothing" "the_requirement_is_read_from_the_plist_content"
  "a_plist_flag_with_no_value_does_not_start_the_daemon" "a_plist_without_the_flag_declares_nothing"
  "a_plist_the_running_user_wrote_declares_nothing body"
  "a_command_line_requirement_the_plist_does_not_declare_is_ignored"
  "a_command_line_requirement_with_no_trusted_plist_is_ignored"
  "the_command_line_launchd_passes_from_the_trusted_plist_is_not_reported"
  "a_command_line_without_the_flag_is_not_reported"
  by (simp_all add: the_requirement_is_the_value_after_the_flag_def a_flag_with_no_value_is_refused_def
      arguments_without_the_flag_declare_nothing_def the_requirement_is_read_from_the_plist_content_def
      a_plist_flag_with_no_value_does_not_start_the_daemon_def a_plist_without_the_flag_declares_nothing_def
      a_plist_the_running_user_wrote_declares_nothing_def requirement_declared_by_def system_plist_is_trusted_def
      a_command_line_requirement_the_plist_does_not_declare_is_ignored_def running_user_def example_host_def
      a_command_line_requirement_with_no_trusted_plist_is_ignored_def write_file_def fs_op_def symlink_metadata_def
      the_command_line_launchd_passes_from_the_trusted_plist_is_not_reported_def new_node_def Let_def
      a_command_line_without_the_flag_is_not_reported_def requirement_in_plist_def plist_declaring_def
      plist_ending_with_def argv_is_ignored_def REQUIREMENT_FLAG_def REQUIREMENT_def closed_to_all_but_root_def)

definition a_plist_owned_by_root_and_wheel_and_closed_to_writes_is_trusted :: bool where
  "a_plist_owned_by_root_and_wheel_and_closed_to_writes_is_trusted \<longleftrightarrow> closed_to_all_but_root 0 0 0x81A4"

definition a_plist_owned_by_a_user_is_not_trusted :: bool where
  "a_plist_owned_by_a_user_is_not_trusted \<longleftrightarrow> \<not> closed_to_all_but_root 501 0 0x81A4"

definition a_plist_in_a_group_other_than_wheel_is_not_trusted :: bool where
  "a_plist_in_a_group_other_than_wheel_is_not_trusted \<longleftrightarrow> \<not> closed_to_all_but_root 0 20 0x81A4"

definition a_plist_the_group_can_write_is_not_trusted :: bool where
  "a_plist_the_group_can_write_is_not_trusted \<longleftrightarrow> \<not> closed_to_all_but_root 0 0 0x81B4"

definition a_plist_anyone_can_write_is_not_trusted :: bool where
  "a_plist_anyone_can_write_is_not_trusted \<longleftrightarrow> \<not> closed_to_all_but_root 0 0 0x81A6"

definition a_plist_the_running_user_wrote_is_not_trusted :: bool where
  "a_plist_the_running_user_wrote_is_not_trusted \<longleftrightarrow>
     (let (written, h) = write_file ''/tmp/dovetail-plist.plist'' ''<plist/>'' running_user
      in is_ok written \<and> \<not> fst (system_plist_is_trusted ''/tmp/dovetail-plist.plist'' h))"

definition a_missing_system_plist_is_not_trusted :: bool where
  "a_missing_system_plist_is_not_trusted \<longleftrightarrow>
     \<not> fst (system_plist_is_trusted ''/Library/LaunchDaemons/com.example.dovetail.absent.plist'' running_user)"

lemma plist_trust_tests:
  "a_plist_owned_by_root_and_wheel_and_closed_to_writes_is_trusted" "a_plist_owned_by_a_user_is_not_trusted"
  "a_plist_in_a_group_other_than_wheel_is_not_trusted" "a_plist_the_group_can_write_is_not_trusted"
  "a_plist_anyone_can_write_is_not_trusted" "a_plist_the_running_user_wrote_is_not_trusted"
  "a_missing_system_plist_is_not_trusted"
  by (simp_all add: a_plist_owned_by_root_and_wheel_and_closed_to_writes_is_trusted_def
      a_plist_owned_by_a_user_is_not_trusted_def a_plist_in_a_group_other_than_wheel_is_not_trusted_def
      a_plist_the_group_can_write_is_not_trusted_def a_plist_anyone_can_write_is_not_trusted_def
      a_plist_the_running_user_wrote_is_not_trusted_def a_missing_system_plist_is_not_trusted_def
      closed_to_all_but_root_def system_plist_is_trusted_def running_user_def example_host_def
      write_file_def fs_op_def symlink_metadata_def new_node_def Let_def)

end
