(* ===== verification/DaemonTests.thy ===== *)
theory DaemonTests
  imports FrameJson Wire Server PlistRequirement
begin

text \<open>
  The unit tests of the daemon's connections and of its accept loop, run on the model:
  \<open>connection_tests.rs\<close> and those of \<open>server.rs\<close> under
  \<open>toolkit/dovetail_privileged_daemon/rust/src\<close>.  Left out are the tests that draw nonces from the
  system and compare them, which say nothing for certain.
\<close>

section \<open>Connections\<close>

definition a_hello_gets_the_smaller_minor_and_the_session_goes_on :: "(unit, unit) serde \<Rightarrow> decoder \<Rightarrow> bool" where
  "a_hello_gets_the_smaller_minor_and_the_session_goes_on js decode \<longleftrightarrow>
     (\<exists>reply greeting opening asked.
        json js (FResponse \<lparr>resp_id = 1, resp_payload = RespOk ()\<rparr>) = Some reply \<and>
        server_hello js 0 None = Some greeting \<and> hello js PROTOCOL_MAJOR 0 = Some opening \<and>
        request js = Some asked \<and>
        wire_after js decode (opening @ asked) HangUp = Some (shown (greeting @ reply)))"

text \<open>The tests that expect a refusal: what is sent, whether the client then hangs up, and the refusal.\<close>

definition refused_with :: "(unit, unit) serde \<Rightarrow> decoder \<Rightarrow> bytes option \<Rightarrow> Then \<Rightarrow> ErrorCode \<Rightarrow> string \<Rightarrow> bool" where
  "refused_with js decode written what_then c msg \<longleftrightarrow>
     (\<exists>w. written = Some w \<and> sees_refusal js decode w what_then c msg)"

definition another_major_is_refused_with_the_daemon_own_version :: "(unit, unit) serde \<Rightarrow> decoder \<Rightarrow> bool" where
  "another_major_is_refused_with_the_daemon_own_version js decode \<longleftrightarrow>
     refused_with js decode (hello js 2 0) Wait version_unsupported
       ''protocolo major 2 nao suportado (helper fala 1)''"

definition a_request_before_the_hello_is_refused :: "(unit, unit) serde \<Rightarrow> decoder \<Rightarrow> bool" where
  "a_request_before_the_hello_is_refused js decode \<longleftrightarrow>
     refused_with js decode (request js) Wait handshake_required ''Request recebido antes do Hello''"

definition not_json :: bytes where "not_json = map of_char ''{ not json''"

definition malformed_json_is_refused :: "(unit, unit) serde \<Rightarrow> decoder \<Rightarrow> bool" where
  "malformed_json_is_refused js decode \<longleftrightarrow>
     refused_with js decode (Some (framed not_json)) Wait malformed_frame ''frame de handshake malformado''"

definition a_frame_above_the_cap_is_refused :: "(unit, unit) serde \<Rightarrow> decoder \<Rightarrow> bool" where
  "a_frame_above_the_cap_is_refused js decode \<longleftrightarrow>
     refused_with js decode (Some (to_be_bytes (of_nat MAX_FRAME_BYTES + 1))) Wait frame_too_large
       ''frame de handshake acima do teto''"

definition a_silent_client_is_refused_at_the_deadline :: "(unit, unit) serde \<Rightarrow> decoder \<Rightarrow> bool" where
  "a_silent_client_is_refused_at_the_deadline js decode \<longleftrightarrow>
     refused_with js decode (Some []) Wait handshake_required ''handshake nao recebido dentro do prazo''"

definition a_stream_that_ends_before_the_hello_is_refused :: "(unit, unit) serde \<Rightarrow> decoder \<Rightarrow> bool" where
  "a_stream_that_ends_before_the_hello_is_refused js decode \<longleftrightarrow>
     refused_with js decode (Some []) HangUp handshake_required ''conexao fechada antes do handshake''"

definition cut_frame :: bytes where
  "cut_frame = to_be_bytes 100 @ map of_char (CHR ''{'' # CHR 0x22 # ''t'' @ [CHR 0x22])"

definition a_frame_cut_in_the_middle_is_refused :: "(unit, unit) serde \<Rightarrow> decoder \<Rightarrow> bool" where
  "a_frame_cut_in_the_middle_is_refused js decode \<longleftrightarrow>
     refused_with js decode (Some cut_frame) HangUp handshake_required ''conexao interrompida antes do handshake''"

definition a_failing_generator_closes_the_connection_before_the_handshake ::
  "(unit, unit) serde \<Rightarrow> decoder \<Rightarrow> io_error \<Rightarrow> bool" where
  "a_failing_generator_closes_the_connection_before_the_handshake js decode no_entropy \<longleftrightarrow>
     (case handle_conn_with_generator js Echo Echo_VERSION fixture_peer (Err no_entropy) ()
             (fresh_framer (decode False [])) of
        (served, fr, _, _) \<Rightarrow> shown (concat (map framed (sent fr))) = [] \<and> \<not> is_ok served)"

lemma refusal_tests_of_the_connection:
  assumes codec: "length_delimited decode" and bad: "from_slice js not_json = None"
    and fit: "\<And>c msg. (c, msg) \<in> {(handshake_required, ''Request recebido antes do Hello''),
        (malformed_frame, ''frame de handshake malformado''), (frame_too_large, ''frame de handshake acima do teto''),
        (handshake_required, ''handshake nao recebido dentro do prazo''),
        (handshake_required, ''conexao fechada antes do handshake''),
        (handshake_required, ''conexao interrompida antes do handshake''),
        (version_unsupported, ''protocolo major '' @ show_nat (unat (2 :: u16)) @ '' nao suportado (helper fala 1)'')} \<Longrightarrow>
        fits js (FServerHello (fixture_answer PROTOCOL_MINOR (Some (new_error_body c msg))))"
    and frames: "fits js (FRequest \<lparr>req_id = 1, req_cmd = ()\<rparr>)" "fits js (FHello (fixture_hello 2 0))"
  shows "another_major_is_refused_with_the_daemon_own_version js decode"
    "a_request_before_the_hello_is_refused js decode" "malformed_json_is_refused js decode"
    "a_frame_above_the_cap_is_refused js decode" "a_silent_client_is_refused_at_the_deadline js decode"
    "a_stream_that_ends_before_the_hello_is_refused js decode" "a_frame_cut_in_the_middle_is_refused js decode"
proof -
  obtain asked "opening" where a: "request js = Some asked" "hello js 2 0 = Some opening"
    using frames by (auto simp: request_def hello_def json_def fits_def split: option.splits)
  have small: "length not_json \<le> MAX_FRAME_BYTES" "incomplete cut_frame" "2 \<noteq> PROTOCOL_MAJOR"
    "MAX_FRAME_BYTES < unat (of_nat MAX_FRAME_BYTES + 1 :: u32)"
    by (simp_all add: not_json_def incomplete_def cut_frame_def PROTOCOL_MAJOR_def MAX_FRAME_BYTES_def)
  have "show_nat 2 = ''2''" by code_simp
  then show "another_major_is_refused_with_the_daemon_own_version js decode"
    "a_request_before_the_hello_is_refused js decode" "malformed_json_is_refused js decode"
    "a_frame_above_the_cap_is_refused js decode" "a_silent_client_is_refused_at_the_deadline js decode"
    "a_stream_that_ends_before_the_hello_is_refused js decode" "a_frame_cut_in_the_middle_is_refused js decode"
    using wire_refusals [OF codec fit frames(1) a(1) bad small(1,4,2) frames(2) a(2) small(3)] a
    by (simp_all add: refused_with_def another_major_is_refused_with_the_daemon_own_version_def
        a_request_before_the_hello_is_refused_def malformed_json_is_refused_def a_frame_above_the_cap_is_refused_def
        a_silent_client_is_refused_at_the_deadline_def a_stream_that_ends_before_the_hello_is_refused_def
        a_frame_cut_in_the_middle_is_refused_def)
qed

lemma failing_generator_test: "a_failing_generator_closes_the_connection_before_the_handshake js decode no_entropy"
  by (simp add: a_failing_generator_closes_the_connection_before_the_handshake_def handle_conn_with_generator_def
      fresh_framer_def shown_def)

lemma session_test:
  assumes "length_delimited decode"
    and "\<And>f. f \<in> {FHello (fixture_hello PROTOCOL_MAJOR 0), FRequest \<lparr>req_id = 1, req_cmd = ()\<rparr>,
      FServerHello (fixture_answer 0 None), FResponse \<lparr>resp_id = 1, resp_payload = RespOk ()\<rparr>} \<Longrightarrow> fits js f"
  shows "a_hello_gets_the_smaller_minor_and_the_session_goes_on js decode"
proof -
  have written: "\<exists>b. json js f = Some b" if "fits js f" for f
    using that by (auto simp: json_def fits_def split: option.splits)
  have fit: "fits js (FHello (fixture_hello PROTOCOL_MAJOR 0))" "fits js (FRequest \<lparr>req_id = 1, req_cmd = ()\<rparr>)"
    "fits js (FServerHello (fixture_answer (min 0 PROTOCOL_MINOR) None))"
    "fits js (FResponse \<lparr>resp_id = 1, resp_payload = RespOk ()\<rparr>)"
    by (rule assms(2); simp)+
  obtain opened asked greeting reply where frames: "hello js PROTOCOL_MAJOR 0 = Some opened" "request js = Some asked"
      "server_hello js (min 0 PROTOCOL_MINOR) None = Some greeting"
      "json js (FResponse \<lparr>resp_id = 1, resp_payload = RespOk ()\<rparr>) = Some reply"
    using written [OF fit(1)] written [OF fit(2)] written [OF fit(3)] written [OF fit(4)]
    unfolding hello_def request_def server_hello_def by blast
  have "length (opened @ concat (replicate 1 asked)) \<le> DUPLEX_BYTES"
    using fit(1,2) frames(1,2)
    by (auto simp: hello_def request_def json_def fits_def DUPLEX_BYTES_def MAX_FRAME_BYTES_def split: option.splits)
  from session_shown [OF assms(1) fit frames this, of HangUp] frames show ?thesis
    by (simp add: a_hello_gets_the_smaller_minor_and_the_session_goes_on_def)
qed

text \<open>
  With the JSON of the frames itself: whatever prints values as text and reads them back, a session
  of the fixture runs as the test says if the text of its four frames is within the limit.
\<close>

lemma session_over_json:
  assumes codec: "length_delimited decode" and printed: "\<And>v. parse_value (print_value v) = Some v"
    and small: "\<And>f v. f \<in> {FHello (fixture_hello PROTOCOL_MAJOR 0), FRequest \<lparr>req_id = 1, req_cmd = ()\<rparr>,
        FServerHello (fixture_answer 0 None), FResponse \<lparr>resp_id = 1, resp_payload = RespOk ()\<rparr>} \<Longrightarrow>
      frame_value unit_vocabulary f = Some v \<Longrightarrow> length (print_value v) \<le> MAX_FRAME_BYTES"
  shows "a_hello_gets_the_smaller_minor_and_the_session_goes_on
    (text_serde print_value parse_value unit_vocabulary pos shown_frame) decode"
proof (rule session_test [OF codec])
  fix f :: "(unit, unit) Frame"
  assume f: "f \<in> {FHello (fixture_hello PROTOCOL_MAJOR 0), FRequest \<lparr>req_id = 1, req_cmd = ()\<rparr>,
      FServerHello (fixture_answer 0 None), FResponse \<lparr>resp_id = 1, resp_payload = RespOk ()\<rparr>}"
  then have whole: "whole_nonce f"
    by (auto simp: fixture_hello_def fixture_answer_def NONCE_def)
  obtain v where v: "frame_value unit_vocabulary f = Some v"
    by (cases f; cases "case f of FResponse r \<Rightarrow> resp_payload r | _ \<Rightarrow> RespOk ()")
      (auto simp: frame_value_def request_members_def response_members_def unit_vocabulary_def)
  show "fits (text_serde print_value parse_value unit_vocabulary pos shown_frame) f"
    by (rule text_fits) (use unit_reads_back whole v printed small [OF f v] in simp_all)
qed

section \<open>The accept loop\<close>

definition Guarded_policy :: "PeerPolicy option" where
  "Guarded_policy = Some (allow_gid 27 (allow_uid 0 default_policy))"

definition Echo_ENDPOINT :: string where "Echo_ENDPOINT = []"

definition an_app_that_declares_no_policy_binds_an_endpoint_without_one :: bool where
  "an_app_that_declares_no_policy_binds_an_endpoint_without_one \<longleftrightarrow> peer_policy (endpoint Echo_ENDPOINT None) = None"

definition the_policy_the_app_declares_reaches_the_endpoint :: bool where
  "the_policy_the_app_declares_reaches_the_endpoint \<longleftrightarrow>
     (let declared = allow_gid 27 (allow_uid 0 default_policy)
      in peer_policy (endpoint Echo_ENDPOINT Guarded_policy) = Some declared)"

text \<open>The loop never looks at the clock but for refusals; what a script takes is what it sleeps.\<close>

type_synonym accepted = "accept_error + nat \<times> PeerCheck"

definition test_app :: "nat \<Rightarrow> accepted" where
  "test_app i = Ok (i, \<lparr>check_method = ''peercred'', check_subject = ''the app''\<rparr>)"

definition not_the_app :: peer_error where "not_the_app = OutsidePolicy ''the app''"

definition test_refused :: accepted where "test_refused = Err (PeerRefused not_the_app)"

definition too_many_open_files :: accepted where "too_many_open_files = Err (AcceptIo (OtherIo 24))"

fun script_turn :: "nat \<Rightarrow> accepted \<Rightarrow> nat turn" where
  "script_turn now (Inl e) = Failed e now"
| "script_turn now (Inr (i, peer)) = Accepted i peer"

fun served_after :: "nat \<Rightarrow> nat action list \<Rightarrow> (nat \<times> nat) list" where
  "served_after elapsed [] = []"
| "served_after elapsed (Serve i peer # as) = (i, elapsed) # served_after elapsed as"
| "served_after elapsed (Sleep ms # as) = served_after (elapsed + unat ms) as"
| "served_after elapsed (RefusalLine _ _ _ # as) = served_after elapsed as"

definition serve_in_order :: "accepted list \<Rightarrow> (nat \<times> nat) list" where
  "serve_in_order script = served_after 0 (fst (accept_loop (map (script_turn 0) script @ [StreamEnd])))"

fun line_of :: "nat action \<Rightarrow> (peer_error option \<times> u64) list" where
  "line_of (RefusalLine reason n _) = [(reason, n)]"
| "line_of _ = []"

definition refusal_lines :: "accepted list \<Rightarrow> (peer_error option \<times> u64) list" where
  "refusal_lines script = concat (map line_of (fst (accept_loop (map (script_turn 0) script @ [StreamEnd]))))"

definition FIRST_BACKOFF :: nat where "FIRST_BACKOFF = 100"

definition the_app_is_served_without_waiting_behind_a_refused_peer :: bool where
  "the_app_is_served_without_waiting_behind_a_refused_peer \<longleftrightarrow>
     (let served = serve_in_order [test_refused, test_app 1]
      in map fst served = [1] \<and> snd (served ! 0) < FIRST_BACKOFF)"

definition an_io_error_still_backs_off_before_the_next_accept :: bool where
  "an_io_error_still_backs_off_before_the_next_accept \<longleftrightarrow>
     (let served = serve_in_order [too_many_open_files, test_app 1]
      in map fst served = [1] \<and> snd (served ! 0) \<ge> FIRST_BACKOFF)"

definition refusals_do_not_stop_the_loop :: bool where
  "refusals_do_not_stop_the_loop \<longleftrightarrow>
     map fst (serve_in_order [test_refused, test_app 1, test_refused, test_refused, test_app 2]) = [1, 2]"

definition a_burst_of_refusals_gets_one_line_and_the_rest_are_counted :: bool where
  "a_burst_of_refusals_gets_one_line_and_the_rest_are_counted \<longleftrightarrow>
     refusal_lines [test_refused, test_refused, test_app 1, test_refused] = [(Some not_the_app, 0), (None, 2)]"

definition a_lone_refusal_gets_its_line_and_no_count_at_the_end :: bool where
  "a_lone_refusal_gets_its_line_and_no_count_at_the_end \<longleftrightarrow>
     refusal_lines [test_refused, test_app 1] = [(Some not_the_app, 0)]"

lemmas script_defs = serve_in_order_def refusal_lines_def test_refused_def test_app_def too_many_open_files_def
  accept_loop_def loop_start_def new_refusal_log_def refused_def REFUSAL_LOG_WINDOW_def backoff_def

lemma accept_loop_tests:
  "an_app_that_declares_no_policy_binds_an_endpoint_without_one" "the_policy_the_app_declares_reaches_the_endpoint"
  "the_app_is_served_without_waiting_behind_a_refused_peer" "an_io_error_still_backs_off_before_the_next_accept"
  "refusals_do_not_stop_the_loop" "a_burst_of_refusals_gets_one_line_and_the_rest_are_counted"
  "a_lone_refusal_gets_its_line_and_no_count_at_the_end"
  by (simp_all add: an_app_that_declares_no_policy_binds_an_endpoint_without_one_def endpoint_def new_endpoint_def
      the_policy_the_app_declares_reaches_the_endpoint_def Guarded_policy_def with_peer_policy_def
      the_app_is_served_without_waiting_behind_a_refused_peer_def an_io_error_still_backs_off_before_the_next_accept_def
      refusals_do_not_stop_the_loop_def a_burst_of_refusals_gets_one_line_and_the_rest_are_counted_def
      a_lone_refusal_gets_its_line_and_no_count_at_the_end_def script_defs FIRST_BACKOFF_def)

section \<open>The requirement of the macOS daemon\<close>

text \<open>A framework that finds the two pinned requirements of the tests strong and the bare anchor weak.\<close>

definition COMPILED :: string where
  "COMPILED = ''cdhash H'' @ [CHR 0x22] @ replicate 40 CHR ''0'' @ [CHR 0x22]"

definition FROM_PLIST :: string where
  "FROM_PLIST = ''cdhash H'' @ [CHR 0x22] @ concat (replicate 20 ''ab'') @ [CHR 0x22]"

definition judges_as_documented :: "requirement_api \<Rightarrow> bool" where
  "judges_as_documented api \<longleftrightarrow> is_ok (ensure_strong api COMPILED) \<and> is_ok (ensure_strong api FROM_PLIST) \<and>
     ensure_strong api ''anchor apple generic'' = Err (TooWeak ''anchor apple generic'')"

definition on_macos_the_daemon_serves_xpc_under_the_requirement_the_app_declares :: "requirement_api \<Rightarrow> bool" where
  "on_macos_the_daemon_serves_xpc_under_the_requirement_the_app_declares api \<longleftrightarrow>
     snd (xpc_requirement api [] None (Some (require_code COMPILED default_policy))) = Ok COMPILED"

definition on_macos_a_policy_without_a_code_requirement_does_not_start_the_daemon :: "requirement_api \<Rightarrow> bool" where
  "on_macos_a_policy_without_a_code_requirement_does_not_start_the_daemon api \<longleftrightarrow>
     snd (xpc_requirement api [] None Guarded_policy) = Err NoRequirementDeclared"

definition on_macos_an_app_without_a_policy_does_not_start_the_daemon :: "requirement_api \<Rightarrow> bool" where
  "on_macos_an_app_without_a_policy_does_not_start_the_daemon api \<longleftrightarrow>
     \<not> is_ok (snd (xpc_requirement api [] None None))"

definition on_macos_the_requirement_the_plist_passes_is_the_one_served :: "requirement_api \<Rightarrow> bool" where
  "on_macos_the_requirement_the_plist_passes_is_the_one_served api \<longleftrightarrow>
     snd (xpc_requirement api [] (Some FROM_PLIST) None) = Ok FROM_PLIST"

definition on_macos_a_system_plist_requirement_wins_over_the_compiled_one :: "requirement_api \<Rightarrow> bool" where
  "on_macos_a_system_plist_requirement_wins_over_the_compiled_one api \<longleftrightarrow>
     snd (xpc_requirement api [] (Some FROM_PLIST) (Some (require_code COMPILED default_policy))) = Ok FROM_PLIST"

definition launched_with_a_requirement :: "string list" where
  "launched_with_a_requirement = [''helper'', ''--peer-requirement'', FROM_PLIST]"

definition on_macos_the_command_line_cannot_replace_the_compiled_requirement :: "requirement_api \<Rightarrow> bool" where
  "on_macos_the_command_line_cannot_replace_the_compiled_requirement api \<longleftrightarrow>
     snd (xpc_requirement api launched_with_a_requirement None (Some (require_code COMPILED default_policy))) = Ok COMPILED"

definition on_macos_the_command_line_alone_does_not_start_the_daemon :: "requirement_api \<Rightarrow> bool" where
  "on_macos_the_command_line_alone_does_not_start_the_daemon api \<longleftrightarrow>
     \<not> is_ok (snd (xpc_requirement api launched_with_a_requirement None None))"

definition on_macos_a_weak_requirement_does_not_start_the_daemon :: "requirement_api \<Rightarrow> bool" where
  "on_macos_a_weak_requirement_does_not_start_the_daemon api \<longleftrightarrow>
     (\<exists>r. snd (xpc_requirement api [] None (Some (require_code ''anchor apple generic'' default_policy))) =
        Err (Weak (TooWeak r)))"

lemma requirement_tests:
  assumes "judges_as_documented api"
  shows "on_macos_the_daemon_serves_xpc_under_the_requirement_the_app_declares api"
    "on_macos_a_policy_without_a_code_requirement_does_not_start_the_daemon api"
    "on_macos_an_app_without_a_policy_does_not_start_the_daemon api"
    "on_macos_the_requirement_the_plist_passes_is_the_one_served api"
    "on_macos_a_system_plist_requirement_wins_over_the_compiled_one api"
    "on_macos_the_command_line_cannot_replace_the_compiled_requirement api"
    "on_macos_the_command_line_alone_does_not_start_the_daemon api"
    "on_macos_a_weak_requirement_does_not_start_the_daemon api"
  using assms
  by (auto simp: judges_as_documented_def is_ok_iff xpc_requirement_def chosen_requirement_def code_requirement_def
      on_macos_the_daemon_serves_xpc_under_the_requirement_the_app_declares_def require_code_def default_policy_def
      on_macos_a_policy_without_a_code_requirement_does_not_start_the_daemon_def Guarded_policy_def allow_uid_def allow_gid_def
      on_macos_an_app_without_a_policy_does_not_start_the_daemon_def
      on_macos_the_requirement_the_plist_passes_is_the_one_served_def
      on_macos_a_system_plist_requirement_wins_over_the_compiled_one_def
      on_macos_the_command_line_cannot_replace_the_compiled_requirement_def
      on_macos_the_command_line_alone_does_not_start_the_daemon_def
      on_macos_a_weak_requirement_does_not_start_the_daemon_def)

end
