(* ===== verification/BridgeTests.thy ===== *)
theory BridgeTests
  imports BridgeCore
begin

text \<open>
  The unit tests of the bridge core, run on the model: those of \<open>data/pump_table.rs\<close>,
  \<open>data/event_pump.rs\<close>, \<open>data/line_subscriber.rs\<close>, \<open>infra/tokio_runtime.rs\<close>, \<open>infra/log_lines.rs\<close> and
  \<open>infra/runtime_pump_task.rs\<close> under \<open>toolkit/dovetail_rust_core/rust/src\<close>.
\<close>

section \<open>The table of pumps\<close>

text \<open>A pump of the tests by its number; the world is the set of those that were dropped.\<close>

definition live :: "nat \<Rightarrow> FakePump" where "live i = \<lparr>fake_id = i, fake_finished = False\<rparr>"
definition already_finished :: "nat \<Rightarrow> FakePump" where "already_finished i = \<lparr>fake_id = i, fake_finished = True\<rparr>"

definition a_poisoned_table_keeps_answering_instead_of_killing_the_process :: bool where
  "a_poisoned_table_keeps_answering_instead_of_killing_the_process \<longleftrightarrow>
     (let table = new_table\<lparr>poisoned := True\<rparr>;
          (removed, table1, w) = table_remove fake_pump ''nao existe'' table {};
          (replacement, table2, w) = table_replace fake_pump ''state'' (live 0) table1 w;
          (table3, w') = table_clear fake_pump table2 w
      in poisoned table \<and> table_len table = 0 \<and> \<not> removed \<and> \<not> table_is_live fake_pump ''nao existe'' table1 w \<and>
         replaced_name replacement = ''state'' \<and> table_is_live fake_pump ''state'' table2 w \<and> table_is_empty table3)"

definition replacing_reports_that_it_displaced_a_live_pump :: bool where
  "replacing_reports_that_it_displaced_a_live_pump \<longleftrightarrow>
     (let (first, table, w) = table_replace fake_pump ''state'' (live 0) new_table {};
          (second, table, w) = table_replace fake_pump ''state'' (live 1) table w
      in \<not> displaced_a_live_pump first \<and> displaced_a_live_pump second \<and> replaced_name second = ''state'')"

definition displacing_a_pump_that_already_finished_is_not_reported_as_live :: bool where
  "displacing_a_pump_that_already_finished_is_not_reported_as_live \<longleftrightarrow>
     (let (first, table, w) = table_replace fake_pump ''state'' (already_finished 0) new_table {};
          (second, table, w) = table_replace fake_pump ''state'' (live 1) table w
      in \<not> displaced_a_live_pump second)"

definition the_displaced_pump_is_let_go :: bool where
  "the_displaced_pump_is_let_go \<longleftrightarrow>
     (let (_, table, w) = table_replace fake_pump ''state'' (live 0) new_table {};
          (_, table, w') = table_replace fake_pump ''state'' (live 1) table w
      in live 0 \<notin> w \<and> live 0 \<in> w')"

definition removing_lets_the_pump_go_and_empties_the_table :: bool where
  "removing_lets_the_pump_go_and_empties_the_table \<longleftrightarrow>
     (let (_, table, w) = table_replace fake_pump ''state'' (live 0) new_table {};
          (removed, table1, w) = table_remove fake_pump ''state'' table w;
          (again, table2, w') = table_remove fake_pump ''state'' table1 w
      in removed \<and> live 0 \<in> w \<and> table_is_empty table1 \<and> \<not> again)"

definition two_names_do_not_displace_each_other :: bool where
  "two_names_do_not_displace_each_other \<longleftrightarrow>
     (let (_, table, w) = table_replace fake_pump ''state'' (live 0) new_table {};
          (_, table, w) = table_replace fake_pump ''traffic'' (live 1) table w
      in table_len table = 2 \<and> table_is_live fake_pump ''state'' table w \<and> table_is_live fake_pump ''traffic'' table w)"

definition clearing_lets_every_pump_go :: bool where
  "clearing_lets_every_pump_go \<longleftrightarrow>
     (let (_, table, w) = table_replace fake_pump ''state'' (live 0) new_table {};
          (_, table, w) = table_replace fake_pump ''traffic'' (live 1) table w;
          (table, w) = table_clear fake_pump table w
      in table_is_empty table \<and> live 0 \<in> w \<and> live 1 \<in> w)"

definition a_name_that_was_never_registered_is_not_live :: bool where
  "a_name_that_was_never_registered_is_not_live \<longleftrightarrow>
     \<not> table_is_live fake_pump ''state'' new_table {} \<and> table_len (new_table :: FakePump PumpTable) = 0 \<and>
     table_is_empty (new_table :: FakePump PumpTable)"

lemma pump_table_tests:
  "a_poisoned_table_keeps_answering_instead_of_killing_the_process"
  "replacing_reports_that_it_displaced_a_live_pump"
  "displacing_a_pump_that_already_finished_is_not_reported_as_live"
  "the_displaced_pump_is_let_go" "removing_lets_the_pump_go_and_empties_the_table"
  "two_names_do_not_displace_each_other" "clearing_lets_every_pump_go"
  "a_name_that_was_never_registered_is_not_live"
  by (simp_all add: a_poisoned_table_keeps_answering_instead_of_killing_the_process_def
      replacing_reports_that_it_displaced_a_live_pump_def
      displacing_a_pump_that_already_finished_is_not_reported_as_live_def the_displaced_pump_is_let_go_def
      removing_lets_the_pump_go_and_empties_the_table_def two_names_do_not_displace_each_other_def
      clearing_lets_every_pump_go_def a_name_that_was_never_registered_is_not_live_def Let_def
      table_replace_def table_remove_def table_clear_def table_is_live_def table_len_def table_is_empty_def
      insert_entry_def remove_entry_def drop_displaced_def new_table_def fake_pump_def live_def already_finished_def)

section \<open>The event pump\<close>

text \<open>A receiver of capacity two that is eight values behind is told so, and has the last two.\<close>

definition pump_resumes_after_a_lagging_receiver :: bool where
  "pump_resumes_after_a_lagging_receiver \<longleftrightarrow>
     (case pump [Lagged 6, Received (6 :: u32), Received 7, Received 999, Closed] (recording (\<lambda>_. True)) [] of
        (how, got) \<Rightarrow> how = ChannelClosed \<and> 999 \<in> set got)"

definition pump_stops_when_the_sink_refuses :: bool where
  "pump_stops_when_the_sink_refuses \<longleftrightarrow>
     snd (pump [Received (1 :: u32), Received 2] (\<lambda>_ count. (False, Suc count)) 0) = 1"

definition pump_ends_when_every_sender_is_gone :: bool where
  "pump_ends_when_every_sender_is_gone \<longleftrightarrow>
     pump [Received (1 :: u32), Closed] (recording (\<lambda>_. True)) [] = (ChannelClosed, [1])"

lemma event_pump_tests:
  "pump_resumes_after_a_lagging_receiver" "pump_stops_when_the_sink_refuses" "pump_ends_when_every_sender_is_gone"
  by (simp_all add: pump_resumes_after_a_lagging_receiver_def pump_stops_when_the_sink_refuses_def
      pump_ends_when_every_sender_is_gone_def recording_def)

section \<open>Lines of the log\<close>

definition probe :: "Level \<Rightarrow> string \<Rightarrow> (string \<times> field_value) list \<Rightarrow> log_event" where
  "probe level msg flds =
     \<lparr>ev_level = level, ev_target = ''probe'', ev_fields = (''message'', DebugValue msg) # flds\<rparr>"

definition an_event_becomes_one_line_with_level_target_message_and_fields :: bool where
  "an_event_becomes_one_line_with_level_target_message_and_fields \<longleftrightarrow>
     lines_sent (dispatch (probe INFO ''hello from rust'' [(''attempt'', DebugValue ''2'')]) (new_subscriber INFO)) =
       [''INFO probe: hello from rust attempt=2'']"

definition a_text_field_is_written_without_quotes :: bool where
  "a_text_field_is_written_without_quotes \<longleftrightarrow>
     lines_sent (dispatch (probe WARN ''slow write'' [(''file'', StrValue ''store.json'')]) (new_subscriber INFO)) =
       [''WARN probe: slow write file=store.json'']"

definition an_event_more_verbose_than_the_level_is_dropped :: bool where
  "an_event_more_verbose_than_the_level_is_dropped \<longleftrightarrow>
     lines_sent (dispatch (probe DEBUG ''noise'' []) (new_subscriber INFO)) = []"

definition an_event_inside_a_span_still_becomes_a_line :: bool where
  "an_event_inside_a_span_still_becomes_a_line \<longleftrightarrow>
     lines_sent (dispatch (probe INFO ''inside'' []) (snd (new_span (new_subscriber INFO)))) = [''INFO probe: inside'']"

lemma line_subscriber_tests:
  "an_event_becomes_one_line_with_level_target_message_and_fields" "a_text_field_is_written_without_quotes"
  "an_event_more_verbose_than_the_level_is_dropped" "an_event_inside_a_span_still_becomes_a_line"
  by (simp_all add: an_event_becomes_one_line_with_level_target_message_and_fields_def line_of_def probe_def
      a_text_field_is_written_without_quotes_def an_event_more_verbose_than_the_level_is_dropped_def
      an_event_inside_a_span_still_becomes_a_line_def dispatch_def log_event_def level_enabled_def
      less_eq_Level_def new_subscriber_def new_span_def)

section \<open>The runtime\<close>

text \<open>A process whose runtime can be built and that has done nothing yet.\<close>

definition fresh_process :: bridge_world where
  "fresh_process = \<lparr>runtime_cell = None, runtime_builds = Ok (), built = 0, tasks = [], lines_cell = None,
     subscriber_set = False, channels = 0\<rparr>"

definition run_on_runtime_carries_the_value_back :: bool where
  "run_on_runtime_carries_the_value_back \<longleftrightarrow> fst (run_on_runtime (Ok (7 :: u32)) fresh_process) = Ok 7"

definition run_on_runtime_reports_a_panicking_task_instead_of_unwinding :: "string \<Rightarrow> bool" where
  "run_on_runtime_reports_a_panicking_task_instead_of_unwinding boom \<longleftrightarrow>
     (\<exists>reason. fst (run_on_runtime (Err boom :: string + unit) fresh_process) = Err (TaskPanicked reason))"

definition runtime_is_built_once :: bool where
  "runtime_is_built_once \<longleftrightarrow>
     (let (first, w) = runtime fresh_process; (second, w) = runtime w
      in is_ok first \<and> is_ok second \<and> built w = 1)"

definition a_process_that_already_has_a_subscriber_gets_a_typed_refusal :: bool where
  "a_process_that_already_has_a_subscriber_gets_a_typed_refusal \<longleftrightarrow>
     (\<exists>reason. fst (log_lines (fresh_process\<lparr>subscriber_set := True\<rparr>)) = Err (LogUnavailable reason))"

text \<open>
  What becomes of the tasks while a test sleeps: one that was asked to stop ends, and so does one
  whose own work is over by then.
\<close>

definition after_a_sleep :: "nat set \<Rightarrow> bridge_world \<Rightarrow> bridge_world" where
  "after_a_sleep over w =
     w\<lparr>tasks := map (\<lambda>h. if h \<in> over \<or> tasks w ! h = Aborting then Ended else tasks w ! h) [0..<length (tasks w)]\<rparr>"

definition dropping_the_task_stops_the_work :: bool where
  "dropping_the_task_stops_the_work \<longleftrightarrow>
     (case pump_task_spawn fresh_process of
        (Inr task, w) \<Rightarrow> not_running task (drop_pump pump_task task w)
      | _ \<Rightarrow> False)"

definition abort_is_observable :: bool where
  "abort_is_observable \<longleftrightarrow>
     (case pump_task_spawn fresh_process of
        (Inr task, w) \<Rightarrow> is_finished pump_task task (after_a_sleep {} (abort pump_task task w))
      | _ \<Rightarrow> False)"

definition a_task_that_completes_reports_finished :: bool where
  "a_task_that_completes_reports_finished \<longleftrightarrow>
     (case pump_task_spawn fresh_process of
        (Inr task, w) \<Rightarrow> is_finished pump_task task (after_a_sleep {task} w)
      | _ \<Rightarrow> False)"

lemma runtime_tests:
  "run_on_runtime_carries_the_value_back" "run_on_runtime_reports_a_panicking_task_instead_of_unwinding boom"
  "runtime_is_built_once" "a_process_that_already_has_a_subscriber_gets_a_typed_refusal"
  "dropping_the_task_stops_the_work" "abort_is_observable" "a_task_that_completes_reports_finished"
  by (simp_all add: run_on_runtime_carries_the_value_back_def run_on_runtime_def runtime_def fresh_process_def Let_def
      run_on_runtime_reports_a_panicking_task_instead_of_unwinding_def runtime_is_built_once_def
      a_process_that_already_has_a_subscriber_gets_a_typed_refusal_def log_lines_def
      dropping_the_task_stops_the_work_def abort_is_observable_def a_task_that_completes_reports_finished_def
      pump_task_spawn_def spawn_task_def pump_task_def abort_task_def task_finished_def not_running_def after_a_sleep_def)

end
