(* ===== verification/HttpTests.thy ===== *)
theory HttpTests
  imports ApiError RedactRoute Multipart
begin

text \<open>
  The unit tests of the HTTP client, run on the model: those of \<open>error.rs\<close>, \<open>client/list.rs\<close>,
  \<open>client/executor.rs\<close>, \<open>client/safe_route.rs\<close> and \<open>client/multipart.rs\<close> under
  \<open>toolkit/dovetail_http_client/rust/src\<close>.  A JSON text of a test stands for the value it is read
  as; how a value is printed is the parameter \<open>to_string\<close>, and a printed value reads back.
\<close>

section \<open>Kinds of errors\<close>

definition o_429_nao_e_requisicao_invalida :: bool where
  "o_429_nao_e_requisicao_invalida \<longleftrightarrow>
     (let erro = TooManyRequests 429 None
      in (case erro of TooManyRequests status _ \<Rightarrow> status = 429 | _ \<Rightarrow> False) \<and>
         \<not> (case erro of BadRequest _ _ \<Rightarrow> True | _ \<Rightarrow> False))"

definition o_bloqueio_nao_entra_no_backoff :: bool where
  "o_bloqueio_nao_entra_no_backoff \<longleftrightarrow>
     \<not> is_retryable (TooManyRequests 429 None) \<and> is_retryable (ServerError 500 None)"

definition o_status_e_o_corpo_ficam_disponiveis :: bool where
  "o_status_e_o_corpo_ficam_disponiveis \<longleftrightarrow>
     (let erro = Unauthorized 401 None in error_status erro = Some 401 \<and> error_body erro = None)"

definition classify :: "u16 \<Rightarrow> ApiError" where
  "classify status = map_status_error status None"

definition the_429_is_not_an_invalid_request :: bool where
  "the_429_is_not_an_invalid_request \<longleftrightarrow>
     (let err = classify 429
      in (case err of TooManyRequests status _ \<Rightarrow> status = 429 | _ \<Rightarrow> False) \<and>
         \<not> (case err of BadRequest _ _ \<Rightarrow> True | _ \<Rightarrow> False))"

definition the_throttle_does_not_enter_the_backoff :: bool where
  "the_throttle_does_not_enter_the_backoff \<longleftrightarrow> \<not> is_retryable (classify 429) \<and> is_retryable (classify 500)"

definition the_other_statuses_did_not_change :: bool where
  "the_other_statuses_did_not_change \<longleftrightarrow>
     (case classify 401 of Unauthorized _ _ \<Rightarrow> True | _ \<Rightarrow> False) \<and>
     (case classify 403 of Forbidden _ _ \<Rightarrow> True | _ \<Rightarrow> False) \<and>
     (case classify 400 of BadRequest _ _ \<Rightarrow> True | _ \<Rightarrow> False) \<and>
     (case classify 404 of BadRequest _ _ \<Rightarrow> True | _ \<Rightarrow> False)"

lemma error_kind_tests:
  "o_429_nao_e_requisicao_invalida" "o_bloqueio_nao_entra_no_backoff" "o_status_e_o_corpo_ficam_disponiveis"
  "the_429_is_not_an_invalid_request" "the_throttle_does_not_enter_the_backoff" "the_other_statuses_did_not_change"
  by code_simp+

section \<open>Bodies of errors\<close>

text \<open>Values of the tests, and the body a client reads from one.\<close>

abbreviation num :: "u64 \<Rightarrow> Value" where "num n \<equiv> Number (PosInt n)"

definition payload :: "(Value \<Rightarrow> string) \<Rightarrow> Value \<Rightarrow> ApiErrorPayload" where
  "payload to_string v = from_value to_string v"

definition no_payload :: ApiErrorPayload where
  "no_payload = \<lparr>pl_message = None, pl_error = None, pl_status_code = None, pl_code = None,
     pl_active_connections = None, pl_raw = None\<rparr>"

definition o_formato_plano_continua_valendo :: "(Value \<Rightarrow> string) \<Rightarrow> bool" where
  "o_formato_plano_continua_valendo to_string \<longleftrightarrow>
     (let p = payload to_string (Object [(''message'', String ''ja conectado''), (''code'', String ''ALREADY_CONNECTED''),
                (''statusCode'', num 409), (''activeConnections'', num 1)])
      in pl_message p = Some ''ja conectado'' \<and> pl_code p = Some ''ALREADY_CONNECTED'' \<and>
         pl_status_code p = Some 409 \<and> pl_active_connections p = Some 1)"

definition o_objeto_aninhado_em_message_entrega_os_mesmos_campos :: "(Value \<Rightarrow> string) \<Rightarrow> bool" where
  "o_objeto_aninhado_em_message_entrega_os_mesmos_campos to_string \<longleftrightarrow>
     (let p = payload to_string (Object [(''statusCode'', num 409), (''message'', Object
                [(''message'', String ''ja conectado''), (''code'', String ''ALREADY_CONNECTED''),
                 (''activeConnections'', num 2)])])
      in pl_message p = Some ''ja conectado'' \<and> pl_code p = Some ''ALREADY_CONNECTED'' \<and>
         pl_status_code p = Some 409 \<and> pl_active_connections p = Some 2)"

definition o_campo_do_topo_vence_o_aninhado :: "(Value \<Rightarrow> string) \<Rightarrow> bool" where
  "o_campo_do_topo_vence_o_aninhado to_string \<longleftrightarrow>
     pl_code (payload to_string (Object [(''code'', String ''TOPO''),
       (''message'', Object [(''code'', String ''ANINHADO'')])])) = Some ''TOPO''"

definition a_lista_de_validacao_vira_uma_linha :: "(Value \<Rightarrow> string) \<Rightarrow> bool" where
  "a_lista_de_validacao_vira_uma_linha to_string \<longleftrightarrow>
     (let p = payload to_string (Object [(''statusCode'', num 400),
                (''message'', Array [String ''email invalido'', String ''senha curta''])])
      in pl_message p = Some ''email invalido, senha curta'' \<and> pl_status_code p = Some 400)"

definition a_lista_aninhada_tambem :: "(Value \<Rightarrow> string) \<Rightarrow> bool" where
  "a_lista_aninhada_tambem to_string \<longleftrightarrow>
     pl_message (payload to_string (Object [(''message'', Object
       [(''message'', Array [String ''a'', String ''b''])])])) = Some ''a, b''"

definition corpo_sem_nenhum_campo_conhecido_nao_derruba_a_desserializacao :: "(Value \<Rightarrow> string) \<Rightarrow> bool" where
  "corpo_sem_nenhum_campo_conhecido_nao_derruba_a_desserializacao to_string \<longleftrightarrow>
     (let v = Object [(''algo'', String ''outro'')]; p = payload to_string v
      in p = no_payload\<lparr>pl_raw := Some (to_string v)\<rparr> \<and> best_message p = None)"

definition o_campo_que_o_cliente_nao_conhece_fica_no_corpo ::
  "(string \<Rightarrow> Value option) \<Rightarrow> (Value \<Rightarrow> string) \<Rightarrow> bool" where
  "o_campo_que_o_cliente_nao_conhece_fica_no_corpo from_str to_string \<longleftrightarrow>
     (let suspension = Object [(''reason'', String ''chargeback''), (''days'', num 7)];
          p = payload to_string (Object [(''code'', String ''ACCOUNT_SUSPENDED''), (''suspension'', suspension)])
      in pl_code p = Some ''ACCOUNT_SUSPENDED'' \<and> payload_field from_str p ''suspension'' = Some suspension \<and>
         payload_field from_str p ''ausente'' = None)"

definition o_campo_aninhado_em_message_tambem_e_achado_e_o_do_topo_vence ::
  "(string \<Rightarrow> Value option) \<Rightarrow> (Value \<Rightarrow> string) \<Rightarrow> bool" where
  "o_campo_aninhado_em_message_tambem_e_achado_e_o_do_topo_vence from_str to_string \<longleftrightarrow>
     (let aninhado = payload to_string (Object [(''message'', Object [(''message'', String ''x''),
                       (''suspension'', Object [(''days'', num 3)])])]);
          os_dois = payload to_string (Object [(''extra'', num 1), (''message'', Object [(''extra'', num 2)])])
      in payload_field from_str aninhado ''suspension'' = Some (Object [(''days'', num 3)]) \<and>
         payload_field from_str os_dois ''extra'' = Some (num 1))"

definition sem_corpo_bruto_nenhum_campo_e_achado :: "(string \<Rightarrow> Value option) \<Rightarrow> bool" where
  "sem_corpo_bruto_nenhum_campo_e_achado from_str \<longleftrightarrow> payload_field from_str no_payload ''suspension'' = None"

definition best_message_cai_no_error_quando_nao_ha_message :: "(Value \<Rightarrow> string) \<Rightarrow> bool" where
  "best_message_cai_no_error_quando_nao_ha_message to_string \<longleftrightarrow>
     best_message (payload to_string (Object [(''error'', String ''Bad Request'')])) = Some ''Bad Request''"

definition numero_fora_da_faixa_vira_ausente_em_vez_de_erro :: "(Value \<Rightarrow> string) \<Rightarrow> bool" where
  "numero_fora_da_faixa_vira_ausente_em_vez_de_erro to_string \<longleftrightarrow>
     pl_status_code (payload to_string (Object [(''statusCode'', num 70000)])) = None"

lemmas payload_test_defs =
  payload_def from_value_def message_of_def text_or_lines_def join_items_def nested_get_def nested_message_def
  text_of_def number_of_def or_else_def List.map_filter_def payload_field_def best_message_def no_payload_def Let_def

lemma payload_tests:
  "o_formato_plano_continua_valendo to_string" "o_objeto_aninhado_em_message_entrega_os_mesmos_campos to_string"
  "o_campo_do_topo_vence_o_aninhado to_string" "a_lista_de_validacao_vira_uma_linha to_string"
  "a_lista_aninhada_tambem to_string" "corpo_sem_nenhum_campo_conhecido_nao_derruba_a_desserializacao to_string"
  "sem_corpo_bruto_nenhum_campo_e_achado from_str" "best_message_cai_no_error_quando_nao_ha_message to_string"
  "numero_fora_da_faixa_vira_ausente_em_vez_de_erro to_string"
  by (simp_all add: payload_test_defs o_formato_plano_continua_valendo_def
      o_objeto_aninhado_em_message_entrega_os_mesmos_campos_def o_campo_do_topo_vence_o_aninhado_def
      a_lista_de_validacao_vira_uma_linha_def a_lista_aninhada_tambem_def
      corpo_sem_nenhum_campo_conhecido_nao_derruba_a_desserializacao_def sem_corpo_bruto_nenhum_campo_e_achado_def
      best_message_cai_no_error_quando_nao_ha_message_def numero_fora_da_faixa_vira_ausente_em_vez_de_erro_def)

lemma payload_field_tests:
  assumes "\<And>v. from_str (to_string v) = Some v"
  shows "o_campo_que_o_cliente_nao_conhece_fica_no_corpo from_str to_string"
    and "o_campo_aninhado_em_message_tambem_e_achado_e_o_do_topo_vence from_str to_string"
  using assms
  by (simp_all add: payload_test_defs o_campo_que_o_cliente_nao_conhece_fica_no_corpo_def
      o_campo_aninhado_em_message_tambem_e_achado_e_o_do_topo_vence_def)

section \<open>List envelopes\<close>

definition row :: "string \<Rightarrow> Value" where "row i = Object [(''id'', String i)]"

definition a_bare_array_is_returned_as_is :: bool where
  "a_bare_array_is_returned_as_is \<longleftrightarrow> length (extract_list_envelope (Array [row ''a'', row ''b''])) = 2"

definition a_find_and_count_tuple_is_unwrapped :: bool where
  "a_find_and_count_tuple_is_unwrapped \<longleftrightarrow>
     length (extract_list_envelope (Array [Array [row ''a'', row ''b'', row ''c''], num 39])) = 3"

definition a_data_envelope_is_unwrapped :: bool where
  "a_data_envelope_is_unwrapped \<longleftrightarrow> length (extract_list_envelope (Object [(''data'', Array [row ''a''])])) = 1"

definition an_items_envelope_is_unwrapped :: bool where
  "an_items_envelope_is_unwrapped \<longleftrightarrow> length (extract_list_envelope (Object [(''items'', Array [row ''a''])])) = 1"

definition an_empty_array_is_an_empty_list :: bool where
  "an_empty_array_is_an_empty_list \<longleftrightarrow> extract_list_envelope (Array []) = []"

definition an_unknown_shape_is_an_empty_list :: bool where
  "an_unknown_shape_is_an_empty_list \<longleftrightarrow>
     extract_list_envelope (Object [(''foo'', String ''bar'')]) = [] \<and>
     extract_list_envelope (String ''nothing'') = [] \<and> extract_list_envelope (num 42) = []"

definition the_caller_keys_are_tried_before_the_defaults :: bool where
  "the_caller_keys_are_tried_before_the_defaults \<longleftrightarrow>
     (let v = Object [(''otps'', Array [row ''a'']), (''data'', Array [row ''b''])];
          items = extract_list_envelope_with_keys v [''otps'']
      in length items = 1 \<and> object_get (hd items) ''id'' = Some (String ''a''))"

definition the_caller_key_is_only_matched_when_present :: bool where
  "the_caller_key_is_only_matched_when_present \<longleftrightarrow>
     (let items = extract_list_envelope_with_keys (Object [(''data'', Array [row ''b''])]) [''otps'']
      in length items = 1 \<and> object_get (hd items) ''id'' = Some (String ''b''))"

lemma list_tests:
  "a_bare_array_is_returned_as_is" "a_find_and_count_tuple_is_unwrapped" "a_data_envelope_is_unwrapped"
  "an_items_envelope_is_unwrapped" "an_empty_array_is_an_empty_list" "an_unknown_shape_is_an_empty_list"
  "the_caller_keys_are_tried_before_the_defaults" "the_caller_key_is_only_matched_when_present"
  by code_simp+

section \<open>Routes\<close>

definition api :: "string \<Rightarrow> string" where "api path = ''https://api.example.com'' @ path"

definition secrets_in_the_path_are_redacted :: bool where
  "secrets_in_the_path_are_redacted \<longleftrightarrow>
     (\<forall>(url, secret)\<in>set
        [(api ''/account/confirm/482913'', ''482913''),
         (api ''/user/maria%40empresa.com/reset'', ''maria''),
         (api ''/server/5c4a2f40-981b-49a2-8cee-eb169351cbf5'', ''5c4a2f40''),
         (api ''/auth?token=abcdef123456'', ''abcdef'')].
        \<not> contains secret (redact_route url))"

definition the_shape_of_the_route_survives :: bool where
  "the_shape_of_the_route_survives \<longleftrightarrow>
     (let redacted = redact_route (api ''/account/confirm/482913'')
      in contains ''api.example.com'' redacted \<and> contains ''account'' redacted \<and> contains ''confirm'' redacted)"

definition the_whole_query_string_is_dropped :: bool where
  "the_whole_query_string_is_dropped \<longleftrightarrow>
     (let redacted = redact_route (api ''/x?token=secret&user=maria'')
      in \<not> contains ''secret'' redacted \<and> \<not> contains ''maria'' redacted)"

lemma route_tests:
  "secrets_in_the_path_are_redacted" "the_shape_of_the_route_survives" "the_whole_query_string_is_dropped"
  by code_simp+

section \<open>Multipart bodies\<close>

text \<open>The bytes of a text back as characters.\<close>

definition body_text :: "string \<Rightarrow> string \<Rightarrow> string \<Rightarrow> string \<Rightarrow> string" where
  "body_text boundary filename kind content =
     map (\<lambda>b. char_of (unat b)) (multipart_body boundary filename kind (as_bytes content))"

definition quoted :: "string \<Rightarrow> string" where "quoted s = [CHR 0x22] @ s @ [CHR 0x22]"

definition the_body_opens_and_closes_with_the_boundary :: bool where
  "the_body_opens_and_closes_with_the_boundary \<longleftrightarrow>
     (let body = body_text ''EDGE'' ''note.txt'' ''text/plain'' ''hi''
      in starts_with (''--EDGE'' @ CRLF) body \<and> starts_with (rev (CRLF @ ''--EDGE--'' @ CRLF)) (rev body))"

definition the_field_is_the_one_the_backend_reads_and_carries_the_filename :: bool where
  "the_field_is_the_one_the_backend_reads_and_carries_the_filename \<longleftrightarrow>
     (let body = body_text ''EDGE'' ''note.txt'' ''text/plain'' ''hi''
      in contains (''Content-Disposition: form-data; name='' @ quoted ''file'' @ ''; filename='' @ quoted ''note.txt'' @ CRLF)
           body \<and>
         contains (''Content-Type: text/plain'' @ CRLF @ CRLF) body)"

definition the_content_travels_intact_between_the_headers :: bool where
  "the_content_travels_intact_between_the_headers \<longleftrightarrow>
     (let body = multipart_body ''EDGE'' ''a.bin'' ''application/octet-stream'' [0, 1, 2, 255]
      in case find_str (as_bytes (CRLF @ CRLF)) body of
           Some start \<Rightarrow> take 4 (drop (start + 4) body) = [0, 1, 2, 255]
         | None \<Rightarrow> False)"

definition the_filename_does_not_inject_a_header :: bool where
  "the_filename_does_not_inject_a_header \<longleftrightarrow>
     (let body = body_text ''EDGE'' (''a'' @ CRLF @ ''X-Evil: 1'' @ CRLF @ CRLF @ ''b'') ''text/plain'' ''x''
      in \<not> (\<exists>line\<in>set (str_lines body). starts_with ''X-Evil:'' line) \<and> matches 0 (CRLF @ CRLF) body = 1)"

definition quotes_and_backslashes_in_the_name_do_not_break_the_header :: bool where
  "quotes_and_backslashes_in_the_name_do_not_break_the_header \<longleftrightarrow>
     contains (''filename='' @ quoted ''re_port_file.pdf'')
       (body_text ''EDGE'' (''re'' @ [CHR 0x22] @ ''port'' @ [CHR 0x5C] @ ''file.pdf'') ''application/pdf'' ''x'')"

definition the_boundary_does_not_appear_in_the_body :: "(bytes \<Rightarrow> bytes) \<Rightarrow> bool" where
  "the_boundary_does_not_appear_in_the_body sha256 \<longleftrightarrow>
     (\<forall>content\<in>set [as_bytes ''anything'', [], replicate 64 0].
        let boundary = boundary_for sha256 content
        in matches 0 (as_bytes boundary) (multipart_body boundary ''a.bin'' ''application/octet-stream'' content) = 2)"

definition the_boundary_is_stable_for_the_same_content :: "(bytes \<Rightarrow> bytes) \<Rightarrow> bool" where
  "the_boundary_is_stable_for_the_same_content sha256 \<longleftrightarrow>
     boundary_for sha256 (as_bytes ''hi'') = boundary_for sha256 (as_bytes ''hi'') \<and>
     boundary_for sha256 (as_bytes ''hi'') \<noteq> boundary_for sha256 (as_bytes ''hello'')"

text \<open>The first twelve bytes of SHA-256 of the contents of the tests.\<close>

definition sha256_of_the_tests :: "bytes \<Rightarrow> bytes" where
  "sha256_of_the_tests content =
     (if content = as_bytes ''anything'' then [238, 8, 116, 23, 11, 127, 111, 50, 184, 194, 172, 149]
      else if content = [] then [227, 176, 196, 66, 152, 252, 28, 20, 154, 251, 244, 200]
      else if content = replicate 64 0 then [245, 165, 253, 66, 209, 106, 32, 48, 39, 152, 239, 110]
      else if content = as_bytes ''hi'' then [143, 67, 67, 70, 100, 143, 107, 150, 223, 137, 221, 169]
      else if content = as_bytes ''hello'' then [44, 242, 77, 186, 95, 176, 163, 14, 38, 232, 59, 42]
      else [])"

lemma body_text_shown:
  "body_text boundary filename kind content = multipart_head boundary filename kind @ content @ multipart_tail boundary"
proof -
  have "unat (of_char c :: u8) = of_char c" for c :: char
    unfolding of_nat_of_char [symmetric, where 'a = u8]
    by (subst unat_of_nat) (use of_char_mod_256 [of c] in \<open>simp add: take_bit_eq_mod del: of_char_mod_256\<close>)
  then have "char_of (unat (of_char c :: u8)) = c" for c by simp
  then show ?thesis by (simp add: body_text_def multipart_body_def as_bytes_def comp_def)
qed

lemma multipart_opening_test:
  "the_body_opens_and_closes_with_the_boundary"
  by (simp only: the_body_opens_and_closes_with_the_boundary_def body_text_shown) code_simp

lemma multipart_field_test:
  "the_field_is_the_one_the_backend_reads_and_carries_the_filename"
  by (simp only: the_field_is_the_one_the_backend_reads_and_carries_the_filename_def body_text_shown) code_simp

lemma multipart_injection_test:
  "the_filename_does_not_inject_a_header"
  by (simp only: the_filename_does_not_inject_a_header_def body_text_shown) code_simp

lemma multipart_quotes_test:
  "quotes_and_backslashes_in_the_name_do_not_break_the_header"
  by (simp only: quotes_and_backslashes_in_the_name_do_not_break_the_header_def body_text_shown) code_simp

lemma multipart_content_test:
  "the_content_travels_intact_between_the_headers"
  by code_simp

lemma multipart_stability_test:
  "the_boundary_is_stable_for_the_same_content sha256_of_the_tests"
  by code_simp

lemma multipart_boundary_test:
  "the_boundary_does_not_appear_in_the_body sha256_of_the_tests"
  by code_simp

end
