(* ===== verification/ShortcutTests.thy ===== *)
theory ShortcutTests
  imports Shortcut
begin

text \<open>
  The unit tests of the shortcut channel, run on the model: those of \<open>domain/backend.rs\<close>,
  \<open>domain/status.rs\<close>, \<open>infra/event_pump.rs\<close> and \<open>infra/hotkey_parser.rs\<close> under
  \<open>toolkit/dovetail_shortcut_channel/rust/src\<close>.
\<close>

section \<open>Backends\<close>

definition a_wayland_session_running_xwayland_is_not_an_x11_session :: bool where
  "a_wayland_session_running_xwayland_is_not_an_x11_session \<longleftrightarrow>
     for_session (Some ''wayland'') (Some ''wayland-0'') (Some '':0'') = WaylandPortal"

definition a_compositor_started_from_a_tty_is_a_wayland_session :: bool where
  "a_compositor_started_from_a_tty_is_a_wayland_session \<longleftrightarrow>
     for_session (Some ''tty'') (Some ''wayland-1'') (Some '':0'') = WaylandPortal"

definition a_tty_compositor_without_xwayland_is_still_a_session :: bool where
  "a_tty_compositor_without_xwayland_is_still_a_session \<longleftrightarrow>
     for_session (Some ''tty'') (Some ''wayland-1'') None = WaylandPortal"

definition a_wayland_socket_with_nothing_declared_is_still_wayland :: bool where
  "a_wayland_socket_with_nothing_declared_is_still_wayland \<longleftrightarrow>
     for_session None (Some ''wayland-0'') (Some '':0'') = WaylandPortal"

definition a_declared_x11_session_wins_over_a_stale_wayland_socket :: bool where
  "a_declared_x11_session_wins_over_a_stale_wayland_socket \<longleftrightarrow>
     for_session (Some ''x11'') (Some ''wayland-0'') (Some '':0'') = X11GrabKey"

definition an_x11_display_alone_is_an_x11_session :: bool where
  "an_x11_display_alone_is_an_x11_session \<longleftrightarrow> for_session None None (Some '':0'') = X11GrabKey"

definition a_session_with_no_socket_at_all_has_no_backend :: bool where
  "a_session_with_no_socket_at_all_has_no_backend \<longleftrightarrow> for_session None (Some ''  '') (Some []) = NoBackend"

definition only_the_three_backends_that_grab_a_key_can_register :: bool where
  "only_the_three_backends_that_grab_a_key_can_register \<longleftrightarrow>
     registers Win32RegisterHotKey \<and> registers CarbonEventHotKey \<and> registers X11GrabKey \<and>
     \<not> registers WaylandPortal \<and> \<not> registers NoBackend"

definition a_backend_that_cannot_register_says_which_one_it_is :: bool where
  "a_backend_that_cannot_register_says_which_one_it_is \<longleftrightarrow>
     contains ''desktop portal'' (cannot_register WaylandPortal) \<and> contains ''no display'' (cannot_register NoBackend)"

definition the_wire_codes_are_the_ones_dart_reads :: bool where
  "the_wire_codes_are_the_ones_dart_reads \<longleftrightarrow>
     map backend_code [NoBackend, Win32RegisterHotKey, CarbonEventHotKey, X11GrabKey, WaylandPortal] = [0, 1, 2, 3, 4]"

lemma backend_tests:
  "a_wayland_session_running_xwayland_is_not_an_x11_session" "a_compositor_started_from_a_tty_is_a_wayland_session"
  "a_tty_compositor_without_xwayland_is_still_a_session" "a_wayland_socket_with_nothing_declared_is_still_wayland"
  "a_declared_x11_session_wins_over_a_stale_wayland_socket" "an_x11_display_alone_is_an_x11_session"
  "a_session_with_no_socket_at_all_has_no_backend" "only_the_three_backends_that_grab_a_key_can_register"
  "a_backend_that_cannot_register_says_which_one_it_is" "the_wire_codes_are_the_ones_dart_reads"
  by code_simp+

section \<open>Statuses\<close>

definition a_refused_combination_should_ask_for_another_key :: bool where
  "a_refused_combination_should_ask_for_another_key \<longleftrightarrow>
     for_registration (FailedToRegister ''hotkey is reserved by the system'') = TakenBySystem"

definition an_absent_backend_should_not_read_as_a_busy_key :: bool where
  "an_absent_backend_should_not_read_as_a_busy_key \<longleftrightarrow>
     for_registration (OsError ''no display server'') = BackendUnavailable \<and>
     for_registration FailedToWatchMediaKeyEvent = BackendUnavailable"

definition a_key_the_manager_already_holds_should_say_so :: "hotkey_lib \<Rightarrow> bool" where
  "a_key_the_manager_already_holds_should_say_so lib \<longleftrightarrow>
     (case parse_chord lib ''Ctrl+Shift+V'' of
        Inr hotkey \<Rightarrow> for_registration (AlreadyRegistered hotkey) = AlreadyBound
      | Inl _ \<Rightarrow> False)"

definition a_chord_the_crate_cannot_read_should_be_malformed :: bool where
  "a_chord_the_crate_cannot_read_should_be_malformed \<longleftrightarrow>
     (\<forall>error\<in>set [HotKeyParseError ''bad'', UnrecognizedHotKeyCode ''Frobnicate'', EmptyHotKeyToken ''Ctrl++A'',
        UnexpectedHotKeyFormat ''A+Ctrl'']. for_registration error = MalformedChord)"

definition every_status_should_keep_the_number_the_dart_side_reads :: bool where
  "every_status_should_keep_the_number_the_dart_side_reads \<longleftrightarrow>
     map status_code [StatusOk, MalformedChord, TakenBySystem, AlreadyBound, NotBound, BackendUnavailable] =
       [0, 1, 2, 3, 4, 5]"

lemma status_tests:
  "a_refused_combination_should_ask_for_another_key" "an_absent_backend_should_not_read_as_a_busy_key"
  "a_chord_the_crate_cannot_read_should_be_malformed" "every_status_should_keep_the_number_the_dart_side_reads"
  by code_simp+

section \<open>Accelerators\<close>

text \<open>
  What the tests expect of an accelerator, over a library that reads some of them.
\<close>

definition chord_id :: "hotkey_lib \<Rightarrow> string \<Rightarrow> u32 option" where
  "chord_id lib accelerator = map_option hk_id (ok (parse_chord lib accelerator))"

definition should_read_the_accelerator_syntax_the_installed_park_already_uses :: "hotkey_lib \<Rightarrow> bool" where
  "should_read_the_accelerator_syntax_the_installed_park_already_uses lib \<longleftrightarrow>
     is_ok (parse_chord lib ''Control+Shift+KeyV'') \<and> is_ok (parse_chord lib ''CommandOrControl+KeyK'') \<and>
     is_ok (parse_chord lib ''Alt+F4'')"

definition should_refuse_an_empty_accelerator :: "hotkey_lib \<Rightarrow> bool" where
  "should_refuse_an_empty_accelerator lib \<longleftrightarrow> \<not> is_ok (parse_chord lib ''   '')"

definition should_refuse_a_key_that_does_not_exist :: "hotkey_lib \<Rightarrow> bool" where
  "should_refuse_a_key_that_does_not_exist lib \<longleftrightarrow> \<not> is_ok (parse_chord lib ''Control+KeyNotAKey'')"

definition the_same_chord_should_always_carry_the_same_id :: "hotkey_lib \<Rightarrow> bool" where
  "the_same_chord_should_always_carry_the_same_id lib \<longleftrightarrow>
     chord_id lib ''Control+Shift+KeyV'' \<noteq> None \<and>
     chord_id lib ''Control+Shift+KeyV'' = chord_id lib ''Control+Shift+KeyV''"

definition a_different_chord_should_carry_a_different_id :: "hotkey_lib \<Rightarrow> bool" where
  "a_different_chord_should_carry_a_different_id lib \<longleftrightarrow>
     chord_id lib ''Control+Shift+KeyV'' \<noteq> None \<and> chord_id lib ''Control+Shift+KeyB'' \<noteq> None \<and>
     chord_id lib ''Control+Shift+KeyV'' \<noteq> chord_id lib ''Control+Shift+KeyB''"

definition the_order_of_the_modifiers_should_not_change_the_identity :: "hotkey_lib \<Rightarrow> bool" where
  "the_order_of_the_modifiers_should_not_change_the_identity lib \<longleftrightarrow>
     chord_id lib ''Control+Shift+KeyV'' \<noteq> None \<and>
     chord_id lib ''Control+Shift+KeyV'' = chord_id lib ''Shift+Control+KeyV''"

definition whitespace_around_the_accelerator_should_not_change_it :: "hotkey_lib \<Rightarrow> bool" where
  "whitespace_around_the_accelerator_should_not_change_it lib \<longleftrightarrow>
     chord_id lib ''Control+KeyV'' \<noteq> None \<and> chord_id lib ''  Control+KeyV  '' = chord_id lib ''Control+KeyV''"

text \<open>
  That an empty accelerator is refused and that spaces around one are dropped is the channel's own; a
  library that reads the accelerators of the tests, with one identity for both orders of the modifiers
  and another for another key, gives what the other tests ask for.
\<close>

lemma trimmed_accelerators:
  "trim ''   '' = []" "trim ''  Control+KeyV  '' = ''Control+KeyV''" "trim ''Control+KeyV'' = ''Control+KeyV''"
  "trim ''Control+Shift+KeyV'' = ''Control+Shift+KeyV''" "trim ''Shift+Control+KeyV'' = ''Shift+Control+KeyV''"
  "trim ''Control+Shift+KeyB'' = ''Control+Shift+KeyB''" "trim ''CommandOrControl+KeyK'' = ''CommandOrControl+KeyK''"
  "trim ''Alt+F4'' = ''Alt+F4''" "trim ''Control+KeyNotAKey'' = ''Control+KeyNotAKey''"
  "trim ''Ctrl+Shift+V'' = ''Ctrl+Shift+V''"
  by code_simp+

lemma accelerator_tests:
  assumes "from_str lib ''Control+Shift+KeyV'' = Ok v" and "from_str lib ''Shift+Control+KeyV'' = Ok w"
    and "hk_id w = hk_id v" and "from_str lib ''Control+Shift+KeyB'' = Ok b" and "hk_id b \<noteq> hk_id v"
    and "from_str lib ''CommandOrControl+KeyK'' = Ok k" and "from_str lib ''Alt+F4'' = Ok f"
    and "from_str lib ''Control+KeyNotAKey'' = Err e" and "from_str lib ''Control+KeyV'' = Ok c"
    and "from_str lib ''Ctrl+Shift+V'' = Ok short"
  shows "should_read_the_accelerator_syntax_the_installed_park_already_uses lib"
    and "should_refuse_an_empty_accelerator lib" and "should_refuse_a_key_that_does_not_exist lib"
    and "the_same_chord_should_always_carry_the_same_id lib"
    and "a_different_chord_should_carry_a_different_id lib"
    and "the_order_of_the_modifiers_should_not_change_the_identity lib"
    and "whitespace_around_the_accelerator_should_not_change_it lib"
    and "a_key_the_manager_already_holds_should_say_so lib"
  using assms
  by (simp_all add: should_read_the_accelerator_syntax_the_installed_park_already_uses_def
      should_refuse_an_empty_accelerator_def should_refuse_a_key_that_does_not_exist_def
      the_same_chord_should_always_carry_the_same_id_def a_different_chord_should_carry_a_different_id_def
      the_order_of_the_modifiers_should_not_change_the_identity_def
      whitespace_around_the_accelerator_should_not_change_it_def
      a_key_the_manager_already_holds_should_say_so_def chord_id_def parse_chord_def trimmed_accelerators)

section \<open>The listener\<close>

text \<open>The listener of the tests, by a number, in a process where none was ever installed.\<close>

definition record_listener :: "nat option" where "record_listener = Some 1"

definition no_listener :: pump_world where
  "no_listener = \<lparr>installed = None, pumping = False, pump_threads = 0, told = []\<rparr>"

definition seen :: "pump_world \<Rightarrow> u32 \<times> u8" where "seen w = snd (last (told w))"

definition a_press_emitted_from_another_thread_should_reach_the_listener :: bool where
  "a_press_emitted_from_another_thread_should_reach_the_listener \<longleftrightarrow>
     (let (status, w) = listen True record_listener no_listener
      in status = status_code StatusOk \<and> fst (seen (emit_from_own_thread True 777 True w)) = 777)"

definition a_press_should_reach_the_listener_that_is_installed :: bool where
  "a_press_should_reach_the_listener_that_is_installed \<longleftrightarrow>
     (let (status, w) = listen True record_listener no_listener;
          down = emit 4242 True w; up = emit 4242 False down;
          after = emit 9999 True (snd (listen True None up))
      in status = status_code StatusOk \<and> seen down = (4242, 1) \<and> snd (seen up) = 0 \<and> fst (seen after) = 4242)"

definition installing_a_listener_twice_should_not_start_a_second_pump :: bool where
  "installing_a_listener_twice_should_not_start_a_second_pump \<longleftrightarrow>
     (let (first, w) = listen True record_listener no_listener; (second, w) = listen True record_listener w
      in first = status_code StatusOk \<and> second = status_code StatusOk \<and> pump_threads w = 1)"

lemma listener_tests:
  "a_press_emitted_from_another_thread_should_reach_the_listener"
  "a_press_should_reach_the_listener_that_is_installed"
  "installing_a_listener_twice_should_not_start_a_second_pump"
  by code_simp+

end
