(* ===== verification/Spec2Isabelle.thy ===== *)
theory Spec2Isabelle
  imports Wire Program LinuxService MacService
    WindowsService HttpClient RefreshLock Templates SessionProbe Logging
    HandshakeTests TransportTests XpcTests ServiceTests DaemonTests BridgeTests HttpTests ShortcutTests
begin

text \<open>
  A verification development for the Rust code of dovetail: the toolkit packages under
  \<open>src/toolkit\<close> that every application built with it shares.  Each theory opens with the files it
  models; the definitions keep the names of the source, suffixed or qualified where HOL has the
  name already.

  The parts of the program and how they interact.

  \<^item> The privileged channel (\<open>dovetail_privileged_channel\<close>) carries requests of an application to
    its privileged daemon.  \<open>PeerPolicy\<close> holds the declarations of who may connect and the
    endpoint, \<open>Transport\<close> the Unix sockets, \<open>WindowsTransport\<close> the named pipes and
    \<open>XpcChannel\<close> the XPC service with its C shim; \<open>CodeSignature\<close> judges the code of a peer.
    \<open>Framing\<close> holds messages, frames and limits, \<open>FrameJson\<close> the JSON of the frames (values of
    \<open>Json\<close>), \<open>HandshakeProtocol\<close> both sides of the handshake that every connection starts with.
  \<^item> The daemon (\<open>dovetail_privileged_daemon\<close>) serves that channel.  \<open>RequirementCompile\<close> compiles
    a code requirement (with \<open>CoreFoundation\<close> for what it owns), \<open>RequirementBlob\<close> reads the
    compiled form and \<open>RequirementStrength\<close> judges it; \<open>PlistRequirement\<close> chooses the requirement to
    serve under.  \<open>Connection\<close> serves one connection after its handshake, \<open>Server\<close> accepts
    connections, backs off and counts refusals; \<open>Daemon\<close> is that loop with the tasks it spawns, all
    of them served at once; \<open>MacDaemon\<close> is the loop over XPC, \<open>Platforms\<close> the daemon with all its
    tasks on Windows and on macOS, \<open>Wire\<close> the bytes of a connection and the fixture that drives one
    from its bytes.  \<open>Mode\<close> maps the
    command line to what to do, and \<open>LinuxService\<close>, \<open>MacService\<close> and \<open>WindowsService\<close> install,
    repair, stop and run the service.  \<open>Logging\<close> is its log, \<open>Program\<close> the process from its command
    line to its exit code.
  \<^item> The HTTP client (\<open>dovetail_http_client\<close>): \<open>ApiError\<close> reads what went wrong out of an answer,
    \<open>TokenStore\<close> keeps the session in memory or in the keyring of the system, \<open>Multipart\<close> builds
    uploads, \<open>RedactRoute\<close> what may be logged of a route; \<open>HttpClient\<close> puts requests together,
    tries them again and refreshes the session, and \<open>RefreshLock\<close> is that refresh seen by several
    tasks at once.
  \<^item> The bridge core (\<open>dovetail_rust_core\<close>, theory \<open>BridgeCore\<close>): the runtime, event pumps and
    the table that owns them, and the lines of the log a bridge forwards.
  \<^item> The shortcut channel (\<open>dovetail_shortcut_channel\<close>, theory \<open>Shortcut\<close>): which backend a session
    has, and the registry of system-wide shortcuts behind a C interface, with a host of it in
    \<open>SessionProbe\<close>.
  \<^item> What an application is generated with (\<open>src/tool/sdk/templates\<close>, theory \<open>Templates\<close>): the core
    and the bridge to it, on the runtime of the bridge core.
  \<^item> The unit tests of these packages, run on the model: \<open>MessageTests\<close>, \<open>HandshakeTests\<close>,
    \<open>TransportTests\<close> and \<open>XpcTests\<close> for the channel, \<open>ServiceTests\<close> and \<open>DaemonTests\<close> for the
    daemon, \<open>HttpTests\<close>, \<open>BridgeTests\<close> and \<open>ShortcutTests\<close>.  A test is a predicate under its own
    name that says what the test asserts of the modelled operations, with what it leaves to a
    library as an argument.

  How state and operations correspond to the code.  A struct is a record with the fields of the
  source, an enum a datatype with its variants.  A function that mutates returns the new state; a
  \<open>Result\<close> is a sum with the error on the left (\<open>Prelude\<close>), \<open>?\<close> is \<open>and_then\<close>.  Fixed-width
  integers are words where the width matters (compiled requirements, credentials, counters), natural numbers
  for lengths, retries and clock readings.  Strings are the bytes of their UTF-8 encoding.
  \<open>FileSystem\<close> gives paths, nodes with owner and mode, a history of all states of the file system,
  and operations that fail when the host says so.  Loops that the source ends by what arrives
  (an accept loop, a connection, a pump, a stream) run over a finite list of what arrived, so that
  they end in the model exactly when the list or the source's own condition ends them; properties
  hold for every list.  Tasks that run at once are a step relation: \<open>Daemon\<close> cuts a task at every
  await, its reads, its writes and every poll of a dispatch, each of which may keep it for any number
  of turns; a turn between two waits is atomic, and a frame is written as a whole or not at all.
  \<open>RefreshLock\<close> does the same for tasks that share a client, where the refresher may not return.

  Interfaces are locales, interpreted on the model's own definitions in the theory of the part that
  provides them: the listener contract (\<open>Transport\<close>: Linux and macOS gates), the service backends (\<open>Mode\<close>:
  systemd, launchd), the token stores (\<open>TokenStore\<close>: memory and keyring; the keyring only until
  it fails), the pumps a table owns (\<open>BridgeCore\<close>: runtime tasks and the pump of the tests).

  What the lemmas show, by group.  Requirements: the reader inverts the layout of compiled
  requirements and stays within the blob and its depth limit; the strength check accepts exactly the
  requirements without negation or constant that only code with the evidence of the product
  satisfies.  Admission: who
  is handed out by each transport, in what order modes and sockets are made, that handles and
  references are balanced.  Protocol: what each side of the handshake concludes, that commands run
  only after an accepted hello and only validated, one response each.  Daemon: whatever the order
  of turns, a connection among others does what it does alone with the same answers, which carries
  the lemmas of one connection over to all of them; each one ends within its deadlines unless its
  peer takes nothing of what is written, which holds it for good; on each of the three systems
  a command comes only from a peer its transport admits.  Bytes: frames survive any
  cut into writes and reads, a frame is read back from its JSON, and what a client sees, byte for
  byte.  Accept loop: who is served, how long it waits, that no refusal is lost.  Services: what each operation leaves on the machine
  and reports.  HTTP: the exact trace of a request with its waits and its single refresh, that it
  persists through errors that pass; of concurrent tasks that were refused that they refresh once, go
  on with what was stored, and stop only with their answers or behind a refresher that hangs.  Bridge and
  shortcuts: what is owned is let go of.  The properties at the end of this theory span
  several parts.  Tests: every test that is modelled holds, which checks the definitions against
  what the authors of the code expect of it.

  Bounds and fuel.  The reader of compiled requirements recurses at most \<open>MAX_DEPTH\<close> deep, as the
  source does, with the depth as its measure.  The service operations poll at most as often as their
  limits allow; the retry loop of the client is measured by the retries left and the one refresh.
  A task of the daemon is bounded by the waits it has left, four for each arrival before the peer falls
  silent and four more, each of them over when its deadline passes or its write is taken.  The fixture
  of \<open>Wire\<close> keeps the source's pipe of 256 KiB and its deadline of twice that of the handshake: it has
  no result beyond either.  No fuel is used beside the limits of the source; only the exact reads of \<open>XpcTests\<close> count
  theirs, one for each byte wanted, as no read comes back empty before the end.

  Parameters.  Code outside the repository is an argument: the frameworks of macOS and the Win32
  calls, the text of a JSON value and how \<open>serde\<close> reads a struct from an array, the HTTP
  transport, the keyring, the library that grabs keys, \<open>systemctl\<close>, \<open>launchctl\<close> and \<open>plutil\<close>, the digest, the runtime's channels, and the codec of \<open>tokio_util\<close>, of
  which \<open>length_delimited\<close> states what its documentation says.  What an application does in a
  dispatch is its own: a poll may do anything to the state it shares.

  Symbolic links: \<open>exists\<close> follows them; the other operations on files are modelled for paths that
  lead through none (\<open>FileSystem\<close>).

  Not modelled: formatting of log records and \<open>Display\<close> texts that nothing reads, the Dart and
  Flutter packages, the command line tools, the build scripts, the example of the XPC channel, and
  the tests that need the running system (signed programs, the compiler of requirements, process
  numbers and times, the handshake over XPC) or that compare drawn nonces.  A panic of the source
  (a poisoned lock that is expected to be whole, a failed conversion of a literal) is not a branch of the model where no input leads to it.
\<close>

section \<open>Properties that span components\<close>

text \<open>
  A command the Linux daemon runs was sent by a process whose credentials the kernel vouched
  for and the application's policy names: any connection the accept loop hands on belongs to such
  a process and is served under its credentials, and it runs commands only after a hello of the
  daemon's major version, only validated ones, in the order they were sent.
\<close>

theorem linux_commands_authorised:
  assumes "run_linux prepared a policy getsockopt xs h = (Ok actions, h')"
    and "(conn, peer) \<in> set (concat (map served_conn actions))"
    and "handle_conn js app version peer open_file s fr = (r, fr', s', cmds)" and "cmds \<noteq> []"
  shows "(\<exists>p pid uid gid. policy = Some p \<and> getsockopt conn = Inr (pid, uid, gid) \<and> admits p uid gid \<and>
      Inr conn \<in> set (map snd xs) \<and>
      check_subject peer = subject_of \<lparr>cred_pid = pid, cred_uid = uid, cred_gid = gid\<rparr>) \<and>
    (\<exists>b hello rest ys. inbound fr = Arrives b # rest \<and> from_slice js b = Some (FHello hello) \<and>
      proto_major hello = PROTOCOL_MAJOR \<and>
      cmds @ ys = valid_cmds app (map (request_of js) (takeWhile (Connection.is_request js) rest)))"
proof (rule conjI)
  obtain l where l: "linux_policy l = policy"
      "concat (map served_conn actions) = concat (map (\<lambda>x. admitted_conn (incoming_turn l getsockopt x)) xs)"
    using run_linux_served [OF assms(1)] .
  obtain x where x: "x \<in> set xs" "(conn, peer) \<in> set (admitted_conn (incoming_turn l getsockopt x))"
    using assms(2) unfolding l(2) by auto
  then have "(conn, peer) \<in> set (admitted_conn (incoming_turn l getsockopt (fst x, snd x)))" by simp
  from incoming_peer [OF this] show "\<exists>p pid uid gid. policy = Some p \<and> getsockopt conn = Inr (pid, uid, gid) \<and>
      admits p uid gid \<and> Inr conn \<in> set (map snd xs) \<and>
      check_subject peer = subject_of \<lparr>cred_pid = pid, cred_uid = uid, cred_gid = gid\<rparr>"
    using x(1) l(1) by force
  show "\<exists>b hello rest ys. inbound fr = Arrives b # rest \<and> from_slice js b = Some (FHello hello) \<and>
      proto_major hello = PROTOCOL_MAJOR \<and>
      cmds @ ys = valid_cmds app (map (request_of js) (takeWhile (Connection.is_request js) rest))"
    using handle_conn_dispatches [OF assms(3)] assms(4) by blast
qed

theorem linux_commands_authorised_witness:
  "\<exists>actions h' fr'. Server.example_run = (Ok actions, h') \<and> (7, echo_peer) \<in> set (concat (map served_conn actions)) \<and>
     handle_conn echo_serde echo_app ''9.9.9'' echo_peer (\<lambda>_. Ok echo_nonce) 0 echo_framer = (Ok (), fr', 1, [()]) \<and>
     (\<exists>p pid uid gid. Some (allow_uid 7 default_policy) = Some p \<and> example_getsockopt 7 = Inr (pid, uid, gid) \<and>
        admits p uid gid \<and> check_subject echo_peer = subject_of \<lparr>cred_pid = pid, cred_uid = uid, cred_gid = gid\<rparr>)"
proof -
  obtain actions h' where run: "Server.example_run = (Ok actions, h')"
    using Server.example_run_ok by (auto simp: is_ok_iff prod_eq_iff)
  obtain l where l: "linux_policy l = Some (allow_uid 7 default_policy)"
      "concat (map served_conn actions) = concat (map (\<lambda>x. admitted_conn (incoming_turn l example_getsockopt x))
        [(0, Inr 7), (1, Inr 8), (2, Inl NotFound), (3, Inr 7)])"
    using run_linux_served [OF run [unfolded Server.example_run_def]] .
  have "map fst (admitted_conn (incoming_turn l example_getsockopt (0, Inr 7))) = [7]"
    unfolding incoming_admitted l(1)
    by (simp add: linux_admitted_def example_getsockopt_def admits_def allow_uid_def default_policy_def)
  then obtain peer where peer: "(7, peer) \<in> set (admitted_conn (incoming_turn l example_getsockopt (0, Inr 7)))"
    by (cases "admitted_conn (incoming_turn l example_getsockopt (0, Inr 7))") auto
  have "subject_of \<lparr>cred_pid = 1, cred_uid = 7, cred_gid = 0\<rparr> = ''pid=1 uid=7 gid=0''"
    by code_simp
  then have "peer = echo_peer"
    using incoming_peer [OF peer] by (auto simp: example_getsockopt_def echo_peer_def)
  then have served: "(7, echo_peer) \<in> set (concat (map served_conn actions))"
    unfolding l(2) using peer by simp
  obtain fr' where conn: "handle_conn echo_serde echo_app ''9.9.9'' echo_peer (\<lambda>_. Ok echo_nonce) 0 echo_framer =
      (Ok (), fr', 1, [()])"
    using echo_run by blast
  show ?thesis
    using linux_commands_authorised [OF run [unfolded Server.example_run_def] served conn] run served conn by blast
qed

text \<open>
  C36: without the privilege to change the system nothing changes, on Linux as on macOS: whatever
  sequence of installing, removing, stopping, repairing and asking for the status is run, the
  machine stays as it was, and every operation that would change it says that it needs the
  privilege, or that there is nothing to repair.
\<close>

theorem user_changes_nothing:
  assumes "linux_euid lw \<noteq> 0" and "\<not> sou_root mw" and "set ms \<subseteq> insert Status changing"
  shows "changes (run_modes (linux_backend unit cleanup_ok) ms lw) = changes lw \<and>
    mac_machine (run_modes (mac_backend label) ms mw) = mac_machine mw \<and>
    (\<forall>m\<in>changing. fst (executar (linux_backend unit cleanup_ok) m lw) \<in> {NEEDS_ELEVATION, NOT_INSTALLED} \<and>
       fst (executar (mac_backend label) m mw) \<in> {NEEDS_ELEVATION, NOT_INSTALLED})"
  using linux.user_runs [OF assms(1,3)] linux.user_refused [OF assms(1)]
    mac.user_runs [OF assms(2,3)] mac.user_refused [OF assms(2)] by blast

theorem user_changes_nothing_witness:
  "changes (run_modes (linux_backend ''u'' (\<lambda>_. True)) [Install, Status, Repair] (example_linux 1000)) = changes (example_linux 1000) \<and>
   mac_machine (run_modes (mac_backend ''l'') [Install, Status, Repair] (example_mac 501)) = mac_machine (example_mac 501)"
proof -
  have "linux_euid (example_linux 1000) \<noteq> 0" by (simp add: example_linux_def)
  moreover have "\<not> sou_root (example_mac 501)" by (simp add: sou_root_def example_mac_def example_host_def)
  moreover have "set [Install, Status, Repair] \<subseteq> insert Status changing" by (simp add: changing_def)
  ultimately show ?thesis by (intro conjI) (blast dest: user_changes_nothing)+
qed

end
